theory Spec2Isabelle
  imports Complex_Main "HOL-Library.Word"
begin

unbundle bit_operations_syntax

section \<open>The legacy VTK data reader (IO/Legacy/vtkDataReader.cxx)\<close>

text \<open>
  A shallow embedding of the parsing core of \<^verbatim>\<open>vtkDataReader\<close>. Functions of the
  source keep their names. A result of type \<open>'a option\<close> is \<open>None\<close> where the source
  has no defined result: it reads an indeterminate value, reads or writes outside a
  buffer, overflows a signed integer, or loops forever.
\<close>

subsection \<open>C strings\<close>

definition NUL :: char where
  "NUL = CHR 0x00"

text \<open>The contents of a character buffer as the C string functions see it.\<close>

definition c_str :: "string \<Rightarrow> string" where
  "c_str b = takeWhile (\<lambda>c. c \<noteq> NUL) b"

definition isspace :: "char \<Rightarrow> bool" where
  "isspace c = (c \<in> set [CHR '' '', CHR 0x09, CHR 0x0A, CHR 0x0B, CHR 0x0C, CHR 0x0D])"

definition isdigit :: "char \<Rightarrow> bool" where
  "isdigit c = (c \<in> set ''0123456789'')"

definition digit_val :: "char \<Rightarrow> nat" where
  "digit_val c = of_char c - 48"

definition is_xdigit :: "char \<Rightarrow> bool" where
  "is_xdigit c = (c \<in> set ''0123456789abcdefABCDEF'')"

definition xdigit_val :: "char \<Rightarrow> nat" where
  "xdigit_val c =
     (let n = of_char c in
      if 48 \<le> n \<and> n \<le> 57 then n - 48
      else if 97 \<le> n \<and> n \<le> 102 then n - 87
      else n - 55)"

definition tolower :: "char \<Rightarrow> char" where
  "tolower c = (let n = of_char c in if 65 \<le> n \<and> n \<le> (90::nat) then char_of (n + 32) else c)"

text \<open>
  \<^verbatim>\<open>LowerCase(str, len)\<close> (len defaults to 256) lowers the characters of a C string
  in place, at most \<open>len\<close> of them.
\<close>

definition LowerCase :: "string \<Rightarrow> nat \<Rightarrow> string" where
  "LowerCase str len = map tolower (take len str) @ drop len str"

text \<open>\<^verbatim>\<open>strncmp(a, b, n) == 0\<close> on C strings.\<close>

definition strncmp_eq :: "string \<Rightarrow> string \<Rightarrow> nat \<Rightarrow> bool" where
  "strncmp_eq a b n = (take n a = take n b)"

subsection \<open>The input stream\<close>

text \<open>
  \<^verbatim>\<open>std::istream\<close> over the bytes of the file or input string: the unread bytes, the
  state bits and the count of the last unformatted read. The operations follow the C++
  standard library; the bad bit is never set by a stream over memory and is left out.
\<close>

record istream =
  buf :: string
  eofbit :: bool
  failbit :: bool
  gcount :: nat

definition good :: "istream \<Rightarrow> bool" where
  "good s = (\<not> eofbit s \<and> \<not> failbit s)"

definition IS_clear :: "istream \<Rightarrow> istream" where
  "IS_clear s = s\<lparr>eofbit := False, failbit := False\<rparr>"

definition newline :: char where
  "newline = CHR 0x0A"

text \<open>\<^verbatim>\<open>IS->read(p, n)\<close>: the bytes stored at \<open>p\<close>.\<close>

definition IS_read :: "nat \<Rightarrow> istream \<Rightarrow> string \<times> istream" where
  "IS_read n s =
     (if \<not> good s then ([], s\<lparr>failbit := True, gcount := 0\<rparr>)
      else if n \<le> length (buf s)
      then (take n (buf s), s\<lparr>buf := drop n (buf s), gcount := n\<rparr>)
      else (buf s, s\<lparr>buf := [], eofbit := True, failbit := True, gcount := length (buf s)\<rparr>))"

text \<open>
  \<^verbatim>\<open>IS->getline(p, n)\<close> for \<open>n > 0\<close>: the characters stored before the terminator.
  After \<open>n - 1\<close> stored characters the tests are, in this order: end of file, a
  delimiter next (it is extracted), otherwise the fail bit.
\<close>

definition IS_getline :: "nat \<Rightarrow> istream \<Rightarrow> string \<times> istream" where
  "IS_getline n s =
     (if \<not> good s then ([], s\<lparr>failbit := True, gcount := 0\<rparr>)
      else
        let line = takeWhile (\<lambda>c. c \<noteq> newline) (buf s) in
        if length line < n - 1 then
          (case drop (length line) (buf s) of
             [] \<Rightarrow> (line, s\<lparr>buf := [], eofbit := True, failbit := (line = []),
                           gcount := length line\<rparr>)
           | _ # rest \<Rightarrow> (line, s\<lparr>buf := rest, gcount := length line + 1\<rparr>))
        else
          (case drop (n - 1) (buf s) of
             [] \<Rightarrow> (take (n - 1) (buf s), s\<lparr>buf := [], eofbit := True, gcount := n - 1\<rparr>)
           | c # rest \<Rightarrow>
               if c = newline
               then (take (n - 1) (buf s), s\<lparr>buf := rest, gcount := n\<rparr>)
               else (take (n - 1) (buf s),
                     s\<lparr>buf := c # rest, failbit := True, gcount := n - 1\<rparr>)))"

text \<open>\<^verbatim>\<open>IS->ignore(n, delim)\<close>.\<close>

definition IS_ignore :: "nat \<Rightarrow> char \<Rightarrow> istream \<Rightarrow> istream" where
  "IS_ignore n delim s =
     (if \<not> good s then s\<lparr>failbit := True, gcount := 0\<rparr>
      else
        let pre = takeWhile (\<lambda>c. c \<noteq> delim) (buf s) in
        if n \<le> length pre then s\<lparr>buf := drop n (buf s), gcount := n\<rparr>
        else
          (case drop (length pre) (buf s) of
             [] \<Rightarrow> s\<lparr>buf := [], eofbit := True, gcount := length pre\<rparr>
           | _ # rest \<Rightarrow> s\<lparr>buf := rest, gcount := length pre + 1\<rparr>))"

text \<open>\<^verbatim>\<open>IS->peek()\<close> and \<^verbatim>\<open>IS->get()\<close>; \<open>None\<close> is \<^verbatim>\<open>EOF\<close>.\<close>

definition IS_peek :: "istream \<Rightarrow> char option \<times> istream" where
  "IS_peek s =
     (if \<not> good s then (None, s\<lparr>failbit := True, gcount := 0\<rparr>)
      else case buf s of
             [] \<Rightarrow> (None, s\<lparr>eofbit := True, gcount := 0\<rparr>)
           | c # _ \<Rightarrow> (Some c, s\<lparr>gcount := 0\<rparr>))"

definition IS_get :: "istream \<Rightarrow> char option \<times> istream" where
  "IS_get s =
     (if \<not> good s then (None, s\<lparr>failbit := True, gcount := 0\<rparr>)
      else case buf s of
             [] \<Rightarrow> (None, s\<lparr>eofbit := True, failbit := True, gcount := 0\<rparr>)
           | c # rest \<Rightarrow> (Some c, s\<lparr>buf := rest, gcount := 1\<rparr>))"

text \<open>
  The sentry of a formatted extraction: it fails on a stream that is not good, and skips
  white space; reaching the end while skipping sets both bits.
\<close>

definition sentry_skipws :: "istream \<Rightarrow> bool \<times> istream" where
  "sentry_skipws s =
     (if \<not> good s then (False, s\<lparr>failbit := True\<rparr>)
      else
        let rest = dropWhile isspace (buf s) in
        if rest = [] then (False, s\<lparr>buf := [], eofbit := True, failbit := True\<rparr>)
        else (True, s\<lparr>buf := rest\<rparr>))"

text \<open>
  \<^verbatim>\<open>IS >> p\<close> into a character array under \<^verbatim>\<open>width(w)\<close>: at most \<open>w - 1\<close> characters
  up to white space. \<open>None\<close>: nothing was stored. The extraction that stops because
  \<open>w - 1\<close> characters are stored does not look at what follows, so the end of the
  stream is seen only by one that stored fewer.
\<close>

definition IS_extract_cstr :: "nat \<Rightarrow> istream \<Rightarrow> string option \<times> istream" where
  "IS_extract_cstr w s =
     (case sentry_skipws s of
        (False, s1) \<Rightarrow> (None, s1)
      | (True, s1) \<Rightarrow>
          let tok = take (w - 1) (takeWhile (\<lambda>c. \<not> isspace c) (buf s1));
              rest = drop (length tok) (buf s1)
          in (Some tok, s1\<lparr>buf := rest, eofbit := (rest = [] \<and> length tok < w - 1)\<rparr>))"

text \<open>\<^verbatim>\<open>IS >> str\<close> into a \<^verbatim>\<open>std::string\<close>: the string afterwards, given the one before.\<close>

definition IS_extract_string :: "string \<Rightarrow> istream \<Rightarrow> string \<times> istream" where
  "IS_extract_string old s =
     (case sentry_skipws s of
        (False, s1) \<Rightarrow> (old, s1)
      | (True, s1) \<Rightarrow>
          let tok = takeWhile (\<lambda>c. \<not> isspace c) (buf s1);
              rest = drop (length tok) (buf s1)
          in (tok, s1\<lparr>buf := rest, eofbit := (rest = [])\<rparr>))"

definition digits_val :: "string \<Rightarrow> nat" where
  "digits_val ds = foldl (\<lambda>a c. 10 * a + digit_val c) 0 ds"

text \<open>
  \<^verbatim>\<open>IS >> v\<close> for an integer type with the range \<open>lo..hi\<close> (\<open>lo = 0\<close> for an unsigned
  type): a sign and decimal digits. The result is the value stored in \<open>v\<close>; \<open>None\<close> when
  the sentry failed and nothing was stored. Without digits \<open>0\<close> is stored, out of range
  the nearest bound, both with the fail bit. An unsigned type takes a minus sign and
  negates modulo its size.
\<close>

definition IS_extract_int :: "int \<Rightarrow> int \<Rightarrow> istream \<Rightarrow> int option \<times> istream" where
  "IS_extract_int lo hi s =
     (case sentry_skipws s of
        (False, s1) \<Rightarrow> (None, s1)
      | (True, s1) \<Rightarrow>
          let neg = (take 1 (buf s1) = ''-'');
              b1 = (if take 1 (buf s1) = ''-'' \<or> take 1 (buf s1) = ''+''
                    then drop 1 (buf s1) else buf s1);
              ds = takeWhile isdigit b1;
              rest = drop (length ds) b1;
              s2 = s1\<lparr>buf := rest, eofbit := (rest = [])\<rparr>;
              m = int (digits_val ds)
          in
            if ds = [] then (Some 0, s2\<lparr>failbit := True\<rparr>)
            else if lo < 0 then
              (let v = (if neg then - m else m) in
               if v < lo then (Some lo, s2\<lparr>failbit := True\<rparr>)
               else if hi < v then (Some hi, s2\<lparr>failbit := True\<rparr>)
               else (Some v, s2))
            else
              (if hi < m then (Some hi, s2\<lparr>failbit := True\<rparr>)
               else (Some (if neg then (- m) mod (hi + 1) else m), s2)))"

subsection \<open>The tokenizer of the reader\<close>

text \<open>
  \<^verbatim>\<open>ReadLine\<close>: \<open>None\<close> is the return value 0. The line is returned as the C string in
  the buffer, without a trailing carriage return.
\<close>

definition VTK_INT_MAX :: nat where
  "VTK_INT_MAX = 2147483647"

definition strip_cr :: "string \<Rightarrow> string" where
  "strip_cr l = (if l \<noteq> [] \<and> last l = CHR 0x0D then butlast l else l)"

definition ReadLine :: "istream \<Rightarrow> string option \<times> istream" where
  "ReadLine s =
     (let (result, s1) = IS_getline 256 s in
      if failbit s1 then
        (if eofbit s1 then (None, s1)
         else if gcount s1 = 255
         then (Some (strip_cr (c_str result)), IS_ignore VTK_INT_MAX newline (IS_clear s1))
         else (Some (strip_cr (c_str result)), s1))
      else (Some (strip_cr (c_str result)), s1))"

text \<open>\<^verbatim>\<open>ReadString\<close>: \<open>None\<close> is the return value 0; the buffer is then unchanged.\<close>

definition ReadString :: "istream \<Rightarrow> string option \<times> istream" where
  "ReadString s =
     (case IS_extract_cstr 256 s of
        (None, s1) \<Rightarrow> (None, s1)
      | (Some tok, s1) \<Rightarrow> (Some (c_str tok), s1))"

text \<open>
  \<^verbatim>\<open>Read(T*)\<close> for the integer types. The first component is the return value, the
  second the value of \<^verbatim>\<open>*result\<close> afterwards where the call stored one.
\<close>

definition Read_integer :: "int \<Rightarrow> int \<Rightarrow> istream \<Rightarrow> bool \<times> int option \<times> istream" where
  "Read_integer lo hi s =
     (let (v, s1) = IS_extract_int lo hi s in (\<not> failbit s1, v, s1))"

definition INT_MIN :: int where "INT_MIN = - 2147483648"
definition INT_MAX :: int where "INT_MAX = 2147483647"

definition Read_int :: "istream \<Rightarrow> bool \<times> int option \<times> istream" where
  "Read_int = Read_integer INT_MIN INT_MAX"

text \<open>\<^verbatim>\<open>vtkIdType\<close> is a 64-bit signed integer.\<close>

definition Read_vtkIdType :: "istream \<Rightarrow> bool \<times> int option \<times> istream" where
  "Read_vtkIdType = Read_integer (- (2 ^ 63)) (2 ^ 63 - 1)"

text \<open>
  \<^verbatim>\<open>Read(char*)\<close> and \<^verbatim>\<open>Read(unsigned char*)\<close> read an \<^verbatim>\<open>int\<close> and keep its low
  byte; nothing is stored when the extraction fails.
\<close>

definition Read_char :: "istream \<Rightarrow> bool \<times> int option \<times> istream" where
  "Read_char s =
     (let (v, s1) = IS_extract_int INT_MIN INT_MAX s in
      if failbit s1 then (False, None, s1)
      else (True, map_option (\<lambda>i. i mod 256) v, s1))"

text \<open>\<^verbatim>\<open>Peek(str, n)\<close> for \<open>n > 0\<close>: the bytes read, and the stream put back.\<close>

definition Peek :: "nat \<Rightarrow> istream \<Rightarrow> string \<times> istream" where
  "Peek n s =
     (let (str, s1) = IS_read n s;
          s2 = (if failbit s1 then IS_clear s1 else s1)
      in (str, s2\<lparr>buf := str @ buf s2\<rparr>))"

subsection \<open>The reader and what it is configured with\<close>

text \<open>
  The classes of information keys that the reader can fill, and a key as the registry
  \<^verbatim>\<open>vtkInformationKeyLookup\<close> hands it out.
\<close>

datatype key_class =
  DoubleKey | DoubleVectorKey | IdTypeKey | IntegerKey | IntegerVectorKey | StringKey
  | StringVectorKey | UnsignedLongKey | OtherKey

datatype info_key = InfoKey (key_name: string) (key_location: string) (key_class: key_class)

text \<open>
  What the source takes from outside itself: the version of the reader
  (vtkLegacyReaderVersion.h), the size of \<^verbatim>\<open>long\<close>, the ghost constants of
  \<^verbatim>\<open>vtkDataSetAttributes\<close>, the type codes that a variant may carry (vtkType.h), the
  registry of information keys, and the conversion of a decimal numeral to a
  \<^verbatim>\<open>float\<close> or \<^verbatim>\<open>double\<close> by the C++ library. \<open>scan_float b\<close> is the number of
  characters of \<open>b\<close> that the extraction takes, whether it succeeds, and the bit pattern
  it stores.
\<close>

record env =
  LegacyReaderMajorVersion :: int
  LegacyReaderMinorVersion :: int
  SIZEOF_LONG :: nat
  DUPLICATEPOINT :: nat
  DUPLICATECELL :: nat
  GhostArrayName :: string
  VariantTypes :: "int list"
  FindKey :: "string \<Rightarrow> string \<Rightarrow> info_key option"
  scan_float :: "string \<Rightarrow> nat \<times> bool \<times> nat"
  scan_double :: "string \<Rightarrow> nat \<times> bool \<times> nat"

datatype file_type = FileType_0 | VTK_ASCII | VTK_BINARY

datatype error_code =
  NoError | NoFileNameError | CannotOpenFileError | UnrecognizedFileTypeError
  | PrematureEndOfFileError

text \<open>The messages of \<^verbatim>\<open>vtkWarningMacro\<close> and \<^verbatim>\<open>vtkErrorMacro\<close>, by their first words.\<close>

datatype message = Warning string | Error string

text \<open>
  The fields of \<^verbatim>\<open>vtkDataReader\<close> that the modelled functions read or write.
  \<open>File\<close> is the content of the named file, \<open>None\<close> if it cannot be opened;
  \<open>IS_open\<close> is false once the stream has been deleted. A name filter that is
  \<open>None\<close> is the null pointer.
\<close>

record reader =
  IS :: istream
  IS_open :: bool
  File :: "string option"
  ReadFromInputString :: bool
  FileType :: file_type
  FileMajorVersion :: int
  FileMinorVersion :: int
  FileVersion :: int
  Header :: "string option"
  ErrorCode :: error_code
  Log :: "message list"
  ScalarsName :: "string option"
  ScalarLut :: "string option"
  LookupTableName :: "string option"
  FieldDataName :: "string option"
  ReadAllScalars :: bool
  ReadAllColorScalars :: bool
  ReadAllFields :: bool

definition in_int_range :: "int \<Rightarrow> bool" where
  "in_int_range v = (INT_MIN \<le> v \<and> v \<le> INT_MAX)"

subsection \<open>ReadHeader\<close>

text \<open>
  The conversion \<^verbatim>\<open>%d\<close> of \<^verbatim>\<open>sscanf\<close>: white space, a sign, decimal digits. The
  result is the number and the rest of the input, \<open>None\<close> on a matching failure.
\<close>

definition sscanf_d :: "string \<Rightarrow> (int \<times> string) option" where
  "sscanf_d str =
     (let b = dropWhile isspace str;
          neg = (take 1 b = ''-'');
          b1 = (if take 1 b = ''-'' \<or> take 1 b = ''+'' then drop 1 b else b);
          ds = takeWhile isdigit b1;
          m = int (digits_val ds)
      in if ds = [] then None else Some (if neg then - m else m, drop (length ds) b1))"

text \<open>
  \<^verbatim>\<open>sscanf(str, "%d.%d", &major, &minor)\<close>: the number of conversions made and the
  values stored (0 stands where none was). A number outside the range of \<^verbatim>\<open>int\<close>
  has no defined conversion.
\<close>

definition sscanf_version :: "string \<Rightarrow> (nat \<times> int \<times> int) option" where
  "sscanf_version str =
     (case sscanf_d str of
        None \<Rightarrow> Some (0, 0, 0)
      | Some (major, rest) \<Rightarrow>
          if \<not> in_int_range major then None
          else if take 1 rest \<noteq> ''.'' then Some (1, major, 0)
          else
            (case sscanf_d (drop 1 rest) of
               None \<Rightarrow> Some (1, major, 0)
             | Some (minor, _) \<Rightarrow>
                 if \<not> in_int_range minor then None
                 else Some (2, major, minor)))"

text \<open>
  The end of ReadHeader for a binary file read from disk: the file is opened again and
  the two lines and the token are read once more, unchecked.
\<close>

definition reopen_binary :: "reader \<Rightarrow> int \<times> reader" where
  "reopen_binary r =
     (case File r of
        None \<Rightarrow>
          (0, r\<lparr>IS_open := False, ErrorCode := CannotOpenFileError,
                 Log := Log r @ [Error ''Unable to open file: '']\<rparr>)
      | Some content \<Rightarrow>
          let s0 = \<lparr>buf = content, eofbit = False, failbit = False, gcount = 0\<rparr>;
              s1 = snd (ReadLine s0);
              s2 = snd (ReadLine s1);
              s3 = snd (ReadString s2)
          in (1, r\<lparr>IS := s3\<rparr>))"

text \<open>
  \<^verbatim>\<open>ReadHeader\<close>: the return value and the reader afterwards. The progress report at
  the end belongs to the pipeline and is left out.
\<close>

definition ReadHeader :: "env \<Rightarrow> reader \<Rightarrow> (int \<times> reader) option" where
  "ReadHeader E r =
     (case ReadLine (IS r) of
        (None, s1) \<Rightarrow>
          Some (0, r\<lparr>IS := s1, ErrorCode := PrematureEndOfFileError,
                      Log := Log r @ [Error ''Premature EOF reading first line! '']\<rparr>)
      | (Some line, s1) \<Rightarrow>
          if \<not> strncmp_eq ''# vtk DataFile Version'' line 22
          then Some (0, r\<lparr>IS := s1, ErrorCode := UnrecognizedFileTypeError,
                           Log := Log r @ [Error ''Unrecognized file type: '']\<rparr>)
          else
            (case sscanf_version (drop 22 line) of
               None \<Rightarrow> None
             | Some (n, major, minor) \<Rightarrow>
                 let parsed = (n = 2);
                     mj = (if parsed then major else 0);
                     mn = (if parsed then minor else 0);
                     log1 = Log r @ (if parsed then [] else [Warning ''Cannot read file version: '']);
                     log2 = log1 @
                       (if LegacyReaderMajorVersion E < mj
                           \<or> (mj = LegacyReaderMajorVersion E \<and> LegacyReaderMinorVersion E < mn)
                        then [Warning ''Reading file version: ''] else []);
                     r1 = r\<lparr>FileMajorVersion := mj, FileMinorVersion := mn,
                            FileVersion := 10 * mj + mn, Log := log2\<rparr>
                 in
                   if \<not> in_int_range (10 * mj) \<or> \<not> in_int_range (10 * mj + mn) then None
                   else
                     (case ReadLine s1 of
                        (None, s2) \<Rightarrow>
                          Some (0, r1\<lparr>IS := s2, ErrorCode := PrematureEndOfFileError,
                                       Log := log2 @ [Error ''Premature EOF reading title! '']\<rparr>)
                      | (Some title, s2) \<Rightarrow>
                          (case ReadString s2 of
                             (None, s3) \<Rightarrow>
                               Some (0, r1\<lparr>IS := s3, Header := Some title,
                                            ErrorCode := PrematureEndOfFileError,
                                            Log := log2 @ [Error ''Premature EOF reading file type!'']\<rparr>)
                           | (Some tok, s3) \<Rightarrow>
                               let low = LowerCase tok 256;
                                   r2 = r1\<lparr>IS := s3, Header := Some title\<rparr>
                               in
                                 if strncmp_eq low ''ascii'' 5
                                 then Some (1, r2\<lparr>FileType := VTK_ASCII\<rparr>)
                                 else if strncmp_eq low ''binary'' 6
                                 then (if \<not> ReadFromInputString r2
                                       then Some (reopen_binary (r2\<lparr>FileType := VTK_BINARY\<rparr>))
                                       else Some (1, r2\<lparr>FileType := VTK_BINARY\<rparr>))
                                 else Some (0, r2\<lparr>FileType := FileType_0,
                                                  ErrorCode := UnrecognizedFileTypeError,
                                                  Log := log2 @ [Error ''Unrecognized file type: '']\<rparr>)))))"

text \<open>
  A header as text: a first line, a title line, the encoding token and what follows.
  The lines are shorter than the line buffer and hold no NUL; the token is a word of at
  most 255 characters.
\<close>

definition header_input :: "string \<Rightarrow> string \<Rightarrow> string \<Rightarrow> string \<Rightarrow> string" where
  "header_input l1 l2 tok rest = l1 @ newline # l2 @ newline # tok @ newline # rest"

definition text_line :: "string \<Rightarrow> bool" where
  "text_line l = (newline \<notin> set l \<and> NUL \<notin> set l \<and> length l < 255)"

definition token :: "string \<Rightarrow> bool" where
  "token t = (t \<noteq> [] \<and> (\<forall>c\<in>set t. \<not> isspace c) \<and> NUL \<notin> set t \<and> length t \<le> 255)"

definition has_magic :: "string \<Rightarrow> bool" where
  "has_magic l = (take 22 l = ''# vtk DataFile Version'')"

text \<open>The word \<open>t\<close> begins with the lower-case word \<open>w\<close>, whatever the case of its letters.\<close>

definition begins_ci :: "string \<Rightarrow> string \<Rightarrow> bool" where
  "begins_ci t w = (map tolower (take (length w) t) = w)"

text \<open>
  The version that the first line carries: what \<^verbatim>\<open>sscanf\<close> finds behind the prefix.
  It is defined unless a number leaves the range of \<^verbatim>\<open>int\<close>.
\<close>

definition version_of :: "string \<Rightarrow> (nat \<times> int \<times> int) option" where
  "version_of l = sscanf_version (drop 22 (strip_cr l))"

definition version_defined :: "string \<Rightarrow> bool" where
  "version_defined l =
     (case version_of l of
        None \<Rightarrow> False
      | Some (n, major, minor) \<Rightarrow>
          n = 2 \<longrightarrow> in_int_range (10 * major) \<and> in_int_range (10 * major + minor))"

definition version_parsed :: "string \<Rightarrow> bool" where
  "version_parsed l = (case version_of l of None \<Rightarrow> False | Some (n, _, _) \<Rightarrow> n = 2)"

definition version_newer :: "env \<Rightarrow> string \<Rightarrow> bool" where
  "version_newer E l =
     (case version_of l of
        None \<Rightarrow> False
      | Some (n, major, minor) \<Rightarrow>
          n = 2 \<and> (LegacyReaderMajorVersion E < major
                   \<or> (major = LegacyReaderMajorVersion E \<and> LegacyReaderMinorVersion E < minor)))"

text \<open>
  The reader as its constructor leaves it, opened on an input string
  (\<^verbatim>\<open>OpenVTKFile\<close> with \<^verbatim>\<open>ReadFromInputString\<close>), and the constants of VTK 9.
\<close>

definition open_stream :: "string \<Rightarrow> istream" where
  "open_stream b = \<lparr>buf = b, eofbit = False, failbit = False, gcount = 0\<rparr>"

definition new_reader :: "string \<Rightarrow> reader" where
  "new_reader b =
     \<lparr>IS = open_stream b, IS_open = True, File = None, ReadFromInputString = True,
      FileType = VTK_ASCII, FileMajorVersion = 0, FileMinorVersion = 0, FileVersion = 0,
      Header = None, ErrorCode = NoError, Log = [],
      ScalarsName = None, ScalarLut = None, LookupTableName = None, FieldDataName = None,
      ReadAllScalars = False, ReadAllColorScalars = False, ReadAllFields = False\<rparr>"

text \<open>
  An environment for the examples, with the constants of VTK 9, one registered key, and
  a numeral conversion that knows \<^verbatim>\<open>0.5\<close>, \<^verbatim>\<open>1\<close> and \<^verbatim>\<open>0\<close>.
\<close>

definition example_scan_float :: "string \<Rightarrow> nat \<times> bool \<times> nat" where
  "example_scan_float b =
     (if take 3 b = ''0.5'' then (3, True, 0x3F000000)
      else if take 1 b = ''1'' then (1, True, 0x3F800000)
      else if take 1 b = ''0'' then (1, True, 0)
      else (0, False, 0))"

definition example_scan_double :: "string \<Rightarrow> nat \<times> bool \<times> nat" where
  "example_scan_double b =
     (if take 3 b = ''0.5'' then (3, True, 0x3FE0000000000000)
      else if take 1 b = ''1'' then (1, True, 0x3FF0000000000000)
      else if take 1 b = ''0'' then (1, True, 0)
      else (0, False, 0))"

definition example_FindKey :: "string \<Rightarrow> string \<Rightarrow> info_key option" where
  "example_FindKey name location =
     (if name = ''LABELS'' \<and> location = ''vtkExample''
      then Some (InfoKey ''LABELS'' ''vtkExample'' StringVectorKey)
      else None)"

definition vtk_env :: env where
  "vtk_env =
     \<lparr>LegacyReaderMajorVersion = 5, LegacyReaderMinorVersion = 1, SIZEOF_LONG = 8,
      DUPLICATEPOINT = 1, DUPLICATECELL = 1, GhostArrayName = ''vtkGhostType'',
      VariantTypes = [2, 15, 3, 4, 5, 6, 7, 8, 9, 10, 11, 16, 17, 13],
      FindKey = example_FindKey,
      scan_float = example_scan_float, scan_double = example_scan_double\<rparr>"

subsection \<open>Arrays\<close>

datatype array_class =
  vtkBitArray | vtkCharArray | vtkUnsignedCharArray | vtkShortArray | vtkUnsignedShortArray
  | vtkIdTypeArray | vtkIntArray | vtkUnsignedIntArray | vtkLongArray | vtkUnsignedLongArray
  | vtkTypeInt64Array | vtkTypeUInt64Array | vtkFloatArray | vtkDoubleArray | vtkStringArray
  | vtkVariantArray

text \<open>
  One logical value of an array: the bit pattern of a number (of a bit, an integer or a
  floating point value, in the width of the array's type), a string, a variant made from
  a type code and a text, an invalid variant, or memory that was allocated and never
  written.
\<close>

datatype cell = Bits nat | Str string | Variant int string | InvalidVariant | Indeterminate

datatype info_value =
  DoubleValue nat | DoubleVector "nat list" | IdTypeValue int | IntegerValue int
  | IntegerVector "int list" | StringValue string | StringVector "string list"
  | UnsignedLongValue int

text \<open>
  Modelled from the spec: \<^verbatim>\<open>vtkInformation\<close> is not part of the source. It stores at
  most one value under a key; \<^verbatim>\<open>Set\<close> replaces it, \<^verbatim>\<open>Append\<close> adds a string to the
  string vector under the key (starting one if there is none), \<^verbatim>\<open>Remove\<close> deletes it.
\<close>

type_synonym information = "(info_key \<times> info_value) list"

definition info_Get :: "information \<Rightarrow> info_key \<Rightarrow> info_value option" where
  "info_Get info k = map_of info k"

definition info_Remove :: "information \<Rightarrow> info_key \<Rightarrow> information" where
  "info_Remove info k = filter (\<lambda>(k', v). k' \<noteq> k) info"

definition info_Set :: "information \<Rightarrow> info_key \<Rightarrow> info_value \<Rightarrow> information" where
  "info_Set info k v = (k, v) # info_Remove info k"

definition info_Append :: "information \<Rightarrow> info_key \<Rightarrow> string \<Rightarrow> information" where
  "info_Append info k str =
     (case info_Get info k of
        Some (StringVector strs) \<Rightarrow> info_Set info k (StringVector (strs @ [str]))
      | _ \<Rightarrow> info_Set info k (StringVector [str]))"

text \<open>
  Modelled from the spec: the array classes are not part of the source. A typed array
  has its class, a name, a component count of at least 1, its values in row-major order,
  the names given to components, and an information object.
\<close>

record vtk_array =
  array_class :: array_class
  Name :: "string option"
  NumberOfComponents :: int
  cells :: "cell list"
  ComponentNames :: "(nat \<times> string) list"
  Information :: information

definition New :: "array_class \<Rightarrow> vtk_array" where
  "New c =
     \<lparr>array_class = c, Name = None, NumberOfComponents = 1, cells = [], ComponentNames = [],
      Information = []\<rparr>"

definition SetNumberOfComponents :: "int \<Rightarrow> vtk_array \<Rightarrow> vtk_array" where
  "SetNumberOfComponents n a = a\<lparr>NumberOfComponents := (if 0 < n then n else 1)\<rparr>"

definition SetName :: "string \<Rightarrow> vtk_array \<Rightarrow> vtk_array" where
  "SetName n a = a\<lparr>Name := Some (c_str n)\<rparr>"

definition SetComponentName :: "nat \<Rightarrow> string \<Rightarrow> vtk_array \<Rightarrow> vtk_array" where
  "SetComponentName i n a =
     a\<lparr>ComponentNames := (i, c_str n) # filter (\<lambda>(j, _). j \<noteq> i) (ComponentNames a)\<rparr>"

subsection \<open>Reading the values of an array\<close>

text \<open>The number that bytes in big-endian order stand for.\<close>

definition be_val :: "string \<Rightarrow> nat" where
  "be_val bs = foldl (\<lambda>a c. 256 * a + of_char c) 0 bs"

text \<open>
  \<open>n\<close> elements of \<open>w\<close> bytes each in a buffer into which \<open>bytes\<close> were read, after the
  swap from big-endian order: an element that was not read in full stays indeterminate.
\<close>

definition fixed_cells :: "nat \<Rightarrow> nat \<Rightarrow> string \<Rightarrow> cell list" where
  "fixed_cells w n bytes =
     map (\<lambda>i. if (i + 1) * w \<le> length bytes
               then Bits (be_val (take w (drop (i * w) bytes)))
               else Indeterminate) [0..<n]"

text \<open>
  \<^verbatim>\<open>vtkReadBinaryData\<close> for a type of \<open>w\<close> bytes: the return value, the bytes stored at
  \<^verbatim>\<open>data\<close>, and the stream.
\<close>

definition vtkReadBinaryData :: "nat \<Rightarrow> int \<Rightarrow> int \<Rightarrow> istream \<Rightarrow> int \<times> string \<times> istream" where
  "vtkReadBinaryData w numTuples numComp s =
     (if numTuples = 0 \<or> numComp = 0 then (1, [], s)
      else
        let (line, s1) = IS_getline 256 s;
            (bytes, s2) = IS_read (w * nat numComp * nat numTuples) s1
        in (if eofbit s2 then 0 else 1, bytes, s2))"

text \<open>
  \<^verbatim>\<open>vtkReadASCIIData\<close> with the element reader \<open>rd\<close>, over \<open>n\<close> elements in all: the
  elements written, the return value, and the stream. The loop stops at the first
  element that cannot be read.
\<close>

definition cell_of :: "nat option \<Rightarrow> cell" where
  "cell_of v = (case v of None \<Rightarrow> Indeterminate | Some b \<Rightarrow> Bits b)"

fun vtkReadASCIIData ::
  "(istream \<Rightarrow> bool \<times> nat option \<times> istream) \<Rightarrow> nat \<Rightarrow> istream \<Rightarrow> cell list \<times> int \<times> istream"
where
  "vtkReadASCIIData rd 0 s = ([], 1, s)"
| "vtkReadASCIIData rd (Suc n) s =
     (case rd s of
        (False, v, s1) \<Rightarrow> ([cell_of v], 0, s1)
      | (True, v, s1) \<Rightarrow>
          (case vtkReadASCIIData rd n s1 of (cs, ret, s2) \<Rightarrow> (cell_of v # cs, ret, s2)))"

text \<open>
  \<^verbatim>\<open>IS >> v\<close> for \<^verbatim>\<open>float\<close> and \<^verbatim>\<open>double\<close>, by the conversion \<open>scan\<close> of the
  environment.
\<close>

definition IS_extract_real ::
  "(string \<Rightarrow> nat \<times> bool \<times> nat) \<Rightarrow> istream \<Rightarrow> nat option \<times> istream" where
  "IS_extract_real scan s =
     (case sentry_skipws s of
        (False, s1) \<Rightarrow> (None, s1)
      | (True, s1) \<Rightarrow>
          (case scan (buf s1) of
             (k, ok, bits) \<Rightarrow>
               let rest = drop k (buf s1);
                   s2 = s1\<lparr>buf := rest, eofbit := (rest = [])\<rparr>
               in (Some bits, if ok then s2 else s2\<lparr>failbit := True\<rparr>)))"

definition Read_float :: "env \<Rightarrow> istream \<Rightarrow> bool \<times> nat option \<times> istream" where
  "Read_float E s = (let (v, s1) = IS_extract_real (scan_float E) s in (\<not> failbit s1, v, s1))"

definition Read_double :: "env \<Rightarrow> istream \<Rightarrow> bool \<times> nat option \<times> istream" where
  "Read_double E s = (let (v, s1) = IS_extract_real (scan_double E) s in (\<not> failbit s1, v, s1))"

text \<open>
  The size in bytes of an element of a numeric array in a binary file, and the range of
  an integer element; \<^verbatim>\<open>vtkIdType\<close> values are written as \<^verbatim>\<open>int\<close>.
\<close>

definition elem_size :: "env \<Rightarrow> array_class \<Rightarrow> nat" where
  "elem_size E c =
     (case c of
        vtkCharArray \<Rightarrow> 1 | vtkUnsignedCharArray \<Rightarrow> 1
      | vtkShortArray \<Rightarrow> 2 | vtkUnsignedShortArray \<Rightarrow> 2
      | vtkIdTypeArray \<Rightarrow> 4 | vtkIntArray \<Rightarrow> 4 | vtkUnsignedIntArray \<Rightarrow> 4
      | vtkLongArray \<Rightarrow> SIZEOF_LONG E | vtkUnsignedLongArray \<Rightarrow> SIZEOF_LONG E
      | vtkTypeInt64Array \<Rightarrow> 8 | vtkTypeUInt64Array \<Rightarrow> 8
      | vtkFloatArray \<Rightarrow> 4 | vtkDoubleArray \<Rightarrow> 8
      | _ \<Rightarrow> 0)"

definition is_signed_class :: "array_class \<Rightarrow> bool" where
  "is_signed_class c =
     (c \<in> set [vtkShortArray, vtkIdTypeArray, vtkIntArray, vtkLongArray, vtkTypeInt64Array])"

text \<open>The bit pattern of an integer in \<open>w\<close> bytes (two's complement).\<close>

definition pattern :: "nat \<Rightarrow> int \<Rightarrow> nat" where
  "pattern w v = nat (v mod 2 ^ (8 * w))"

text \<open>\<^verbatim>\<open>self->Read(data++)\<close> for the element type of a numeric array.\<close>

definition Read_elem :: "env \<Rightarrow> array_class \<Rightarrow> istream \<Rightarrow> bool \<times> nat option \<times> istream" where
  "Read_elem E c s =
     (if c = vtkCharArray \<or> c = vtkUnsignedCharArray then
        (case Read_char s of (ok, v, s1) \<Rightarrow> (ok, map_option nat v, s1))
      else if c = vtkFloatArray then Read_float E s
      else if c = vtkDoubleArray then Read_double E s
      else
        let w = elem_size E c;
            lo = (if is_signed_class c then - (2 ^ (8 * w - 1)) else 0);
            hi = (if is_signed_class c then 2 ^ (8 * w - 1) - 1 else 2 ^ (8 * w) - 1)
        in (case Read_integer lo hi s of (ok, v, s1) \<Rightarrow> (ok, map_option (pattern w) v, s1)))"

text \<open>
  The branch of ReadArray for a numeric class other than bits and ids: the array with
  \<^verbatim>\<open>numTuples * numComp\<close> values and the stream. The return values of
  \<^verbatim>\<open>vtkReadBinaryData\<close> and \<^verbatim>\<open>vtkReadASCIIData\<close> are not looked at.
\<close>

definition read_numeric ::
  "env \<Rightarrow> file_type \<Rightarrow> array_class \<Rightarrow> int \<Rightarrow> int \<Rightarrow> istream \<Rightarrow> vtk_array \<times> istream" where
  "read_numeric E ft c numTuples numComp s =
     (let n = nat (numTuples * numComp);
          array = SetNumberOfComponents numComp (New c)
      in if ft = VTK_BINARY then
           (case vtkReadBinaryData (elem_size E c) numTuples numComp s of
              (ret, bytes, s1) \<Rightarrow> (array\<lparr>cells := fixed_cells (elem_size E c) n bytes\<rparr>, s1))
         else
           (case vtkReadASCIIData (Read_elem E c) n s of
              (cs, ret, s1) \<Rightarrow>
                (array\<lparr>cells := cs @ replicate (n - length cs) Indeterminate\<rparr>, s1)))"

text \<open>
  The branch for \<^verbatim>\<open>vtkidtype\<close>: the values are read as \<^verbatim>\<open>int\<close> into a vector that
  starts filled with zeros, and widened to \<^verbatim>\<open>vtkIdType\<close>.
\<close>

definition widen_int :: "nat \<Rightarrow> nat" where
  "widen_int b = (if b < 2 ^ 31 then b else b + (2 ^ 64 - 2 ^ 32))"

definition cell_bits :: "cell \<Rightarrow> nat" where
  "cell_bits c = (case c of Bits b \<Rightarrow> b | _ \<Rightarrow> 0)"

definition read_idtype ::
  "env \<Rightarrow> file_type \<Rightarrow> int \<Rightarrow> int \<Rightarrow> istream \<Rightarrow> vtk_array \<times> istream" where
  "read_idtype E ft numTuples numComp s =
     (let n = nat (numTuples * numComp);
          array = SetNumberOfComponents numComp (New vtkIdTypeArray)
      in if ft = VTK_BINARY then
           (case vtkReadBinaryData 4 numTuples numComp s of
              (ret, bytes, s1) \<Rightarrow>
                (array\<lparr>cells :=
                    map (\<lambda>c. Bits (widen_int (cell_bits c)))
                      (fixed_cells 4 n (bytes @ replicate (4 * n - length bytes) NUL))\<rparr>, s1))
         else
           (case vtkReadASCIIData (Read_elem E vtkIntArray) n s of
              (cs, ret, s1) \<Rightarrow>
                (array\<lparr>cells :=
                    map (\<lambda>c. Bits (widen_int (cell_bits c)))
                      (cs @ replicate (n - length cs) (Bits 0))\<rparr>, s1)))"

subsection \<open>DecodeString\<close>

text \<open>
  \<^verbatim>\<open>sscanf(buffer, "%x", &ch)\<close> on the buffer \<^verbatim>\<open>"0x"\<close> followed by two characters
  and a terminator. With a hex digit first the value is that of the hex digits present.
  Otherwise no hex number follows the prefix, \<^verbatim>\<open>ch\<close> keeps whatever it held (it is not
  initialised), and the model has no value.
\<close>

definition sscanf_0x :: "char \<Rightarrow> char \<Rightarrow> nat option" where
  "sscanf_0x h1 h2 =
     (if is_xdigit h1
      then Some (if is_xdigit h2 then 16 * xdigit_val h1 + xdigit_val h2 else xdigit_val h1)
      else None)"

text \<open>\<^verbatim>\<open>name[i]\<close> for \<open>i\<close> up to the terminator.\<close>

definition c_at :: "string \<Rightarrow> nat \<Rightarrow> char" where
  "c_at name i = (if i < length name then name ! i else NUL)"

text \<open>
  The test \<^verbatim>\<open>cc <= (len - 3)\<close> on \<^verbatim>\<open>size_t\<close>: for \<open>len < 3\<close> the subtraction wraps
  around to a value above every index, so the test holds.
\<close>

definition percent_guard :: "nat \<Rightarrow> nat \<Rightarrow> bool" where
  "percent_guard cc len = (len < 3 \<or> cc \<le> len - 3)"

text \<open>
  The loop \<^verbatim>\<open>while (name[cc])\<close> of DecodeString; \<open>str\<close> is the output stream. Reading
  \<^verbatim>\<open>name[cc]\<close> or \<^verbatim>\<open>name[cc + 2]\<close> behind the terminator has no defined result.
\<close>

function DecodeString_loop :: "string \<Rightarrow> nat \<Rightarrow> string \<Rightarrow> string option" where
  "DecodeString_loop name cc str =
     (if length name < cc then None
      else if cc = length name then Some str
      else if name ! cc = CHR ''%'' then
        (if percent_guard cc (length name) then
           (if length name < cc + 2 then None
            else case sscanf_0x (c_at name (cc + 1)) (c_at name (cc + 2)) of
                   None \<Rightarrow> None
                 | Some ch \<Rightarrow> DecodeString_loop name (cc + 3) (str @ [char_of ch]))
         else DecodeString_loop name (cc + 1) str)
      else DecodeString_loop name (cc + 1) (str @ [name ! cc]))"
  by pat_completeness auto
termination
  by (relation "measure (\<lambda>(name, cc, str). Suc (length name) - cc)") auto

text \<open>
  \<^verbatim>\<open>strncpy(resname, src, n + 1); resname[n] = 0\<close>: the first \<open>n\<close> bytes of the
  destination. Copying stops at the first NUL of the source; the rest is filled with NUL.
\<close>

definition strncpy :: "string \<Rightarrow> nat \<Rightarrow> string" where
  "strncpy src n = take n (c_str src) @ replicate (n - length (c_str src)) NUL"

text \<open>
  \<^verbatim>\<open>DecodeString(resname, name)\<close>: the result is the \<^verbatim>\<open>reslen\<close> bytes written to
  \<^verbatim>\<open>resname\<close>; the returned \<^verbatim>\<open>reslen\<close> is their number. Both pointers are arrays at
  every call of the source, so the null test is not modelled.
\<close>

definition DecodeString :: "string \<Rightarrow> string option" where
  "DecodeString name =
     (case DecodeString_loop (c_str name) 0 [] of
        None \<Rightarrow> None
      | Some str \<Rightarrow> Some (strncpy str (length str)))"

subsection \<open>Strings, bits and variants\<close>

text \<open>
  The branch for \<^verbatim>\<open>bit\<close>. In a binary file the packed bytes are read behind one line;
  value \<open>i\<close> is bit \<open>7 - i mod 8\<close> of byte \<open>i div 8\<close>. In an ASCII file each value is read
  as a \<^verbatim>\<open>vtkIdType\<close> and passed to \<^verbatim>\<open>SetValue\<close> as an \<^verbatim>\<open>int\<close>. \<open>None\<close> for the
  array is the null pointer.
\<close>

definition bit_cells :: "nat \<Rightarrow> string \<Rightarrow> cell list" where
  "bit_cells n bytes =
     map (\<lambda>i. if i div 8 < length bytes
               then Bits ((of_char (bytes ! (i div 8)) div 2 ^ (7 - i mod 8)) mod 2)
               else Indeterminate) [0..<n]"

fun read_ascii_bits :: "nat \<Rightarrow> istream \<Rightarrow> cell list option \<times> istream" where
  "read_ascii_bits 0 s = (Some [], s)"
| "read_ascii_bits (Suc n) s =
     (case Read_vtkIdType s of
        (False, b, s1) \<Rightarrow> (None, s1)
      | (True, b, s1) \<Rightarrow>
          (case read_ascii_bits n s1 of
             (None, s2) \<Rightarrow> (None, s2)
           | (Some cs, s2) \<Rightarrow>
               (Some ((case b of None \<Rightarrow> Indeterminate
                              | Some v \<Rightarrow> Bits (if v mod 2 ^ 32 = 0 then 0 else 1)) # cs), s2)))"

definition read_bits ::
  "file_type \<Rightarrow> int \<Rightarrow> int \<Rightarrow> istream \<Rightarrow> vtk_array option \<times> istream" where
  "read_bits ft numTuples numComp s =
     (let n = nat (numTuples * numComp);
          array = SetNumberOfComponents numComp (New vtkBitArray)
      in if numTuples \<noteq> 0 \<and> numComp \<noteq> 0 then
           (if ft = VTK_BINARY then
              (let (line, s1) = IS_getline 256 s;
                   (bytes, s2) = IS_read ((n + 7) div 8) s1
               in if eofbit s2 then (None, s2)
                  else (Some (array\<lparr>cells := bit_cells n bytes\<rparr>), s2))
            else
              (case read_ascii_bits n s of
                 (None, s1) \<Rightarrow> (None, s1)
               | (Some cs, s1) \<Rightarrow> (Some (array\<lparr>cells := cs\<rparr>), s1)))
         else (Some array, s))"

text \<open>
  One value of a binary string array. The first byte is looked at with \<^verbatim>\<open>peek\<close> and
  its top two bits select the width of the length field, which starts at that same
  byte: 1, 2, 4 or 8 bytes in big-endian order, the top two bits shifted out for the
  first three widths. Then the string is read into a vector of that length that starts
  filled with NUL. A length field that is not read in full leaves the length
  indeterminate.
\<close>

definition byte_of :: "char option \<Rightarrow> nat" where
  "byte_of c = (case c of None \<Rightarrow> 255 | Some b \<Rightarrow> of_char b)"

definition read_length_field :: "nat \<Rightarrow> istream \<Rightarrow> nat option \<times> istream" where
  "read_length_field w s =
     (case IS_read w s of
        (bytes, s1) \<Rightarrow>
          if length bytes = w
          then (Some (((be_val bytes * 4) mod 2 ^ (8 * w)) div 4), s1)
          else (None, s1))"

definition read_binary_string :: "istream \<Rightarrow> (string \<times> istream) option" where
  "read_binary_string s =
     (case IS_peek s of
        (c, s0) \<Rightarrow>
          let firstByte = byte_of c;
              headerType = firstByte div 64;
              (stringLength, s1) =
                (if headerType = 3 then
                   (case IS_get s0 of (g, s') \<Rightarrow> (Some (((byte_of g * 4) mod 256) div 4), s'))
                 else if headerType = 2 then read_length_field 2 s0
                 else if headerType = 1 then read_length_field 4 s0
                 else
                   (case IS_read 8 s0 of
                      (bytes, s') \<Rightarrow> (if length bytes = 8 then Some (be_val bytes) else None, s')))
          in case stringLength of
               None \<Rightarrow> None
             | Some l \<Rightarrow>
                 (case IS_read l s1 of
                    (str, s2) \<Rightarrow> Some (str @ replicate (l - length str) NUL, s2)))"

fun read_binary_strings :: "nat \<Rightarrow> istream \<Rightarrow> (cell list \<times> istream) option" where
  "read_binary_strings 0 s = Some ([], s)"
| "read_binary_strings (Suc n) s =
     (case read_binary_string s of
        None \<Rightarrow> None
      | Some (str, s1) \<Rightarrow>
          (case read_binary_strings n s1 of
             None \<Rightarrow> None
           | Some (cs, s2) \<Rightarrow> Some (Str str # cs, s2)))"

text \<open>\<^verbatim>\<open>my_getline(in, out)\<close> with the delimiter \<^verbatim>\<open>'\n'\<close>: the string and the stream.\<close>

definition my_getline :: "istream \<Rightarrow> string \<times> istream" where
  "my_getline s =
     (if \<not> good s then ([], s\<lparr>failbit := True, gcount := 0\<rparr>)
      else
        let line = takeWhile (\<lambda>c. c \<noteq> newline) (buf s) in
        case drop (length line) (buf s) of
          [] \<Rightarrow> (line, s\<lparr>buf := [], eofbit := True, failbit := True, gcount := 0\<rparr>)
        | _ # rest \<Rightarrow> (line, s\<lparr>buf := rest, gcount := 1\<rparr>))"

fun read_ascii_strings :: "nat \<Rightarrow> istream \<Rightarrow> (cell list \<times> istream) option" where
  "read_ascii_strings 0 s = Some ([], s)"
| "read_ascii_strings (Suc n) s =
     (case my_getline s of
        (l, s1) \<Rightarrow>
          (case DecodeString l of
             None \<Rightarrow> None
           | Some decodedStr \<Rightarrow>
               (case read_ascii_strings n s1 of
                  None \<Rightarrow> None
                | Some (cs, s2) \<Rightarrow> Some (Str decodedStr # cs, s2))))"

definition read_strings ::
  "file_type \<Rightarrow> int \<Rightarrow> int \<Rightarrow> istream \<Rightarrow> (vtk_array \<times> istream) option" where
  "read_strings ft numTuples numComp s =
     (let n = nat (numTuples * numComp);
          array = SetNumberOfComponents numComp (New vtkStringArray)
      in if ft = VTK_BINARY then
           (case read_binary_strings n (snd (IS_getline 256 s)) of
              None \<Rightarrow> None
            | Some (cs, s1) \<Rightarrow> Some (array\<lparr>cells := cs\<rparr>, s1))
         else
           (case read_ascii_strings n (snd (my_getline s)) of
              None \<Rightarrow> None
            | Some (cs, s1) \<Rightarrow> Some (array\<lparr>cells := cs\<rparr>, s1)))"

text \<open>
  The branch for \<^verbatim>\<open>variant\<close>: a type code and a word per value. A type code that was
  never stored is indeterminate.
\<close>

fun read_variants :: "env \<Rightarrow> nat \<Rightarrow> istream \<Rightarrow> (cell list \<times> istream) option" where
  "read_variants E 0 s = Some ([], s)"
| "read_variants E (Suc n) s =
     (case IS_extract_int INT_MIN INT_MAX s of
        (None, s1) \<Rightarrow> None
      | (Some t, s1) \<Rightarrow>
          (case IS_extract_string [] s1 of
             (str, s2) \<Rightarrow>
               (case DecodeString str of
                  None \<Rightarrow> None
                | Some decodedStr \<Rightarrow>
                    (case read_variants E n s2 of
                       None \<Rightarrow> None
                     | Some (cs, s3) \<Rightarrow>
                         Some ((if t \<in> set (VariantTypes E) then Variant t decodedStr
                                else InvalidVariant) # cs, s3)))))"

text \<open>
  The first part of ReadArray, up to \<^verbatim>\<open>free(type)\<close>: the type name selects the branch,
  by the comparisons of the source in their order. The counts are \<^verbatim>\<open>vtkIdType\<close>
  values; the model covers counts that are not negative and whose product with the
  element size stays below \<open>2 ^ 63\<close>.
\<close>

definition ReadArray_values ::
  "env \<Rightarrow> file_type \<Rightarrow> string \<Rightarrow> int \<Rightarrow> int \<Rightarrow> istream \<Rightarrow> (vtk_array option \<times> istream) option"
where
  "ReadArray_values E ft dataType numTuples numComp s =
     (let type = LowerCase dataType 256;
          num = (\<lambda>c. case read_numeric E ft c numTuples numComp s of
                        (a, s1) \<Rightarrow> Some (Some a, s1))
      in if numTuples < 0 \<or> numComp < 0 \<or> 2 ^ 63 \<le> numTuples * numComp * 8 then None
         else if strncmp_eq type ''bit'' 3 then Some (read_bits ft numTuples numComp s)
         else if type = ''char'' \<or> type = ''signed_char'' then num vtkCharArray
         else if strncmp_eq type ''unsigned_char'' 13 then num vtkUnsignedCharArray
         else if strncmp_eq type ''short'' 5 then num vtkShortArray
         else if strncmp_eq type ''unsigned_short'' 14 then num vtkUnsignedShortArray
         else if strncmp_eq type ''vtkidtype'' 9 then
           (case read_idtype E ft numTuples numComp s of (a, s1) \<Rightarrow> Some (Some a, s1))
         else if strncmp_eq type ''int'' 3 then num vtkIntArray
         else if strncmp_eq type ''unsigned_int'' 12 then num vtkUnsignedIntArray
         else if strncmp_eq type ''long'' 4 then num vtkLongArray
         else if strncmp_eq type ''unsigned_long'' 13 then num vtkUnsignedLongArray
         else if strncmp_eq type ''vtktypeint64'' 12 then num vtkTypeInt64Array
         else if strncmp_eq type ''vtktypeuint64'' 13 then num vtkTypeUInt64Array
         else if strncmp_eq type ''float'' 5 then num vtkFloatArray
         else if strncmp_eq type ''double'' 6 then num vtkDoubleArray
         else if strncmp_eq type ''string'' 6 \<or> strncmp_eq type ''utf8_string'' 11 then
           (case read_strings ft numTuples numComp s of
              None \<Rightarrow> None
            | Some (a, s1) \<Rightarrow> Some (Some a, s1))
         else if strncmp_eq type ''variant'' 7 then
           (case read_variants E (nat (numTuples * numComp)) s of
              None \<Rightarrow> None
            | Some (cs, s1) \<Rightarrow>
                Some (Some ((SetNumberOfComponents numComp (New vtkVariantArray))\<lparr>cells := cs\<rparr>),
                      s1))
         else Some (None, s))"

text \<open>
  A binary string value as the specification words it: the first byte is read and gives
  the header code; the length is in its low six bits (code 3) or in the next 2, 4 or 8
  bytes (codes 2, 1, 0), big-endian, the top two bits masked off for 2 and 4 bytes; then
  that many bytes are the string.
\<close>

definition spec_read_binary_string :: "string \<Rightarrow> (string \<times> string) option" where
  "spec_read_binary_string b =
     (case b of
        [] \<Rightarrow> None
      | c # b1 \<Rightarrow>
          let h = of_char c div (64::nat);
              w = (if h = 3 then 0 else if h = 2 then 2 else if h = 1 then 4 else 8);
              l = (if h = 3 then of_char c mod 64
                   else if h = 2 then be_val (take 2 b1) mod 2 ^ 14
                   else if h = 1 then be_val (take 4 b1) mod 2 ^ 30
                   else be_val (take 8 b1))
          in if length b1 < w + l then None
             else Some (take l (drop w b1), drop (w + l) b1))"

text \<open>
  The length field as the source reads it: it begins with the first byte and is 1, 2, 4 or
  8 bytes wide by the header code; its value without the two header bits is the length.
\<close>

definition field_width :: "nat \<Rightarrow> nat" where
  "field_width h = (if h = 3 then 1 else if h = 2 then 2 else if h = 1 then 4 else 8)"

definition header_code :: "string \<Rightarrow> nat" where
  "header_code field = of_char (hd field) div 64"

definition field_length :: "string \<Rightarrow> nat" where
  "field_length field =
     (if header_code field = 0 then be_val field
      else be_val field mod 2 ^ (8 * length field - 2))"

subsection \<open>ReadInformation\<close>

text \<open>
  The loop \<^verbatim>\<open>do { if (!ReadLine(line)) return 0; } while (strlen(line) == 0)\<close>. On a
  stream whose fail bit is set without the end-of-file bit, ReadLine returns 1 with an
  empty line and reads nothing, so the loop does not end; the result is then \<open>None\<close>.
\<close>

partial_function (option) next_nonempty_line :: "istream \<Rightarrow> (string option \<times> istream) option"
where
  "next_nonempty_line s =
     (case ReadLine s of
        (None, s1) \<Rightarrow> Some (None, s1)
      | (Some line, s1) \<Rightarrow> if line = [] then next_nonempty_line s1 else Some (Some line, s1))"

declare next_nonempty_line.simps [code]

text \<open>The conversion \<^verbatim>\<open>%s\<close> of \<^verbatim>\<open>sscanf\<close>: white space, then a word.\<close>

definition sscanf_s :: "string \<Rightarrow> (string \<times> string) option" where
  "sscanf_s str =
     (let b = dropWhile isspace str;
          w = takeWhile (\<lambda>c. \<not> isspace c) b
      in if w = [] then None else Some (w, drop (length w) b))"

text \<open>
  \<^verbatim>\<open>sscanf(line, "NAME %s LOCATION %s", name, location)\<close>: the two words if both
  conversions are made.
\<close>

definition sscanf_NAME_LOCATION :: "string \<Rightarrow> (string \<times> string) option" where
  "sscanf_NAME_LOCATION line =
     (if take 4 line \<noteq> ''NAME'' then None
      else
        (case sscanf_s (drop 4 line) of
           None \<Rightarrow> None
         | Some (name, r1) \<Rightarrow>
             let r2 = dropWhile isspace r1 in
             if take 8 r2 \<noteq> ''LOCATION'' then None
             else (case sscanf_s (drop 8 r2) of
                     None \<Rightarrow> None
                   | Some (location, _) \<Rightarrow> Some (name, location))))"

text \<open>\<^verbatim>\<open>sscanf(line, "DATA %s", value)\<close>.\<close>

definition sscanf_DATA :: "string \<Rightarrow> string option" where
  "sscanf_DATA line =
     (if take 4 line \<noteq> ''DATA'' then None
      else map_option fst (sscanf_s (drop 4 line)))"

text \<open>
  \<^verbatim>\<open>sscanf(line, "information %d", &numKeys)\<close> on a line that begins with
  \<^verbatim>\<open>information\<close>: the number if the conversion is made. A number outside the range of
  \<^verbatim>\<open>int\<close> has no defined conversion.
\<close>

definition sscanf_information :: "string \<Rightarrow> int option option" where
  "sscanf_information line =
     (case sscanf_d (drop 11 line) of
        None \<Rightarrow> Some None
      | Some (numKeys, _) \<Rightarrow> if in_int_range numKeys then Some (Some numKeys) else None)"

text \<open>
  The test \<^verbatim>\<open>!ReadString(line) || strncmp("DATA", line, 4) != 0\<close> that opens a data
  block: whether the block is well formed so far.
\<close>

definition expect_DATA :: "istream \<Rightarrow> bool \<times> istream" where
  "expect_DATA s =
     (case ReadString s of
        (None, s1) \<Rightarrow> (False, s1)
      | (Some tok, s1) \<Rightarrow> (strncmp_eq ''DATA'' tok 4, s1))"

text \<open>
  A key with one number: the \<^verbatim>\<open>DATA\<close> token, the value read by \<open>rd\<close>, the rest of
  the line. A malformed block leaves the information unchanged.
\<close>

definition read_scalar_key ::
  "(istream \<Rightarrow> bool \<times> 'a option \<times> istream) \<Rightarrow> ('a \<Rightarrow> info_value) \<Rightarrow> information \<Rightarrow> info_key
     \<Rightarrow> istream \<Rightarrow> information \<times> istream" where
  "read_scalar_key rd mk info key s =
     (case expect_DATA s of
        (False, s1) \<Rightarrow> (info, s1)
      | (True, s1) \<Rightarrow>
          (case rd s1 of
             (True, Some v, s2) \<Rightarrow> (info_Set info key (mk v), snd (ReadLine s2))
           | (_, _, s2) \<Rightarrow> (info, s2)))"

text \<open>The loop that fills \<^verbatim>\<open>values\<close>; it breaks at the first value that cannot be read.\<close>

fun read_values ::
  "(istream \<Rightarrow> bool \<times> 'a option \<times> istream) \<Rightarrow> nat \<Rightarrow> istream \<Rightarrow> 'a list \<times> istream" where
  "read_values rd 0 s = ([], s)"
| "read_values rd (Suc n) s =
     (case rd s of
        (True, Some v, s1) \<Rightarrow> (case read_values rd n s1 of (vs, s2) \<Rightarrow> (v # vs, s2))
      | (_, _, s1) \<Rightarrow> ([], s1))"

text \<open>
  A key with a vector of numbers. A negative length is passed to \<^verbatim>\<open>reserve\<close>, which
  cannot serve it; the model has no result there.
\<close>

definition read_vector_key ::
  "(istream \<Rightarrow> bool \<times> 'a option \<times> istream) \<Rightarrow> ('a list \<Rightarrow> info_value) \<Rightarrow> information \<Rightarrow> info_key
     \<Rightarrow> istream \<Rightarrow> (information \<times> istream) option" where
  "read_vector_key rd mk info key s =
     (case expect_DATA s of
        (False, s1) \<Rightarrow> Some (info, s1)
      | (True, s1) \<Rightarrow>
          (case Read_int s1 of
             (True, Some len, s2) \<Rightarrow>
               if len = 0 then Some (info_Set info key (mk []), s2)
               else if len < 0 then None
               else
                 (case read_values rd (nat len) s2 of
                    (vs, s3) \<Rightarrow>
                      Some (if length vs = nat len then info_Set info key (mk vs) else info,
                            snd (ReadLine s3)))
           | (_, _, s2) \<Rightarrow> Some (info, s2)))"

text \<open>A string key: one line \<^verbatim>\<open>DATA <encoded string>\<close>.\<close>

definition read_string_key ::
  "information \<Rightarrow> info_key \<Rightarrow> istream \<Rightarrow> (information \<times> istream) option" where
  "read_string_key info key s =
     (case ReadLine s of
        (None, s1) \<Rightarrow> Some (info, s1)
      | (Some line, s1) \<Rightarrow>
          (case sscanf_DATA line of
             None \<Rightarrow> Some (info, s1)
           | Some v \<Rightarrow>
               (case DecodeString v of
                  None \<Rightarrow> None
                | Some decoded \<Rightarrow> Some (info_Set info key (StringValue (c_str decoded)), s1))))"

text \<open>
  A string vector key. The loop reads \<^verbatim>\<open>length\<close> lines, decodes each and appends it
  under the key; the result carries \<^verbatim>\<open>success\<close>. The value is removed when a line
  could not be read.
\<close>

fun append_lines ::
  "info_key \<Rightarrow> nat \<Rightarrow> information \<Rightarrow> istream \<Rightarrow> (bool \<times> information \<times> istream) option" where
  "append_lines key 0 info s = Some (True, info, s)"
| "append_lines key (Suc n) info s =
     (case ReadLine s of
        (None, s1) \<Rightarrow> Some (False, info, s1)
      | (Some v, s1) \<Rightarrow>
          (case DecodeString v of
             None \<Rightarrow> None
           | Some decoded \<Rightarrow> append_lines key n (info_Append info key (c_str decoded)) s1))"

definition read_string_vector_key ::
  "information \<Rightarrow> info_key \<Rightarrow> istream \<Rightarrow> (information \<times> istream) option" where
  "read_string_vector_key info key s =
     (case expect_DATA s of
        (False, s1) \<Rightarrow> Some (info, s1)
      | (True, s1) \<Rightarrow>
          (case Read_int s1 of
             (True, Some len, s2) \<Rightarrow>
               let s3 = snd (ReadLine s2) in
               if len = 0 then Some (info_Set info key (StringVector []), s3)
               else
                 (case append_lines key (nat len) info s3 of
                    None \<Rightarrow> None
                  | Some (success, info', s4) \<Rightarrow>
                      Some (if success then info' else info_Remove info' key, s4))
           | (_, _, s2) \<Rightarrow> Some (info, s2)))"

text \<open>
  The body of the key loop behind the first non-empty line: a line that does not begin
  with \<^verbatim>\<open>NAME \<close>, that does not parse, or whose key is not registered, is passed over.
\<close>

definition ReadInformation_key ::
  "env \<Rightarrow> string \<Rightarrow> information \<Rightarrow> istream \<Rightarrow> (information \<times> istream) option" where
  "ReadInformation_key E line info s =
     (if \<not> strncmp_eq ''NAME '' line 5 then Some (info, s)
      else
        (case sscanf_NAME_LOCATION line of
           None \<Rightarrow> Some (info, s)
         | Some (name, location) \<Rightarrow>
             (case FindKey E name location of
                None \<Rightarrow> Some (info, s)
              | Some key \<Rightarrow>
                  (case key_class key of
                     DoubleKey \<Rightarrow> Some (read_scalar_key (Read_double E) DoubleValue info key s)
                   | DoubleVectorKey \<Rightarrow> read_vector_key (Read_double E) DoubleVector info key s
                   | IdTypeKey \<Rightarrow> Some (read_scalar_key Read_vtkIdType IdTypeValue info key s)
                   | IntegerKey \<Rightarrow> Some (read_scalar_key Read_int IntegerValue info key s)
                   | IntegerVectorKey \<Rightarrow> read_vector_key Read_int IntegerVector info key s
                   | StringKey \<Rightarrow> read_string_key info key s
                   | StringVectorKey \<Rightarrow> read_string_vector_key info key s
                   | UnsignedLongKey \<Rightarrow>
                       Some (read_scalar_key (Read_integer 0 (2 ^ (8 * SIZEOF_LONG E) - 1))
                               UnsignedLongValue info key s)
                   | OtherKey \<Rightarrow> Some (info, s)))))"

fun ReadInformation_keys ::
  "env \<Rightarrow> nat \<Rightarrow> information \<Rightarrow> istream \<Rightarrow> (int \<times> information \<times> istream) option" where
  "ReadInformation_keys E 0 info s = Some (1, info, s)"
| "ReadInformation_keys E (Suc n) info s =
     (case next_nonempty_line s of
        None \<Rightarrow> None
      | Some (None, s1) \<Rightarrow> Some (0, info, s1)
      | Some (Some line, s1) \<Rightarrow>
          (case ReadInformation_key E line info s1 of
             None \<Rightarrow> None
           | Some (info', s2) \<Rightarrow> ReadInformation_keys E n info' s2))"

definition ReadInformation ::
  "env \<Rightarrow> information \<Rightarrow> int \<Rightarrow> istream \<Rightarrow> (int \<times> information \<times> istream) option" where
  "ReadInformation E info numKeys s = ReadInformation_keys E (nat numKeys) info s"

text \<open>
  For the statement about string vectors: the lines that \<open>n\<close> calls of ReadLine give,
  and whether all \<open>n\<close> calls gave one; the string that a line decodes to; and the
  strings already stored under a key.
\<close>

fun read_lines :: "nat \<Rightarrow> istream \<Rightarrow> string list \<times> bool \<times> istream" where
  "read_lines 0 s = ([], True, s)"
| "read_lines (Suc n) s =
     (case ReadLine s of
        (None, s1) \<Rightarrow> ([], False, s1)
      | (Some l, s1) \<Rightarrow> (case read_lines n s1 of (ls, ok, s2) \<Rightarrow> (l # ls, ok, s2)))"

definition decoded_line :: "string \<Rightarrow> string" where
  "decoded_line l = (case DecodeString l of None \<Rightarrow> [] | Some d \<Rightarrow> c_str d)"

definition strings_under :: "information \<Rightarrow> info_key \<Rightarrow> string list" where
  "strings_under info key =
     (case info_Get info key of Some (StringVector strs) \<Rightarrow> strs | _ \<Rightarrow> [])"

subsection \<open>ReadArray\<close>

text \<open>
  The scan of the peeked bytes in the loop that pops blank lines: blanks and carriage
  returns are passed over up to a newline or another character.
\<close>

datatype scan = AllBlank | FoundNewline | FoundData

fun scan_peek :: "string \<Rightarrow> scan" where
  "scan_peek [] = AllBlank"
| "scan_peek (c # cs) =
     (if c = CHR '' '' \<or> c = CHR 0x0D then scan_peek cs
      else if c = newline then FoundNewline
      else FoundData)"

text \<open>
  The \<^verbatim>\<open>do ... while\<close> loop behind the values, from the bytes \<open>line\<close> that were peeked.
  The result says whether the function goes on to look for metadata (otherwise it
  returns the array at once). When all of 256 peeked bytes are blank the loop scans the
  same bytes again and does not end.
\<close>

partial_function (option) pop_blank_lines :: "string \<Rightarrow> istream \<Rightarrow> (bool \<times> istream) option"
where
  "pop_blank_lines line s =
     (case scan_peek line of
        FoundData \<Rightarrow> Some (True, s)
      | FoundNewline \<Rightarrow>
          (case ReadLine s of
             (None, s1) \<Rightarrow> Some (False, s1)
           | (Some l, s1) \<Rightarrow>
               (case Peek 256 s1 of
                  (line', s2) \<Rightarrow>
                    if length line' = 0 then Some (False, s2) else pop_blank_lines line' s2))
      | AllBlank \<Rightarrow> if length line = 256 then pop_blank_lines line s else Some (True, s))"

declare pop_blank_lines.simps [code]

text \<open>The lines behind \<^verbatim>\<open>COMPONENT_NAMES\<close>: one name for each component.\<close>

fun read_component_names ::
  "nat \<Rightarrow> nat \<Rightarrow> vtk_array \<Rightarrow> istream \<Rightarrow> (vtk_array \<times> istream) option" where
  "read_component_names i 0 a s = Some (a, s)"
| "read_component_names i (Suc n) a s =
     (case ReadLine s of
        (None, s1) \<Rightarrow> read_component_names (Suc i) n a s1
      | (Some line, s1) \<Rightarrow>
          (case DecodeString line of
             None \<Rightarrow> None
           | Some decoded \<Rightarrow> read_component_names (Suc i) n (SetComponentName i decoded a) s1))"

text \<open>The loop \<^verbatim>\<open>while (this->ReadLine(line))\<close> over the lines of the metadata block.\<close>

partial_function (option) read_metadata ::
  "env \<Rightarrow> int \<Rightarrow> vtk_array \<Rightarrow> istream \<Rightarrow> (vtk_array \<times> istream) option" where
  "read_metadata E numComp a s =
     (case ReadLine s of
        (None, s1) \<Rightarrow> Some (a, s1)
      | (Some l, s1) \<Rightarrow>
          if LowerCase l 256 = [] then Some (a, s1)
          else if strncmp_eq (LowerCase l 256) ''component_names'' 15 then
            (case read_component_names 0 (nat numComp) a s1 of
               None \<Rightarrow> None
             | Some (a', s2) \<Rightarrow> read_metadata E numComp a' s2)
          else if strncmp_eq (LowerCase l 256) ''information'' 11 then
            (case sscanf_information (LowerCase l 256) of
               None \<Rightarrow> None
             | Some None \<Rightarrow> read_metadata E numComp a s1
             | Some (Some numKeys) \<Rightarrow>
                 (case ReadInformation E (Information a) numKeys s1 of
                    None \<Rightarrow> None
                  | Some (ret, info', s2) \<Rightarrow>
                      read_metadata E numComp (a\<lparr>Information := info'\<rparr>) s2))
          else read_metadata E numComp a s1)"

declare read_metadata.simps [code]

text \<open>
  The second part of ReadArray, behind the values: blank lines are popped, and a line
  that begins with \<^verbatim>\<open>METADATA\<close> opens the metadata block of the array.
\<close>

definition ReadArray_tail ::
  "env \<Rightarrow> int \<Rightarrow> vtk_array \<Rightarrow> istream \<Rightarrow> (vtk_array \<times> istream) option" where
  "ReadArray_tail E numComp a s =
     (case Peek 256 s of
        (line, s1) \<Rightarrow>
          (case pop_blank_lines line s1 of
             None \<Rightarrow> None
           | Some (False, s2) \<Rightarrow> Some (a, s2)
           | Some (True, s2) \<Rightarrow>
               (case Peek 8 s2 of
                  (l8, s3) \<Rightarrow>
                    if length l8 < 8 then Some (a, s3)
                    else if \<not> strncmp_eq (LowerCase l8 8) ''metadata'' 8 then Some (a, s3)
                    else (case ReadLine s3 of
                            (None, s4) \<Rightarrow> Some (a, s4)
                          | (Some l, s4) \<Rightarrow> read_metadata E numComp a s4))))"

text \<open>
  \<^verbatim>\<open>ReadArray\<close>: the array (\<open>None\<close> is the null pointer) and the reader, whose stream
  has moved. Of the messages of the reader only those of ReadHeader are recorded.
\<close>

definition ReadArray ::
  "env \<Rightarrow> reader \<Rightarrow> string \<Rightarrow> int \<Rightarrow> int \<Rightarrow> (vtk_array option \<times> reader) option" where
  "ReadArray E r dataType numTuples numComp =
     (case ReadArray_values E (FileType r) dataType numTuples numComp (IS r) of
        None \<Rightarrow> None
      | Some (None, s1) \<Rightarrow> Some (None, r\<lparr>IS := s1\<rparr>)
      | Some (Some a, s1) \<Rightarrow>
          (case ReadArray_tail E numComp a s1 of
             None \<Rightarrow> None
           | Some (a', s2) \<Rightarrow> Some (Some a', r\<lparr>IS := s2\<rparr>)))"

text \<open>Two arrays with the same class, name, component count and values.\<close>

definition same_values :: "vtk_array \<Rightarrow> vtk_array \<Rightarrow> bool" where
  "same_values a a' =
     (a' = a\<lparr>ComponentNames := ComponentNames a', Information := Information a'\<rparr>)"

subsection \<open>Attribute sections\<close>

text \<open>
  Modelled from the spec: \<^verbatim>\<open>vtkDataSetAttributes\<close> is not part of the source. The
  container of a scope has the designated slot Scalars, filled by at most one array, and
  the extra arrays in the order in which they were added. Only the slot that the
  modelled sections fill is kept.
\<close>

record attributes =
  Scalars :: "vtk_array option"
  Arrays :: "vtk_array list"

definition SetScalars :: "vtk_array \<Rightarrow> attributes \<Rightarrow> attributes" where
  "SetScalars data a = a\<lparr>Scalars := Some data\<rparr>"

definition AddArray :: "vtk_array \<Rightarrow> attributes \<Rightarrow> attributes" where
  "AddArray data a = a\<lparr>Arrays := Arrays a @ [data]\<rparr>"

text \<open>
  \<^verbatim>\<open>vtkArrayDownCast<vtkDataArray>\<close>: the arrays of strings and of variants are no
  data arrays.
\<close>

definition is_data_array :: "vtk_array \<Rightarrow> bool" where
  "is_data_array a = (array_class a \<noteq> vtkStringArray \<and> array_class a \<noteq> vtkVariantArray)"

text \<open>\<^verbatim>\<open>atoi\<close>: a number outside the range of \<^verbatim>\<open>int\<close> has no defined result.\<close>

definition atoi :: "string \<Rightarrow> int option" where
  "atoi str =
     (case sscanf_d str of
        None \<Rightarrow> Some 0
      | Some (v, _) \<Rightarrow> if in_int_range v then Some v else None)"

text \<open>
  The test that decides where a scalar array goes: the Scalars slot is filled already, or
  a name is asked for and it is another one.
\<close>

definition skip_scalar :: "reader \<Rightarrow> attributes \<Rightarrow> string \<Rightarrow> bool" where
  "skip_scalar r a name =
     (Scalars a \<noteq> None \<or> (case ScalarsName r of None \<Rightarrow> False | Some f \<Rightarrow> name \<noteq> f))"

text \<open>
  The head of a SCALARS section behind the name and the type: an optional number of
  components and the keyword \<^verbatim>\<open>LOOKUP_TABLE\<close>. The result is the number of components
  and the stream, or the stream at which the function returns 0.
\<close>

definition scalar_components :: "istream \<Rightarrow> (istream + int \<times> istream) option" where
  "scalar_components s2 =
     (case ReadString s2 of
        (None, s3) \<Rightarrow> Some (Inl s3)
      | (Some key0, s3) \<Rightarrow>
          let key = LowerCase key0 256 in
          if key \<noteq> ''lookup_table'' then
            (case atoi key of
               None \<Rightarrow> None
             | Some numComp \<Rightarrow>
                 if numComp < 1 then Some (Inl s3)
                 else
                   (case ReadString s3 of
                      (None, s4) \<Rightarrow> Some (Inl s4)
                    | (Some key1, s4) \<Rightarrow>
                        if LowerCase key1 256 \<noteq> ''lookup_table'' then Some (Inl s4)
                        else Some (Inr (numComp, s4))))
          else Some (Inr (1, s3)))"

text \<open>
  \<^verbatim>\<open>ReadScalarData\<close>: the return value, the reader and the container. The error
  messages and the progress are left out.
\<close>

definition ReadScalarData ::
  "env \<Rightarrow> reader \<Rightarrow> attributes \<Rightarrow> int \<Rightarrow> (int \<times> reader \<times> attributes) option" where
  "ReadScalarData E r a numPts =
     (case ReadString (IS r) of
        (None, s1) \<Rightarrow> Some (0, r\<lparr>IS := s1\<rparr>, a)
      | (Some buffer, s1) \<Rightarrow>
          (case ReadString s1 of
             (None, s2) \<Rightarrow> Some (0, r\<lparr>IS := s2\<rparr>, a)
           | (Some line, s2) \<Rightarrow>
               (case DecodeString buffer of
                  None \<Rightarrow> None
                | Some name \<Rightarrow>
                    (case scalar_components s2 of
                       None \<Rightarrow> None
                     | Some (Inl s4) \<Rightarrow> Some (0, r\<lparr>IS := s4\<rparr>, a)
                     | Some (Inr (numComp, s4)) \<Rightarrow>
                         (case ReadString s4 of
                            (None, s5) \<Rightarrow> Some (0, r\<lparr>IS := s5\<rparr>, a)
                          | (Some tableName, s5) \<Rightarrow>
                              let skipScalar = skip_scalar r a (c_str name);
                                  r1 = (if skipScalar then r\<lparr>IS := s5\<rparr>
                                        else r\<lparr>IS := s5, ScalarLut := Some tableName\<rparr>)
                              in
                                (case ReadArray E r1 line numPts numComp of
                                   None \<Rightarrow> None
                                 | Some (None, r2) \<Rightarrow> Some (0, r2, a)
                                 | Some (Some array, r2) \<Rightarrow>
                                     if \<not> is_data_array array then Some (0, r2, a)
                                     else
                                       let data = SetName name array in
                                       if \<not> skipScalar then Some (1, r2, SetScalars data a)
                                       else if ReadAllScalars r
                                       then Some (1, r2, AddArray data a)
                                       else Some (1, r2, a)))))))"

subsection \<open>Color scalars\<close>

text \<open>
  The value of a \<^verbatim>\<open>float\<close> with the given bit pattern, \<open>None\<close> for an infinity or a
  NaN.
\<close>

definition pow2 :: "int \<Rightarrow> real" where
  "pow2 e = (if 0 \<le> e then 2 ^ nat e else 1 / 2 ^ nat (- e))"

definition float_val :: "nat \<Rightarrow> real option" where
  "float_val b =
     (let sign = (b div 2 ^ 31) mod 2;
          e = (b div 2 ^ 23) mod 256;
          m = b mod 2 ^ 23;
          mag = (if e = 0 then real m * pow2 (- 149)
                 else real (2 ^ 23 + m) * pow2 (int e - 150))
      in if e = 255 then None else Some (if sign = 1 then - mag else mag))"

text \<open>
  \<^verbatim>\<open>(unsigned char)(255.0 * v + 0.5)\<close> for the value in a cell of a float array. The
  product and the sum are exact in \<^verbatim>\<open>double\<close> wherever the result lies between \<open>-1\<close>
  and \<open>256\<close>; the conversion truncates there and is undefined elsewhere. A value that
  was never written gives one that is indeterminate.
\<close>

definition quantize :: "cell \<Rightarrow> cell option" where
  "quantize c =
     (case c of
        Bits b \<Rightarrow>
          (case float_val b of
             None \<Rightarrow> None
           | Some v \<Rightarrow>
               let x = 255 * v + 1 / 2 in
               if - 1 < x \<and> x < 256 then Some (Bits (nat \<lfloor>x\<rfloor>)) else None)
      | _ \<Rightarrow> Some Indeterminate)"

text \<open>
  The array \<^verbatim>\<open>scalars\<close> that the ASCII branch builds from the float array: the
  component count and \<^verbatim>\<open>numPts\<close> tuples, filled by the two loops up to
  \<^verbatim>\<open>numPts * numComp\<close> values. The counters \<^verbatim>\<open>i\<close> and \<^verbatim>\<open>idx\<close> are of type
  \<^verbatim>\<open>int\<close>, so the loops have no defined result when they leave its range.
\<close>

definition color_scalars :: "string \<Rightarrow> int \<Rightarrow> int \<Rightarrow> vtk_array \<Rightarrow> vtk_array option" where
  "color_scalars name numPts numComp data =
     (let scalars = SetNumberOfComponents numComp (New vtkUnsignedCharArray);
          size = nat (numPts * NumberOfComponents scalars)
      in if INT_MAX < numPts \<or> (0 < numComp \<and> 0 < numPts \<and> INT_MAX < numPts * numComp - 1)
         then None
         else
           (case those (map quantize (cells data)) of
              None \<Rightarrow> None
            | Some qs \<Rightarrow>
                Some (SetName name
                        (scalars\<lparr>cells := take size qs
                                            @ replicate (size - length qs) Indeterminate\<rparr>))))"

text \<open>
  \<^verbatim>\<open>ReadCoScalarData\<close>: the return value, the reader and the container. The error
  messages and the progress are left out.
\<close>

definition ReadCoScalarData ::
  "env \<Rightarrow> reader \<Rightarrow> attributes \<Rightarrow> int \<Rightarrow> (int \<times> reader \<times> attributes) option" where
  "ReadCoScalarData E r a numPts =
     (case ReadString (IS r) of
        (None, s1) \<Rightarrow> Some (0, r\<lparr>IS := s1\<rparr>, a)
      | (Some buffer, s1) \<Rightarrow>
          (case Read_int s1 of
             (True, Some numComp, s2) \<Rightarrow>
               (case DecodeString buffer of
                  None \<Rightarrow> None
                | Some name \<Rightarrow>
                    let skipScalar = skip_scalar r a (c_str name) in
                    if FileType r = VTK_BINARY then
                      (case ReadArray E (r\<lparr>IS := s2\<rparr>) ''unsigned_char'' numPts numComp of
                         None \<Rightarrow> None
                       | Some (None, r2) \<Rightarrow> Some (0, r2, a)
                       | Some (Some array, r2) \<Rightarrow>
                           let data = SetName name array in
                           if \<not> skipScalar then Some (1, r2, SetScalars data a)
                           else if ReadAllColorScalars r then Some (1, r2, AddArray data a)
                           else Some (1, r2, a))
                    else
                      (case ReadArray E (r\<lparr>IS := s2\<rparr>) ''float'' numPts numComp of
                         None \<Rightarrow> None
                       | Some (None, r2) \<Rightarrow> Some (0, r2, a)
                       | Some (Some data, r2) \<Rightarrow>
                           if \<not> skipScalar \<or> ReadAllColorScalars r then
                             (case color_scalars name numPts numComp data of
                                None \<Rightarrow> None
                              | Some scalars \<Rightarrow>
                                  if \<not> skipScalar then Some (1, r2, SetScalars scalars a)
                                  else Some (1, r2, AddArray scalars a))
                           else Some (1, r2, a)))
           | (_, _, s2) \<Rightarrow> Some (0, r\<lparr>IS := s2\<rparr>, a)))"

subsection \<open>Ghost levels\<close>

text \<open>
  The scope of a field: \<^verbatim>\<open>ReadFieldData\<close> is called with \<^verbatim>\<open>POINT_DATA\<close>,
  \<^verbatim>\<open>CELL_DATA\<close>, or without an argument for the other scopes (\<^verbatim>\<open>FIELD_DATA\<close>).
\<close>

datatype FieldType = POINT_DATA | CELL_DATA | FIELD_DATA

text \<open>
  \<^verbatim>\<open>ConvertGhostLevelsToGhostType\<close>. The name is compared last, and only an array with
  a name can be compared. The loop counts the tuples with an \<^verbatim>\<open>int\<close>, which more than
  \<open>INT_MAX\<close> tuples overflow. A value that was never written stays as it is.
\<close>

definition convert_ghost :: "nat \<Rightarrow> cell \<Rightarrow> cell" where
  "convert_ghost newValue c = (case c of Bits b \<Rightarrow> if 0 < b then Bits newValue else Bits b | _ \<Rightarrow> c)"

definition ConvertGhostLevelsToGhostType ::
  "env \<Rightarrow> reader \<Rightarrow> FieldType \<Rightarrow> vtk_array \<Rightarrow> vtk_array option" where
  "ConvertGhostLevelsToGhostType E r fieldType data =
     (if FileMajorVersion r < 4 \<and> array_class data = vtkUnsignedCharArray
         \<and> NumberOfComponents data = 1 \<and> (fieldType = CELL_DATA \<or> fieldType = POINT_DATA)
      then
        (case Name data of
           None \<Rightarrow> None
         | Some name \<Rightarrow>
             if name = ''vtkGhostLevels'' then
               (let newValue = (if fieldType = CELL_DATA then DUPLICATECELL E
                                else DUPLICATEPOINT E)
                in if int (length (cells data)) \<le> INT_MAX
                   then Some (SetName (GhostArrayName E)
                                (data\<lparr>cells := map (convert_ghost newValue) (cells data)\<rparr>))
                   else None)
             else Some data)
      else Some data)"



text \<open>Two information blocks for the examples: one complete, one a line short.\<close>

definition example_key :: info_key where
  "example_key = InfoKey ''LABELS'' ''vtkExample'' StringVectorKey"

definition example_block :: istream where
  "example_block =
     open_stream (''DATA 2'' @ newline # ''first'' @ newline # ''sec%2Eond'' @ newline # ''rest'')"

definition example_short_block :: istream where
  "example_short_block =
     open_stream (''DATA 3'' @ newline # ''first'' @ newline # ''sec%2Eond'' @ [newline])"

subsection \<open>DecodeString against the specification\<close>

text \<open>
  The decoder as the specification words it: every \<^verbatim>\<open>%HH\<close> triplet with two hex
  digits becomes the byte of that value, every other byte passes through.
\<close>

fun spec_DecodeString :: "string \<Rightarrow> string" where
  "spec_DecodeString (c # h1 # h2 # rest) =
     (if c = CHR ''%'' \<and> is_xdigit h1 \<and> is_xdigit h2
      then char_of (16 * xdigit_val h1 + xdigit_val h2) # spec_DecodeString rest
      else c # spec_DecodeString (h1 # h2 # rest))"
| "spec_DecodeString (c # rest) = c # spec_DecodeString rest"
| "spec_DecodeString [] = []"

text \<open>
  Encoded names as the writer produces them: no NUL, and every \<^verbatim>\<open>%\<close> starts a triplet
  of two hex digits whose value is not zero.
\<close>

fun encoded_name :: "string \<Rightarrow> bool" where
  "encoded_name [] = True"
| "encoded_name (c # rest) =
     (if c = CHR ''%'' then
        (case rest of
           h1 # h2 # rest' \<Rightarrow>
             is_xdigit h1 \<and> is_xdigit h2 \<and> 0 < (16 * xdigit_val h1 + xdigit_val h2) mod 256
               \<and> encoded_name rest'
         | _ \<Rightarrow> False)
      else c \<noteq> NUL \<and> encoded_name rest)"

text \<open>
  Names in which a \<^verbatim>\<open>%\<close> may also stand with fewer than two bytes after it, and the
  decoder of the specification changed in one point: such a \<^verbatim>\<open>%\<close> is dropped.
\<close>

fun decodable_name :: "string \<Rightarrow> bool" where
  "decodable_name (c # h1 # h2 # rest) =
     (if c = CHR ''%''
      then is_xdigit h1 \<and> is_xdigit h2 \<and> 0 < (16 * xdigit_val h1 + xdigit_val h2) mod 256
             \<and> decodable_name rest
      else c \<noteq> NUL \<and> decodable_name (h1 # h2 # rest))"
| "decodable_name (c # rest) = (c \<noteq> NUL \<and> decodable_name rest)"
| "decodable_name [] = True"

fun spec_DecodeString_dropping :: "string \<Rightarrow> string" where
  "spec_DecodeString_dropping (c # h1 # h2 # rest) =
     (if c = CHR ''%''
      then char_of (16 * xdigit_val h1 + xdigit_val h2) # spec_DecodeString_dropping rest
      else c # spec_DecodeString_dropping (h1 # h2 # rest))"
| "spec_DecodeString_dropping (c # rest) =
     (if c = CHR ''%'' then spec_DecodeString_dropping rest
      else c # spec_DecodeString_dropping rest)"
| "spec_DecodeString_dropping [] = []"

subsection \<open>Field data\<close>

text \<open>
  The loop of \<^verbatim>\<open>ReadFieldData\<close> over the arrays that are left. The variables
  \<^verbatim>\<open>numComp\<close>, \<^verbatim>\<open>numTuples\<close> and \<^verbatim>\<open>type\<close> are declared outside the loop, and no
  return value of a read is looked at: a read that stores nothing leaves the value of the
  round before, which is indeterminate in the first round; \<^verbatim>\<open>buffer\<close> is declared
  inside the loop. Where an indeterminate value is used there is no defined result. The
  field container is the sequence of its arrays (modelled from the spec: the class
  \<^verbatim>\<open>vtkFieldData\<close> is not part of the source); the result \<open>None\<close> in place of the
  container is the null pointer.
\<close>

fun ReadFieldData_arrays ::
  "env \<Rightarrow> FieldType \<Rightarrow> bool \<Rightarrow> nat \<Rightarrow> int option \<Rightarrow> int option \<Rightarrow> string option \<Rightarrow> reader
   \<Rightarrow> vtk_array list \<Rightarrow> (vtk_array list option \<times> reader) option"
where
  "ReadFieldData_arrays E fieldType keep 0 numComp numTuples type r f = Some (Some f, r)"
| "ReadFieldData_arrays E fieldType keep (Suc n) numComp numTuples type r f =
     (case ReadString (IS r) of
        (None, s1) \<Rightarrow> None
      | (Some buffer, s1) \<Rightarrow>
          if buffer = ''NULL_ARRAY''
          then ReadFieldData_arrays E fieldType keep n numComp numTuples type (r\<lparr>IS := s1\<rparr>) f
          else
            (case DecodeString buffer of
               None \<Rightarrow> None
             | Some name \<Rightarrow>
                 (case Read_vtkIdType s1 of
                    (ok1, v1, s2) \<Rightarrow>
                 (case Read_vtkIdType s2 of
                    (ok2, v2, s3) \<Rightarrow>
                 (case ReadString s3 of
                    (v3, s4) \<Rightarrow>
                      let numComp1 = (case v1 of None \<Rightarrow> numComp | Some v \<Rightarrow> Some v);
                          numTuples1 = (case v2 of None \<Rightarrow> numTuples | Some v \<Rightarrow> Some v);
                          type1 = (case v3 of None \<Rightarrow> type | Some v \<Rightarrow> Some v)
                      in
                        (case (numComp1, numTuples1, type1) of
                           (Some nc, Some nt, Some ty) \<Rightarrow>
                             (case ReadArray E (r\<lparr>IS := s4\<rparr>) ty nt nc of
                                None \<Rightarrow> None
                              | Some (None, r1) \<Rightarrow> Some (None, r1)
                              | Some (Some data, r1) \<Rightarrow>
                                  if keep then
                                    (case ConvertGhostLevelsToGhostType E r1 fieldType
                                            (SetName name data) of
                                       None \<Rightarrow> None
                                     | Some data1 \<Rightarrow>
                                         ReadFieldData_arrays E fieldType keep n numComp1
                                           numTuples1 type1 r1 (f @ [data1]))
                                  else
                                    ReadFieldData_arrays E fieldType keep n numComp1
                                      numTuples1 type1 r1 f)
                         | _ \<Rightarrow> None))))))"

text \<open>
  \<^verbatim>\<open>ReadFieldData\<close>: the container or the null pointer, and the reader. The error
  messages are left out.
\<close>

definition ReadFieldData ::
  "env \<Rightarrow> reader \<Rightarrow> FieldType \<Rightarrow> (vtk_array list option \<times> reader) option" where
  "ReadFieldData E r fieldType =
     (case ReadString (IS r) of
        (None, s1) \<Rightarrow> Some (None, r\<lparr>IS := s1\<rparr>)
      | (Some name, s1) \<Rightarrow>
          (case Read_int s1 of
             (True, Some numArrays, s2) \<Rightarrow>
               let skipField = (case FieldDataName r of None \<Rightarrow> False | Some f \<Rightarrow> name \<noteq> f) in
               (case ReadFieldData_arrays E fieldType (\<not> skipField \<or> ReadAllFields r)
                       (nat numArrays) None None None (r\<lparr>IS := s2\<rparr>) [] of
                  None \<Rightarrow> None
                | Some (None, r1) \<Rightarrow> Some (None, r1)
                | Some (Some f, r1) \<Rightarrow>
                    if skipField \<and> \<not> ReadAllFields r then Some (None, r1)
                    else Some (Some f, r1))
           | (_, _, s2) \<Rightarrow> Some (None, r\<lparr>IS := s2\<rparr>)))"

text \<open>
  The branch for the keyword \<^verbatim>\<open>field\<close> in the keyword loops of \<^verbatim>\<open>ReadCellData\<close>
  and \<^verbatim>\<open>ReadPointData\<close>, which differ in the field type: \<open>False\<close> when the function
  returns 0 there, \<open>True\<close> when the loop goes on to the next keyword, with the arrays of
  the field added to the container.
\<close>

definition field_keyword ::
  "env \<Rightarrow> FieldType \<Rightarrow> reader \<Rightarrow> attributes \<Rightarrow> (bool \<times> reader \<times> attributes) option" where
  "field_keyword E fieldType r a =
     (case ReadFieldData E r fieldType of
        None \<Rightarrow> None
      | Some (None, r1) \<Rightarrow> Some (False, r1, a)
      | Some (Some f, r1) \<Rightarrow> Some (True, r1, foldl (\<lambda>a data. AddArray data a) a f))"

subsection \<open>Example sections\<close>

text \<open>
  An empty attribute container, a SCALARS section of two tuples of two \<^verbatim>\<open>int\<close>
  components named \<^verbatim>\<open>my name\<close>, a COLOR_SCALARS section of one tuple of two
  components for an ASCII file and one of two tuples of two components for a binary
  file, each behind its keyword.
\<close>

definition no_attributes :: attributes where
  "no_attributes = \<lparr>Scalars = None, Arrays = []\<rparr>"

definition example_scalars :: string where
  "example_scalars = '' my%20name int 2'' @ newline # ''LOOKUP_TABLE default'' @ newline
                       # ''1 2 3 4'' @ newline # ''VECTORS''"

definition example_color_scalars :: string where
  "example_color_scalars = '' col 2'' @ newline # ''0.5 1'' @ newline # ''VECTORS''"

definition example_binary_color_scalars :: string where
  "example_binary_color_scalars = '' col 2'' @ newline # ''abcd'' @ newline # ''VECTORS''"

text \<open>
  A FIELD section named \<^verbatim>\<open>other\<close> with one array, followed by a SCALARS section, and
  a reader that asks for the field \<^verbatim>\<open>wanted\<close>.
\<close>

definition example_field :: string where
  "example_field = '' other 1'' @ newline # ''temps 1 1 int'' @ newline # ''5'' @ newline
                     # ''SCALARS s int'' @ newline # ''LOOKUP_TABLE default'' @ newline
                     # ''7'' @ [newline]"

definition example_field_reader :: reader where
  "example_field_reader = (new_reader example_field)\<lparr>FieldDataName := Some ''wanted''\<rparr>"

section \<open>Verified properties\<close>

subsection \<open>ReadHeader\<close>

lemma takeWhile_line: "newline \<notin> set l \<Longrightarrow> takeWhile (\<lambda>c. c \<noteq> newline) (l @ newline # rest) = l"
  by (induction l) auto

lemma ReadLine_line:
  assumes "newline \<notin> set l" and "length l < 255" and "good s" and "buf s = l @ newline # rest"
  shows "ReadLine s = (Some (strip_cr (c_str l)), s\<lparr>buf := rest, gcount := Suc (length l)\<rparr>)"
  using assms
  by (simp add: ReadLine_def IS_getline_def takeWhile_line good_def Let_def)

lemma dropWhile_token:
  "tok \<noteq> [] \<Longrightarrow> \<forall>x\<in>set tok. \<not> isspace x \<Longrightarrow> dropWhile isspace (tok @ r) = tok @ r"
  by (cases tok) auto

lemma takeWhile_token:
  "\<forall>x\<in>set tok. \<not> isspace x \<Longrightarrow> isspace c \<Longrightarrow>
     takeWhile (\<lambda>c. \<not> isspace c) (tok @ c # r) = tok"
  by (induction tok) auto

lemma ReadString_token:
  assumes "good s" and "buf s = tok @ c # rest" and "tok \<noteq> []"
    and "\<forall>x\<in>set tok. \<not> isspace x" and "isspace c" and "length tok \<le> 255"
  shows "ReadString s = (Some (c_str tok), s\<lparr>buf := c # rest, eofbit := False\<rparr>)"
  using assms
  by (simp add: ReadString_def IS_extract_cstr_def sentry_skipws_def good_def Let_def
        dropWhile_token takeWhile_token)


lemma strip_cr_magic:
  "take 22 (strip_cr l) = ''# vtk DataFile Version'' \<longleftrightarrow> take 22 l = ''# vtk DataFile Version''"
proof (cases "l \<noteq> [] \<and> last l = CHR 0x0D")
  case False
  then show ?thesis by (auto simp: strip_cr_def)
next
  case True
  then have s: "strip_cr l = butlast l" by (simp add: strip_cr_def)
  show ?thesis
  proof (cases "22 < length l")
    case True
    then have "take 22 (butlast l) = take 22 l" by (simp add: take_butlast)
    with s show ?thesis by simp
  next
    case False
    then have le: "length l \<le> 22" by simp
    have a: "take 22 (butlast l) \<noteq> ''# vtk DataFile Version''"
    proof
      assume "take 22 (butlast l) = ''# vtk DataFile Version''"
      then have "length (take 22 (butlast l)) = 22" by simp
      with le True show False by simp
    qed
    have b: "take 22 l \<noteq> ''# vtk DataFile Version''"
    proof
      assume "take 22 l = ''# vtk DataFile Version''"
      with le have "l = ''# vtk DataFile Version''" by simp
      with True show False by simp
    qed
    from a b s show ?thesis by simp
  qed
qed

lemma LowerCase_short: "length t \<le> 256 \<Longrightarrow> LowerCase t 256 = map tolower t"
  by (simp add: LowerCase_def)

lemma begins_ci_strncmp:
  "n = length w \<Longrightarrow> strncmp_eq (map tolower t) w n = begins_ci t w"
  by (auto simp: strncmp_eq_def begins_ci_def take_map)


lemma ReadHeader_lines:
  assumes l1: "text_line l1" and l2: "text_line l2" and tk: "token tok"
    and st: "IS r = \<lparr>buf = header_input l1 l2 tok rest, eofbit = False, failbit = False,
                       gcount = g\<rparr>"
  shows "ReadLine (IS r) =
           (Some (strip_cr l1),
            \<lparr>buf = l2 @ newline # tok @ newline # rest, eofbit = False, failbit = False,
             gcount = Suc (length l1)\<rparr>)"
    and "ReadLine \<lparr>buf = l2 @ newline # tok @ newline # rest, eofbit = False, failbit = False,
                   gcount = Suc (length l1)\<rparr> =
           (Some (strip_cr l2),
            \<lparr>buf = tok @ newline # rest, eofbit = False, failbit = False,
             gcount = Suc (length l2)\<rparr>)"
    and "ReadString \<lparr>buf = tok @ newline # rest, eofbit = False, failbit = False,
                     gcount = Suc (length l2)\<rparr> =
           (Some tok,
            \<lparr>buf = newline # rest, eofbit = False, failbit = False, gcount = Suc (length l2)\<rparr>)"
proof -
  from l1 have a: "newline \<notin> set l1" "length l1 < 255" "c_str l1 = l1"
    by (auto simp: text_line_def c_str_def)
  from l2 have b: "newline \<notin> set l2" "length l2 < 255" "c_str l2 = l2"
    by (auto simp: text_line_def c_str_def)
  from tk have c: "tok \<noteq> []" "\<forall>x\<in>set tok. \<not> isspace x" "length tok \<le> 255" "c_str tok = tok"
    by (auto simp: token_def c_str_def)
  have nl: "isspace newline" by (simp add: isspace_def newline_def)
  show "ReadLine (IS r) =
           (Some (strip_cr l1),
            \<lparr>buf = l2 @ newline # tok @ newline # rest, eofbit = False, failbit = False,
             gcount = Suc (length l1)\<rparr>)"
    using ReadLine_line [OF a(1) a(2), of "IS r" "l2 @ newline # tok @ newline # rest"] st a(3)
    by (simp add: good_def header_input_def)
  show "ReadLine \<lparr>buf = l2 @ newline # tok @ newline # rest, eofbit = False, failbit = False,
                   gcount = Suc (length l1)\<rparr> =
           (Some (strip_cr l2),
            \<lparr>buf = tok @ newline # rest, eofbit = False, failbit = False,
             gcount = Suc (length l2)\<rparr>)"
    using ReadLine_line [OF b(1) b(2), of _ "tok @ newline # rest"] b(3)
    by (simp add: good_def)
  show "ReadString \<lparr>buf = tok @ newline # rest, eofbit = False, failbit = False,
                     gcount = Suc (length l2)\<rparr> =
           (Some tok,
            \<lparr>buf = newline # rest, eofbit = False, failbit = False, gcount = Suc (length l2)\<rparr>)"
    using ReadString_token [OF _ _ c(1) c(2) nl c(3), of _ rest] c(4)
    by (simp add: good_def)
qed


lemma strncmp_magic:
  "text_line l1 \<Longrightarrow>
     strncmp_eq ''# vtk DataFile Version'' (strip_cr l1) 22 = has_magic l1"
  using strip_cr_magic [of l1] by (auto simp: strncmp_eq_def has_magic_def)

lemma token_lower:
  assumes "token tok"
  shows "strncmp_eq (LowerCase tok 256) ''ascii'' 5 = begins_ci tok ''ascii''"
    and "strncmp_eq (LowerCase tok 256) ''binary'' 6 = begins_ci tok ''binary''"
proof -
  from assms have l: "LowerCase tok 256 = map tolower tok"
    by (simp add: LowerCase_short token_def)
  have "strncmp_eq (map tolower tok) ''ascii'' 5 = begins_ci tok ''ascii''"
    by (rule begins_ci_strncmp) simp
  with l show "strncmp_eq (LowerCase tok 256) ''ascii'' 5 = begins_ci tok ''ascii''" by simp
  have "strncmp_eq (map tolower tok) ''binary'' 6 = begins_ci tok ''binary''"
    by (rule begins_ci_strncmp) simp
  with l show "strncmp_eq (LowerCase tok 256) ''binary'' 6 = begins_ci tok ''binary''" by simp
qed

text \<open>
  Claim C3, amended. On a header of two text lines and an encoding token, ReadHeader
  fails with the unrecognized-file-type error exactly when the first line does not start
  with \<^verbatim>\<open># vtk DataFile Version\<close> or the token does not begin with \<^verbatim>\<open>ascii\<close> or
  \<^verbatim>\<open>binary\<close> (in any case of the letters). With the prefix present, a version that
  cannot be parsed gives a warning and the version 0.0, a version above the reader's own
  gives a warning, and in both cases ReadHeader returns 1 when the token begins with
  \<^verbatim>\<open>ascii\<close>, or with \<^verbatim>\<open>binary\<close> and the source is a string or a file that opens again.
\<close>

theorem ReadHeader_outcome:
  assumes l1: "text_line l1" and l2: "text_line l2" and tk: "token tok"
    and st: "IS r = \<lparr>buf = header_input l1 l2 tok rest, eofbit = False, failbit = False,
                       gcount = g\<rparr>"
    and vd: "has_magic l1 \<longrightarrow> version_defined l1"
  shows "\<exists>ret r'. ReadHeader E r = Some (ret, r')
      \<and> ((ret = 0 \<and> ErrorCode r' = UnrecognizedFileTypeError) \<longleftrightarrow>
           (\<not> has_magic l1 \<or> (\<not> begins_ci tok ''ascii'' \<and> \<not> begins_ci tok ''binary'')))
      \<and> (has_magic l1 \<and> \<not> version_parsed l1 \<longrightarrow>
           FileMajorVersion r' = 0 \<and> FileMinorVersion r' = 0
           \<and> Warning ''Cannot read file version: '' \<in> set (Log r'))
      \<and> (has_magic l1 \<and> version_newer E l1 \<longrightarrow>
           Warning ''Reading file version: '' \<in> set (Log r'))
      \<and> (has_magic l1
           \<and> (begins_ci tok ''ascii''
               \<or> begins_ci tok ''binary'' \<and> (ReadFromInputString r \<or> File r \<noteq> None)) \<longrightarrow>
           ret = 1)"
proof (cases "has_magic l1")
  case False
  with ReadHeader_lines(1) [OF l1 l2 tk st] strncmp_magic [OF l1]
  show ?thesis by (simp add: ReadHeader_def)
next
  case True
  with vd obtain n mj mn where v: "sscanf_version (drop 22 (strip_cr l1)) = Some (n, mj, mn)"
    and rg: "n = 2 \<longrightarrow> in_int_range (10 * mj) \<and> in_int_range (10 * mj + mn)"
    by (auto simp: version_defined_def version_of_def split: option.splits)
  have z: "in_int_range 0" by (simp add: in_int_range_def INT_MIN_def INT_MAX_def)
  note rd = ReadHeader_lines [OF l1 l2 tk st] strncmp_magic [OF l1] token_lower [OF tk]
  show ?thesis
  proof (cases "begins_ci tok ''ascii''")
    case a: True
    with True v rg z show ?thesis
      by (simp add: ReadHeader_def rd version_parsed_def version_newer_def version_of_def Let_def)
  next
    case a: False
    show ?thesis
    proof (cases "begins_ci tok ''binary''")
      case b: False
      with a True v rg z show ?thesis
        by (simp add: ReadHeader_def rd version_parsed_def version_newer_def version_of_def Let_def)
    next
      case b: True
      show ?thesis
      proof (cases "ReadFromInputString r")
        case True
        with a b \<open>has_magic l1\<close> v rg z show ?thesis
          by (simp add: ReadHeader_def rd version_parsed_def version_newer_def version_of_def Let_def)
      next
        case False
        with a b \<open>has_magic l1\<close> v rg z show ?thesis
          by (cases "File r")
             (simp_all add: ReadHeader_def rd version_parsed_def version_newer_def version_of_def
                Let_def reopen_binary_def)
      qed
    qed
  qed
qed

theorem ReadHeader_outcome_witness:
  "text_line ''# vtk DataFile Version 9.9'' \<and> text_line ''title'' \<and> token ''BINARY''
   \<and> has_magic ''# vtk DataFile Version 9.9''
   \<and> version_defined ''# vtk DataFile Version 9.9''
   \<and> version_newer vtk_env ''# vtk DataFile Version 9.9''
   \<and> begins_ci ''BINARY'' ''binary''
   \<and> (\<exists>r'. ReadHeader vtk_env
               (new_reader (header_input ''# vtk DataFile Version 9.9'' ''title'' ''BINARY''
                  ''DATASET POLYDATA'')) = Some (1, r')
             \<and> Warning ''Reading file version: '' \<in> set (Log r'))"
proof -
  let ?l1 = "''# vtk DataFile Version 9.9''"
  let ?r = "new_reader (header_input ?l1 ''title'' ''BINARY'' ''DATASET POLYDATA'')"
  have h1: "text_line ?l1" by code_simp
  have h2: "text_line ''title''" by code_simp
  have h3: "token ''BINARY''" by code_simp
  have h4: "has_magic ?l1" by code_simp
  have h5: "version_defined ?l1" by code_simp
  have h6: "version_newer vtk_env ?l1" by code_simp
  have h7: "begins_ci ''BINARY'' ''binary''" by code_simp
  have st: "IS ?r = \<lparr>buf = header_input ?l1 ''title'' ''BINARY'' ''DATASET POLYDATA'',
                      eofbit = False, failbit = False, gcount = 0\<rparr>"
    by (simp add: new_reader_def open_stream_def)
  have rs: "ReadFromInputString ?r" by (simp add: new_reader_def)
  from h5 have vd: "has_magic ?l1 \<longrightarrow> version_defined ?l1" by simp
  from ReadHeader_outcome [OF h1 h2 h3 st vd, of vtk_env] h4 h6 h7 rs
  have "\<exists>r'. ReadHeader vtk_env ?r = Some (1, r')
             \<and> Warning ''Reading file version: '' \<in> set (Log r')"
    by blast
  with h1 h2 h3 h4 h5 h6 h7 show ?thesis by blast
qed

text \<open>
  Claim C3 as stated fails: the token \<^verbatim>\<open>ASCIIX\<close> is neither ASCII nor BINARY, and
  ReadHeader takes it for ASCII and succeeds.
\<close>

theorem ReadHeader_token_prefix_counterexample:
  "map tolower ''ASCIIX'' \<noteq> ''ascii'' \<and> map tolower ''ASCIIX'' \<noteq> ''binary''
   \<and> map_option (\<lambda>(ret, r'). (ret, ErrorCode r', FileType r'))
        (ReadHeader vtk_env
           (new_reader (header_input ''# vtk DataFile Version 3.0'' ''title'' ''ASCIIX''
              ''DATASET POLYDATA'')))
      = Some (1, NoError, VTK_ASCII)"
  by code_simp

subsection \<open>Binary strings\<close>

lemma shift_mask:
  assumes "0 < w"
  shows "((x * 4) mod 2 ^ (8 * w)) div 4 = (x::nat) mod 2 ^ (8 * w - 2)"
proof -
  from assms have "8 * w = (8 * w - 2) + 2" by simp
  then have "(2::nat) ^ (8 * w) = 2 ^ (8 * w - 2) * 2 ^ 2" by (metis power_add)
  then have p: "(2::nat) ^ (8 * w) = 4 * 2 ^ (8 * w - 2)" by simp
  have "(x * 4) mod (4 * 2 ^ (8 * w - 2)) = 4 * (x mod 2 ^ (8 * w - 2))"
    by (simp add: mult.commute)
  with p show ?thesis by simp
qed

lemma IS_read_exact:
  assumes "good s" and "buf s = bytes @ rest"
  shows "IS_read (length bytes) s = (bytes, s\<lparr>buf := rest, gcount := length bytes\<rparr>)"
  using assms by (simp add: IS_read_def)

lemma be_val_single: "be_val [b] = of_char b"
  by (simp add: be_val_def)

text \<open>
  Claim C1, amended. One value of a binary string array begins with a length field whose
  first byte carries the header code H in its top two bits. The field is that byte alone
  for H = 3, and the 2, 4 or 8 bytes beginning with that byte for H = 2, 1, 0, in
  big-endian order; the length L is the value of the field without the two header bits.
  Then exactly L bytes are read verbatim as the string value, and the stream stands
  behind them.
\<close>

theorem read_binary_string_decodes:
  assumes g: "good s" and b: "buf s = field @ payload @ rest"
    and ne: "field \<noteq> []"
    and w: "length field = field_width (header_code field)"
    and l: "length payload = field_length field"
  shows "\<exists>s'. read_binary_string s = Some (payload, s') \<and> buf s' = rest \<and> good s'"
proof -
  from ne obtain c f where f: "field = c # f" by (cases field) auto
  let ?h = "of_char c div (64::nat)"
  have hc: "header_code field = ?h" by (simp add: header_code_def f)
  have "of_char c < (4 * 64 :: nat)" by simp
  then have h4: "?h < 4" by (rule less_mult_imp_div_less)
  from g b f have pk: "IS_peek s = (Some c, s\<lparr>gcount := 0\<rparr>)"
    by (simp add: IS_peek_def)
  let ?s0 = "s\<lparr>gcount := 0\<rparr>"
  from g have g0: "good ?s0" by (simp add: good_def)
  from b have b0: "buf ?s0 = field @ (payload @ rest)" by simp
  note rd = IS_read_exact [OF g0 b0]
  let ?s1 = "?s0\<lparr>buf := payload @ rest, gcount := length field\<rparr>"
  from g have g1: "good ?s1" by (simp add: good_def)
  have b1: "buf ?s1 = payload @ rest" by simp
  note rp = IS_read_exact [OF g1 b1]
  have fin: "good (?s1\<lparr>buf := rest, gcount := length payload\<rparr>)"
    using g by (simp add: good_def)
  consider (three) "?h = 3" | (two) "?h = 2" | (one) "?h = 1" | (zero) "?h = 0"
    using h4 by linarith
  then show ?thesis
  proof cases
    case three
    with w hc f have f1: "f = []" by (simp add: field_width_def)
    from g b f f1 have gt: "IS_get ?s0 = (Some c, ?s1)"
      by (simp add: IS_get_def good_def)
    have "((of_char c * 4) mod 256) div 4 = (of_char c :: nat) mod 2 ^ (8 * 1 - 2)"
      using shift_mask [of 1 "of_char c"] by simp
    with l hc three f f1 have ll: "((of_char c * 4) mod 256) div 4 = length payload"
      by (simp add: field_length_def be_val_single)
    from pk gt three ll rp fin show ?thesis
      by (simp add: read_binary_string_def byte_of_def Let_def)
  next
    case two
    with w hc have lf: "length field = 2" by (simp add: field_width_def)
    with rd have r2: "IS_read 2 ?s0 = (field, ?s1)" by simp
    from l hc two lf have ll: "((be_val field * 4) mod 2 ^ (8 * 2)) div 4 = length payload"
      using shift_mask [of 2 "be_val field"] by (simp add: field_length_def)
    from pk r2 two ll lf rp fin show ?thesis
      by (simp add: read_binary_string_def read_length_field_def byte_of_def Let_def)
  next
    case one
    with w hc have lf: "length field = 4" by (simp add: field_width_def)
    with rd have r2: "IS_read 4 ?s0 = (field, ?s1)" by simp
    from l hc one lf have ll: "((be_val field * 4) mod 2 ^ (8 * 4)) div 4 = length payload"
      using shift_mask [of 4 "be_val field"] by (simp add: field_length_def)
    from pk r2 one ll lf rp fin show ?thesis
      by (simp add: read_binary_string_def read_length_field_def byte_of_def Let_def)
  next
    case zero
    with w hc have lf: "length field = 8" by (simp add: field_width_def)
    with rd have r2: "IS_read 8 ?s0 = (field, ?s1)" by simp
    from l hc zero have ll: "be_val field = length payload"
      by (simp add: field_length_def)
    from pk r2 zero ll lf rp fin show ?thesis
      by (simp add: read_binary_string_def byte_of_def Let_def)
  qed
qed

text \<open>
  The payloads \<^verbatim>\<open>0xC3 'a' 'b' 'c'\<close> and \<^verbatim>\<open>0x80 0x04 'w' 'x' 'y' 'z'\<close> yield
  \<^verbatim>\<open>abc\<close> and \<^verbatim>\<open>wxyz\<close>.
\<close>

theorem read_binary_string_decodes_witness:
  "good (open_stream (CHR 0xC3 # ''abc''))
   \<and> length [CHR 0xC3] = field_width (header_code [CHR 0xC3])
   \<and> length ''abc'' = field_length [CHR 0xC3]
   \<and> (\<exists>s'. read_binary_string (open_stream (CHR 0xC3 # ''abc'')) = Some (''abc'', s')
             \<and> buf s' = [] \<and> good s')
   \<and> length [CHR 0x80, CHR 0x04] = field_width (header_code [CHR 0x80, CHR 0x04])
   \<and> length ''wxyz'' = field_length [CHR 0x80, CHR 0x04]
   \<and> (\<exists>s'. read_binary_string (open_stream (CHR 0x80 # CHR 0x04 # ''wxyz'')) = Some (''wxyz'', s')
             \<and> buf s' = [] \<and> good s')"
proof -
  let ?s = "open_stream (CHR 0xC3 # ''abc'')"
  let ?t = "open_stream (CHR 0x80 # CHR 0x04 # ''wxyz'')"
  have g1: "good ?s" by (simp add: good_def open_stream_def)
  have b1: "buf ?s = [CHR 0xC3] @ ''abc'' @ []" by (simp add: open_stream_def)
  have n1: "[CHR 0xC3] \<noteq> []" by simp
  have w1: "length [CHR 0xC3] = field_width (header_code [CHR 0xC3])"
    by (simp add: field_width_def header_code_def)
  have l1: "length ''abc'' = field_length [CHR 0xC3]"
    by (simp add: field_length_def header_code_def be_val_def)
  have g2: "good ?t" by (simp add: good_def open_stream_def)
  have b2: "buf ?t = [CHR 0x80, CHR 0x04] @ ''wxyz'' @ []" by (simp add: open_stream_def)
  have n2: "[CHR 0x80, CHR 0x04] \<noteq> []" by simp
  have w2: "length [CHR 0x80, CHR 0x04] = field_width (header_code [CHR 0x80, CHR 0x04])"
    by (simp add: field_width_def header_code_def)
  have l2: "length ''wxyz'' = field_length [CHR 0x80, CHR 0x04]"
    by (simp add: field_length_def header_code_def be_val_def)
  note r1 = read_binary_string_decodes [OF g1 b1 n1 w1 l1]
  note r2 = read_binary_string_decodes [OF g2 b2 n2 w2 l2]
  from g1 w1 l1 r1 w2 l2 r2 show ?thesis by blast
qed

text \<open>
  Claim C1 as stated fails on its own example: in \<^verbatim>\<open>0x80 0x00 0x04 'w' 'x' 'y' 'z'\<close> the
  two bytes of the length field are \<^verbatim>\<open>0x80 0x00\<close>, the length is 0 and the value is the
  empty string; the next value begins at \<^verbatim>\<open>0x04\<close>.
\<close>

theorem read_binary_string_example_counterexample:
  "spec_read_binary_string (CHR 0x80 # CHR 0x00 # CHR 0x04 # ''wxyz'') = Some (''wxyz'', [])
   \<and> map_option (\<lambda>(str, s'). (str, buf s'))
        (read_binary_string (open_stream (CHR 0x80 # CHR 0x00 # CHR 0x04 # ''wxyz'')))
      = Some ([], CHR 0x04 # ''wxyz'')"
  by (simp add: spec_read_binary_string_def read_binary_string_def IS_peek_def IS_read_def
        IS_get_def read_length_field_def be_val_def byte_of_def good_def open_stream_def Let_def)

subsection \<open>DecodeString\<close>

declare DecodeString_loop.simps [simp del]

lemma DecodeString_loop_end: "DecodeString_loop name (length name) str = Some str"
  by (subst DecodeString_loop.simps) simp

lemma DecodeString_loop_past: "length name < cc \<Longrightarrow> DecodeString_loop name cc str = None"
  by (subst DecodeString_loop.simps) simp

lemma DecodeString_loop_length:
  "DecodeString_loop name cc str = Some r \<Longrightarrow> cc \<le> length name \<Longrightarrow>
     length r \<le> length str + (length name - cc)"
proof (induction name cc str rule: DecodeString_loop.induct)
  case (1 name cc str)
  show ?case
  proof (cases "cc = length name")
    case True
    with "1.prems" show ?thesis by (simp add: DecodeString_loop_end)
  next
    case False
    with "1.prems" have lt: "cc < length name" by simp
    show ?thesis
    proof (cases "name ! cc = CHR ''%''")
      case pc: True
      show ?thesis
      proof (cases "percent_guard cc (length name)")
        case g: True
        from "1.prems"(1) lt pc g obtain ch where
          le: "cc + 2 \<le> length name" and
          sc: "sscanf_0x (c_at name (cc + 1)) (c_at name (cc + 2)) = Some ch" and
          rec: "DecodeString_loop name (cc + 3) (str @ [char_of ch]) = Some r"
          by (subst (asm) DecodeString_loop.simps) (auto split: if_splits option.splits)
        show ?thesis
        proof (cases "cc + 3 \<le> length name")
          case True
          from "1.IH"(1) [OF _ _ pc g _ sc rec True] lt le
          show ?thesis by simp
        next
          case False
          with rec show ?thesis by (simp add: DecodeString_loop_past)
        qed
      next
        case g: False
        from "1.prems"(1) lt pc g have rec: "DecodeString_loop name (cc + 1) str = Some r"
          by (subst (asm) DecodeString_loop.simps) (auto split: if_splits)
        from "1.IH"(2) [OF _ _ pc g rec] lt show ?thesis by simp
      qed
    next
      case pc: False
      from "1.prems"(1) lt pc have rec: "DecodeString_loop name (cc + 1) (str @ [name ! cc]) = Some r"
        by (subst (asm) DecodeString_loop.simps) (auto split: if_splits)
      from "1.IH"(3) [OF _ _ pc rec] lt show ?thesis by simp
    qed
  qed
qed

lemma length_strncpy: "length (strncpy str (length str)) = length str"
proof -
  have "length (c_str str) \<le> length str"
    unfolding c_str_def by (rule length_takeWhile_le)
  then show ?thesis by (simp add: strncpy_def)
qed

lemma length_c_str: "length (c_str name) \<le> length name"
  unfolding c_str_def by (rule length_takeWhile_le)

lemma DecodeString_length:
  assumes "DecodeString name = Some r"
  shows "length r \<le> length name"
proof -
  from assms obtain str where l: "DecodeString_loop (c_str name) 0 [] = Some str"
    and r: "r = strncpy str (length str)"
    by (auto simp: DecodeString_def split: option.splits)
  from DecodeString_loop_length [OF l] have "length str \<le> length (c_str name)" by simp
  with r length_c_str [of name] show ?thesis by (simp add: length_strncpy)
qed


lemma spec_DecodeString_plain:
  "c \<noteq> CHR ''%'' \<Longrightarrow> spec_DecodeString (c # rest) = c # spec_DecodeString rest"
  by (cases rest rule: spec_DecodeString.cases) auto

lemma DecodeString_loop_encoded:
  "encoded_name (drop cc name) \<Longrightarrow> cc \<le> length name \<Longrightarrow>
     DecodeString_loop name cc str = Some (str @ spec_DecodeString (drop cc name))"
proof (induction name cc str rule: DecodeString_loop.induct)
  case (1 name cc str)
  show ?case
  proof (cases "cc = length name")
    case True
    then show ?thesis by (simp add: DecodeString_loop_end)
  next
    case False
    with "1.prems" have lt: "cc < length name" by simp
    then have dr: "drop cc name = name ! cc # drop (Suc cc) name"
      by (simp add: Cons_nth_drop_Suc)
    show ?thesis
    proof (cases "name ! cc = CHR ''%''")
      case pc: True
      from "1.prems"(1) dr pc obtain h1 h2 rest' where
        d1: "drop (Suc cc) name = h1 # h2 # rest'" and
        x1: "is_xdigit h1" and x2: "is_xdigit h2" and
        enc: "encoded_name rest'"
        by (auto split: list.splits)
      from d1 have "length (drop (Suc cc) name) = Suc (Suc (length rest'))" by simp
      then have len: "cc + 3 \<le> length name" by simp
      have "drop (cc + 2) name = drop 1 (drop (Suc cc) name)" by simp
      with d1 have d2: "drop (cc + 2) name = h2 # rest'" by simp
      have "cc + 3 = 2 + Suc cc" by simp
      then have "drop (cc + 3) name = drop 2 (drop (Suc cc) name)" by (simp only: drop_drop)
      with d1 have d3: "drop (cc + 3) name = rest'" by simp
      from d1 len have c1: "c_at name (cc + 1) = h1"
        by (simp add: c_at_def nth_via_drop)
      from d2 len have c2: "c_at name (cc + 2) = h2"
        by (simp add: c_at_def nth_via_drop)
      let ?ch = "16 * xdigit_val h1 + xdigit_val h2"
      from x1 x2 c1 c2 have sc: "sscanf_0x (c_at name (cc + 1)) (c_at name (cc + 2)) = Some ?ch"
        by (simp add: sscanf_0x_def)
      from len have g: "percent_guard cc (length name)" by (simp add: percent_guard_def)
      from len have n1: "\<not> length name < cc" and n2: "\<not> length name < cc + 2" by simp_all
      from enc d3 have enc3: "encoded_name (drop (cc + 3) name)" by simp
      from "1.IH"(1) [OF n1 False pc g n2 sc enc3 len] d3
      have rec: "DecodeString_loop name (cc + 3) (str @ [char_of ?ch]) =
                 Some ((str @ [char_of ?ch]) @ spec_DecodeString rest')"
        by simp
      have "DecodeString_loop name cc str = DecodeString_loop name (cc + 3) (str @ [char_of ?ch])"
        using lt pc g n2 sc by (subst DecodeString_loop.simps) simp
      with rec dr pc d1 x1 x2 show ?thesis by simp
    next
      case pc: False
      from "1.prems"(1) dr pc have enc: "encoded_name (drop (cc + 1) name)" by simp
      from "1.IH"(3) [OF _ _ pc enc] lt False
      have rec: "DecodeString_loop name (cc + 1) (str @ [name ! cc]) =
                 Some ((str @ [name ! cc]) @ spec_DecodeString (drop (cc + 1) name))"
        by simp
      have "DecodeString_loop name cc str = DecodeString_loop name (cc + 1) (str @ [name ! cc])"
        using lt pc by (subst DecodeString_loop.simps) simp
      with rec dr pc show ?thesis by (simp add: spec_DecodeString_plain)
    qed
  qed
qed


lemma char_of_NUL_iff: "char_of (n::nat) = NUL \<longleftrightarrow> n mod 256 = 0"
proof -
  have "char_of n = NUL \<longleftrightarrow> of_char (char_of n :: char) = (of_char NUL :: nat)"
    by (metis of_char_eq_iff)
  also have "\<dots> \<longleftrightarrow> n mod 256 = 0" by (simp add: NUL_def)
  finally show ?thesis .
qed

lemma encoded_name_no_NUL: "encoded_name name \<Longrightarrow> NUL \<notin> set name"
proof (induction name rule: encoded_name.induct)
  case 1
  then show ?case by simp
next
  case (2 c rest)
  show ?case
  proof (cases "c = CHR ''%''")
    case True
    with "2.prems" obtain h1 h2 rest' where r: "rest = h1 # h2 # rest'"
      and x: "is_xdigit h1" "is_xdigit h2" and e: "encoded_name rest'"
      by (auto split: list.splits)
    from "2.IH"(1) [OF True r refl e] have "NUL \<notin> set rest'" .
    moreover from x have "h1 \<noteq> NUL" "h2 \<noteq> NUL" by (auto simp: is_xdigit_def NUL_def)
    ultimately show ?thesis using True r by (auto simp: NUL_def)
  next
    case False
    with "2.prems" "2.IH"(2) show ?thesis by auto
  qed
qed

lemma encoded_name_spec_no_NUL: "encoded_name name \<Longrightarrow> NUL \<notin> set (spec_DecodeString name)"
proof (induction name rule: encoded_name.induct)
  case 1
  then show ?case by simp
next
  case (2 c rest)
  show ?case
  proof (cases "c = CHR ''%''")
    case True
    with "2.prems" obtain h1 h2 rest' where r: "rest = h1 # h2 # rest'"
      and x: "is_xdigit h1" "is_xdigit h2"
      and nz: "0 < (16 * xdigit_val h1 + xdigit_val h2) mod 256" and e: "encoded_name rest'"
      by (auto split: list.splits)
    from "2.IH"(1) [OF True r refl e] have "NUL \<notin> set (spec_DecodeString rest')" .
    moreover from nz have "char_of (16 * xdigit_val h1 + xdigit_val h2) \<noteq> NUL"
      by (simp add: char_of_NUL_iff)
    ultimately show ?thesis using True r x by auto
  next
    case False
    with "2.prems" "2.IH"(2) show ?thesis by (auto simp: spec_DecodeString_plain)
  qed
qed

lemma c_str_id: "NUL \<notin> set s \<Longrightarrow> c_str s = s"
  by (auto simp: c_str_def)

lemma strncpy_id: "NUL \<notin> set s \<Longrightarrow> strncpy s (length s) = s"
  by (simp add: strncpy_def c_str_id)

lemma DecodeString_encoded:
  assumes "encoded_name name"
  shows "DecodeString name = Some (spec_DecodeString name)"
proof -
  from assms have n: "c_str name = name" by (simp add: c_str_id encoded_name_no_NUL)
  from DecodeString_loop_encoded [of 0 name "[]"] assms
  have "DecodeString_loop name 0 [] = Some (spec_DecodeString name)" by simp
  with n assms show ?thesis
    by (simp add: DecodeString_def strncpy_id encoded_name_spec_no_NUL)
qed


lemma decodable_name_plain:
  "c \<noteq> CHR ''%'' \<Longrightarrow> decodable_name (c # rest) = (c \<noteq> NUL \<and> decodable_name rest)"
  by (cases rest rule: spec_DecodeString.cases) auto

lemma spec_DecodeString_dropping_plain:
  "c \<noteq> CHR ''%'' \<Longrightarrow>
     spec_DecodeString_dropping (c # rest) = c # spec_DecodeString_dropping rest"
  by (cases rest rule: spec_DecodeString.cases) auto

lemma short_cases: "length xs < 2 \<Longrightarrow> xs = [] \<or> (\<exists>a. xs = [a])"
  by (cases xs; cases "tl xs") auto

lemma long_cases: "2 \<le> length xs \<Longrightarrow> \<exists>h1 h2 rest. xs = h1 # h2 # rest"
  by (cases xs; cases "tl xs") auto

lemma DecodeString_loop_decodable:
  "decodable_name (drop cc name) \<Longrightarrow> cc \<le> length name \<Longrightarrow> 3 \<le> length name \<Longrightarrow>
     DecodeString_loop name cc str = Some (str @ spec_DecodeString_dropping (drop cc name))"
proof (induction name cc str rule: DecodeString_loop.induct)
  case (1 name cc str)
  note len3 = \<open>3 \<le> length name\<close>
  show ?case
  proof (cases "cc = length name")
    case True
    then show ?thesis by (simp add: DecodeString_loop_end)
  next
    case False
    with "1.prems" have lt: "cc < length name" by simp
    then have dr: "drop cc name = name ! cc # drop (Suc cc) name"
      by (simp add: Cons_nth_drop_Suc)
    from lt have n1: "\<not> length name < cc" by simp
    show ?thesis
    proof (cases "name ! cc = CHR ''%''")
      case pc: True
      show ?thesis
      proof (cases "cc + 3 \<le> length name")
        case len: True
        then have "2 \<le> length (drop (Suc cc) name)" by simp
        then obtain h1 h2 rest' where d1: "drop (Suc cc) name = h1 # h2 # rest'"
          using long_cases by blast
        from "1.prems"(1) dr pc d1 have
          x1: "is_xdigit h1" and x2: "is_xdigit h2" and
          enc: "decodable_name rest'"
          by auto
        have "drop (cc + 2) name = drop 1 (drop (Suc cc) name)" by simp
        with d1 have d2: "drop (cc + 2) name = h2 # rest'" by simp
        have "cc + 3 = 2 + Suc cc" by simp
        then have "drop (cc + 3) name = drop 2 (drop (Suc cc) name)" by (simp only: drop_drop)
        with d1 have d3: "drop (cc + 3) name = rest'" by simp
        from d1 len have c1: "c_at name (cc + 1) = h1"
          by (simp add: c_at_def nth_via_drop)
        from d2 len have c2: "c_at name (cc + 2) = h2"
          by (simp add: c_at_def nth_via_drop)
        let ?ch = "16 * xdigit_val h1 + xdigit_val h2"
        from x1 x2 c1 c2 have sc: "sscanf_0x (c_at name (cc + 1)) (c_at name (cc + 2)) = Some ?ch"
          by (simp add: sscanf_0x_def)
        from len have g: "percent_guard cc (length name)" by (simp add: percent_guard_def)
        from len have n2: "\<not> length name < cc + 2" by simp
        from enc d3 have enc3: "decodable_name (drop (cc + 3) name)" by simp
        from "1.IH"(1) [OF n1 False pc g n2 sc enc3 len len3] d3
        have rec: "DecodeString_loop name (cc + 3) (str @ [char_of ?ch]) =
                   Some ((str @ [char_of ?ch]) @ spec_DecodeString_dropping rest')"
          by simp
        have "DecodeString_loop name cc str = DecodeString_loop name (cc + 3) (str @ [char_of ?ch])"
          using lt pc g n2 sc by (subst DecodeString_loop.simps) simp
        with rec dr pc d1 show ?thesis by simp
      next
        case short: False
        with len3 have g: "\<not> percent_guard cc (length name)" by (simp add: percent_guard_def)
        obtain xs where xs: "drop (Suc cc) name = xs" by simp
        with short have "length xs < 2" by auto
        then have sh: "xs = [] \<or> (\<exists>a. xs = [a])" by (rule short_cases)
        with "1.prems"(1) dr pc xs have "decodable_name xs" by auto
        with xs have enc: "decodable_name (drop (cc + 1) name)" by simp
        from "1.IH"(2) [OF n1 False pc g enc _ len3] lt
        have rec: "DecodeString_loop name (cc + 1) str =
                   Some (str @ spec_DecodeString_dropping (drop (cc + 1) name))"
          by simp
        have "DecodeString_loop name cc str = DecodeString_loop name (cc + 1) str"
          using lt pc g by (subst DecodeString_loop.simps) simp
        moreover from sh pc have
          "spec_DecodeString_dropping (name ! cc # xs) = spec_DecodeString_dropping xs"
          by auto
        ultimately show ?thesis using rec dr xs by simp
      qed
    next
      case pc: False
      from "1.prems"(1) dr pc have enc: "decodable_name (drop (cc + 1) name)"
        by (simp add: decodable_name_plain)
      from "1.IH"(3) [OF n1 False pc enc _ len3] lt
      have rec: "DecodeString_loop name (cc + 1) (str @ [name ! cc]) =
                 Some ((str @ [name ! cc]) @ spec_DecodeString_dropping (drop (cc + 1) name))"
        by simp
      have "DecodeString_loop name cc str = DecodeString_loop name (cc + 1) (str @ [name ! cc])"
        using lt pc by (subst DecodeString_loop.simps) simp
      with rec dr pc show ?thesis by (simp add: spec_DecodeString_dropping_plain)
    qed
  qed
qed

lemma decodable_name_no_NUL: "decodable_name name \<Longrightarrow> NUL \<notin> set name"
  by (induction name rule: decodable_name.induct)
     (auto split: if_splits simp: is_xdigit_def NUL_def)

lemma NUL_char_of_iff: "NUL = char_of (n::nat) \<longleftrightarrow> n mod 256 = 0"
  using char_of_NUL_iff [of n] by auto

lemma decodable_name_spec_no_NUL:
  "decodable_name name \<Longrightarrow> NUL \<notin> set (spec_DecodeString_dropping name)"
  by (induction name rule: decodable_name.induct)
     (auto split: if_splits simp: NUL_char_of_iff)

lemma DecodeString_decodable:
  assumes "decodable_name name" and "3 \<le> length name"
  shows "DecodeString name = Some (spec_DecodeString_dropping name)"
proof -
  from assms have n: "c_str name = name" by (simp add: c_str_id decodable_name_no_NUL)
  from DecodeString_loop_decodable [of 0 name "[]"] assms
  have "DecodeString_loop name 0 [] = Some (spec_DecodeString_dropping name)" by simp
  with n assms show ?thesis
    by (simp add: DecodeString_def strncpy_id decodable_name_spec_no_NUL)
qed

text \<open>
  Claim C8, amended. Whenever DecodeString returns, the decoded length is at most the
  input length. On an encoded name (every \<^verbatim>\<open>%\<close> is followed by two hex digits of
  nonzero value) it replaces every \<^verbatim>\<open>%HH\<close> triplet by the byte of that value and passes
  every other byte through. On a name of at least three bytes a \<^verbatim>\<open>%\<close> with fewer than
  two bytes after it is dropped instead of passed through. The name
  \<^verbatim>\<open>my%20name%2E\<close> decodes to \<^verbatim>\<open>my name.\<close>.
\<close>

theorem DecodeString_decodes:
  "(\<forall>r. DecodeString name = Some r \<longrightarrow> length r \<le> length name)
   \<and> (encoded_name name \<longrightarrow> DecodeString name = Some (spec_DecodeString name))
   \<and> (decodable_name name \<and> 3 \<le> length name \<longrightarrow>
        DecodeString name = Some (spec_DecodeString_dropping name))
   \<and> DecodeString ''my%20name%2E'' = Some ''my name.''"
proof (intro conjI allI impI)
  fix r assume "DecodeString name = Some r"
  then show "length r \<le> length name" by (rule DecodeString_length)
next
  assume "encoded_name name"
  then show "DecodeString name = Some (spec_DecodeString name)" by (rule DecodeString_encoded)
next
  assume "decodable_name name \<and> 3 \<le> length name"
  then show "DecodeString name = Some (spec_DecodeString_dropping name)"
    by (simp add: DecodeString_decodable)
next
  show "DecodeString ''my%20name%2E'' = Some ''my name.''" by code_simp
qed

theorem DecodeString_decodes_witness:
  "encoded_name ''my%20name%2E''
   \<and> DecodeString ''my%20name%2E'' = Some (spec_DecodeString ''my%20name%2E'')
   \<and> length (spec_DecodeString ''my%20name%2E'') \<le> length ''my%20name%2E''
   \<and> decodable_name ''50%'' \<and> 3 \<le> length ''50%''
   \<and> DecodeString ''50%'' = Some (spec_DecodeString_dropping ''50%'')
   \<and> spec_DecodeString_dropping ''50%'' = ''50''"
proof -
  have e: "encoded_name ''my%20name%2E''" by code_simp
  have d: "decodable_name ''50%'' \<and> 3 \<le> length ''50%''" by code_simp
  note t1 = DecodeString_decodes [of "''my%20name%2E''"]
  note t2 = DecodeString_decodes [of "''50%''"]
  from t1 e have r1: "DecodeString ''my%20name%2E'' = Some (spec_DecodeString ''my%20name%2E'')"
    by blast
  with t1 have l1: "length (spec_DecodeString ''my%20name%2E'') \<le> length ''my%20name%2E''"
    by blast
  from t2 d have r2: "DecodeString ''50%'' = Some (spec_DecodeString_dropping ''50%'')"
    by blast
  have v: "spec_DecodeString_dropping ''50%'' = ''50''" by code_simp
  from e r1 l1 d r2 v show ?thesis by blast
qed

text \<open>
  Claim C8 as stated fails: the \<^verbatim>\<open>%\<close> that ends \<^verbatim>\<open>ab%\<close> starts no triplet, yet it is
  not passed through.
\<close>

theorem DecodeString_trailing_percent_counterexample:
  "DecodeString ''ab%'' = Some ''ab'' \<and> spec_DecodeString ''ab%'' = ''ab%''"
  by code_simp

subsection \<open>Ghost levels\<close>



subsection \<open>String vectors of ReadInformation\<close>

lemma info_Get_Remove:
  "info_Get (info_Remove info k) k' = (if k' = k then None else info_Get info k')"
  by (induction info) (auto simp: info_Get_def info_Remove_def)

lemma info_Get_Cons:
  "info_Get ((k, v) # info) k' = (if k' = k then Some v else info_Get info k')"
  by (simp add: info_Get_def)

lemma info_Get_Set:
  "info_Get (info_Set info k v) k' = (if k' = k then Some v else info_Get info k')"
  by (simp add: info_Set_def info_Get_Cons info_Get_Remove)

lemma info_Get_Append_same:
  "info_Get (info_Append info k str) k = Some (StringVector (strings_under info k @ [str]))"
  by (auto simp: info_Append_def strings_under_def info_Get_Set
           split: option.splits info_value.splits)

lemma info_Get_Append_other:
  "k' \<noteq> k \<Longrightarrow> info_Get (info_Append info k str) k' = info_Get info k'"
  by (auto simp: info_Append_def info_Get_Set split: option.splits info_value.splits)

lemma strings_under_Append:
  "strings_under (info_Append info k str) k = strings_under info k @ [str]"
  by (simp add: strings_under_def [of "info_Append info k str"] info_Get_Append_same)

lemma read_lines_length: "read_lines n s = (ls, True, s') \<Longrightarrow> length ls = n"
  by (induction n arbitrary: s ls) (auto split: prod.splits option.splits)

lemma append_lines_read_lines:
  assumes "read_lines n s = (ls, ok, s')" and "\<forall>l\<in>set ls. DecodeString l \<noteq> None"
  shows "\<exists>info'. append_lines key n info s = Some (ok, info', s')
           \<and> strings_under info' key = strings_under info key @ map decoded_line ls
           \<and> (ls \<noteq> [] \<longrightarrow> info_Get info' key
                 = Some (StringVector (strings_under info key @ map decoded_line ls)))
           \<and> (ls = [] \<longrightarrow> info' = info)
           \<and> (\<forall>k. k \<noteq> key \<longrightarrow> info_Get info' k = info_Get info k)"
  using assms
proof (induction n arbitrary: s ls info ok s')
  case 0
  then show ?case by simp
next
  case (Suc n)
  show ?case
  proof (cases "ReadLine s")
    case (Pair lo s1)
    show ?thesis
    proof (cases lo)
      case None
      with Pair Suc.prems show ?thesis by simp
    next
      case (Some l)
      obtain ls1 ok1 s2 where r: "read_lines n s1 = (ls1, ok1, s2)"
        by (cases "read_lines n s1") auto
      with Pair Some Suc.prems(1) have e: "ls = l # ls1" "ok = ok1" "s' = s2" by auto
      with Suc.prems(2) obtain d where d: "DecodeString l = Some d" by auto
      from e Suc.prems(2) have dd: "\<forall>l\<in>set ls1. DecodeString l \<noteq> None" by simp
      let ?i = "info_Append info key (c_str d)"
      from Suc.IH [OF r dd, of ?i] obtain info' where
        a: "append_lines key n ?i s1 = Some (ok1, info', s2)"
        and b: "strings_under info' key = strings_under ?i key @ map decoded_line ls1"
        and c: "ls1 \<noteq> [] \<longrightarrow> info_Get info' key
                 = Some (StringVector (strings_under ?i key @ map decoded_line ls1))"
        and c0: "ls1 = [] \<longrightarrow> info' = ?i"
        and o: "\<forall>k. k \<noteq> key \<longrightarrow> info_Get info' k = info_Get ?i k"
        by blast
      have dl: "decoded_line l = c_str d" by (simp add: decoded_line_def d)
      from Pair Some d a e have 1: "append_lines key (Suc n) info s = Some (ok, info', s')"
        by simp
      from b dl e have 2: "strings_under info' key = strings_under info key @ map decoded_line ls"
        by (simp add: strings_under_Append)
      have 3: "info_Get info' key
                 = Some (StringVector (strings_under info key @ map decoded_line ls))"
      proof (cases "ls1 = []")
        case True
        with c0 e dl show ?thesis by (simp add: info_Get_Append_same)
      next
        case False
        with c e dl show ?thesis by (simp add: strings_under_Append)
      qed
      from o have 4: "\<forall>k. k \<noteq> key \<longrightarrow> info_Get info' k = info_Get info k"
        by (simp add: info_Get_Append_other)
      from 1 2 3 4 e show ?thesis by simp
    qed
  qed
qed

text \<open>
  Claim C9. In the string-vector branch, after the \<^verbatim>\<open>DATA\<close> token, a length
  \<open>len > 0\<close> and the rest of that line, \<open>len\<close> lines are read. If all are read, each
  is decoded and appended under the key, in order, behind the strings the key held
  before. If one of them cannot be read, nothing is left stored under the key. No other
  key changes.
\<close>

theorem read_string_vector_key_appends:
  assumes d: "expect_DATA s = (True, s1)"
    and n: "Read_int s1 = (True, Some len, s2)" and pos: "0 < len"
    and rl: "read_lines (nat len) (snd (ReadLine s2)) = (ls, ok, s4)"
    and dec: "\<forall>l\<in>set ls. DecodeString l \<noteq> None"
  shows "\<exists>info'. read_string_vector_key info key s = Some (info', s4)
        \<and> (ok \<longrightarrow> length ls = nat len
                  \<and> info_Get info' key
                      = Some (StringVector (strings_under info key @ map decoded_line ls)))
        \<and> (\<not> ok \<longrightarrow> info_Get info' key = None)
        \<and> (\<forall>k. k \<noteq> key \<longrightarrow> info_Get info' k = info_Get info k)"
proof -
  from append_lines_read_lines [OF rl dec, of key info] obtain i where
    a: "append_lines key (nat len) info (snd (ReadLine s2)) = Some (ok, i, s4)"
    and c: "ls \<noteq> [] \<longrightarrow> info_Get i key
                 = Some (StringVector (strings_under info key @ map decoded_line ls))"
    and o: "\<forall>k. k \<noteq> key \<longrightarrow> info_Get i k = info_Get info k"
    by blast
  let ?r = "if ok then i else info_Remove i key"
  from d n pos a have 1: "read_string_vector_key info key s = Some (?r, s4)"
    by (simp add: read_string_vector_key_def Let_def)
  have 2: "ok \<longrightarrow> length ls = nat len
                  \<and> info_Get ?r key
                      = Some (StringVector (strings_under info key @ map decoded_line ls))"
  proof
    assume ok
    with rl have l: "length ls = nat len" by (simp add: read_lines_length)
    with pos have "ls \<noteq> []" by auto
    with c l \<open>ok\<close> show "length ls = nat len
                  \<and> info_Get ?r key
                      = Some (StringVector (strings_under info key @ map decoded_line ls))"
      by simp
  qed
  have 3: "\<not> ok \<longrightarrow> info_Get ?r key = None" by (simp add: info_Get_Remove)
  from o have 4: "\<forall>k. k \<noteq> key \<longrightarrow> info_Get ?r k = info_Get info k"
    by (simp add: info_Get_Remove)
  from 1 2 3 4 show ?thesis by blast
qed

theorem read_string_vector_key_appends_witness:
  "expect_DATA example_block
     = (True, open_stream ('' 2'' @ newline # ''first'' @ newline # ''sec%2Eond'' @ newline # ''rest''))
   \<and> Read_int (open_stream ('' 2'' @ newline # ''first'' @ newline # ''sec%2Eond'' @ newline # ''rest''))
     = (True, Some 2, open_stream (newline # ''first'' @ newline # ''sec%2Eond'' @ newline # ''rest''))
   \<and> (\<exists>info'. read_string_vector_key [] example_key example_block
                  = Some (info', \<lparr>buf = ''rest'', eofbit = False, failbit = False, gcount = 10\<rparr>)
          \<and> info_Get info' example_key = Some (StringVector [''first'', ''sec.ond'']))
   \<and> expect_DATA example_short_block
     = (True, open_stream ('' 3'' @ newline # ''first'' @ newline # ''sec%2Eond'' @ [newline]))
   \<and> (\<exists>info'. read_string_vector_key [(example_key, StringVector [''old''])] example_key
                  example_short_block
                  = Some (info', \<lparr>buf = [], eofbit = True, failbit = True, gcount = 0\<rparr>)
          \<and> info_Get info' example_key = None)"
proof -
  let ?s1 = "open_stream ('' 2'' @ newline # ''first'' @ newline # ''sec%2Eond'' @ newline # ''rest'')"
  let ?s2 = "open_stream (newline # ''first'' @ newline # ''sec%2Eond'' @ newline # ''rest'')"
  let ?s4 = "\<lparr>buf = ''rest'', eofbit = False, failbit = False, gcount = 10\<rparr>"
  let ?ls = "[''first'', ''sec%2Eond'']"
  have d: "expect_DATA example_block = (True, ?s1)" by code_simp
  have n: "Read_int ?s1 = (True, Some 2, ?s2)" by code_simp
  have p: "(0::int) < 2" by simp
  have rl: "read_lines (nat 2) (snd (ReadLine ?s2)) = (?ls, True, ?s4)" by code_simp
  have dec: "\<forall>l\<in>set ?ls. DecodeString l \<noteq> None" by code_simp
  have m: "strings_under [] example_key @ map decoded_line ?ls = [''first'', ''sec.ond'']"
    by code_simp
  from read_string_vector_key_appends [OF d n p rl dec, of "[]" example_key] m
  have a: "\<exists>info'. read_string_vector_key [] example_key example_block = Some (info', ?s4)
          \<and> info_Get info' example_key = Some (StringVector [''first'', ''sec.ond''])"
    by auto
  let ?t1 = "open_stream ('' 3'' @ newline # ''first'' @ newline # ''sec%2Eond'' @ [newline])"
  let ?t2 = "open_stream (newline # ''first'' @ newline # ''sec%2Eond'' @ [newline])"
  let ?t4 = "\<lparr>buf = [], eofbit = True, failbit = True, gcount = 0\<rparr>"
  have d': "expect_DATA example_short_block = (True, ?t1)" by code_simp
  have n': "Read_int ?t1 = (True, Some 3, ?t2)" by code_simp
  have p': "(0::int) < 3" by simp
  have rl': "read_lines (nat 3) (snd (ReadLine ?t2)) = (?ls, False, ?t4)" by code_simp
  from read_string_vector_key_appends [OF d' n' p' rl' dec,
         of "[(example_key, StringVector [''old''])]" example_key]
  have b: "\<exists>info'. read_string_vector_key [(example_key, StringVector [''old''])] example_key
                  example_short_block = Some (info', ?t4)
          \<and> info_Get info' example_key = None"
    by auto
  from d n a d' b show ?thesis by blast
qed

subsection \<open>ReadArray\<close>

lemma same_values_refl [simp, intro]: "same_values a a"
  by (simp add: same_values_def)

lemma same_values_trans: "same_values a b \<Longrightarrow> same_values b c \<Longrightarrow> same_values a c"
  by (cases a; cases b; cases c) (simp add: same_values_def)

lemma same_values_SetComponentName: "same_values a (SetComponentName i n a)"
  by (simp add: same_values_def SetComponentName_def)

lemma same_values_Information: "same_values a (a\<lparr>Information := i\<rparr>)"
  by (simp add: same_values_def)

lemma read_component_names_same:
  "read_component_names i n a s = Some (a', s') \<Longrightarrow> same_values a a'"
proof (induction n arbitrary: i a s)
  case 0
  then show ?case by (simp add: same_values_refl)
next
  case (Suc n)
  then show ?case
    by (auto split: prod.splits option.splits
             intro: same_values_trans [OF same_values_SetComponentName])
qed

lemma read_metadata_same:
  "read_metadata E numComp a s = Some y \<Longrightarrow> same_values a (fst y)"
proof (induction E numComp a s y rule: read_metadata.raw_induct [rotated 1, consumes 1])
  case (1 f E numComp a s y)
  show ?case
  proof (cases "ReadLine s")
    case (Pair lo s1)
    show ?thesis
    proof (cases lo)
      case None
      with Pair "1.hyps" show ?thesis by auto
    next
      case (Some l)
      let ?l = "LowerCase l 256"
      show ?thesis
      proof (cases "?l = []")
        case True
        with Pair Some "1.hyps" show ?thesis by auto
      next
        case ne: False
        show ?thesis
        proof (cases "strncmp_eq ?l ''component_names'' 15")
          case True
          with Pair Some ne "1.hyps" obtain a1 s2 where
            c: "read_component_names 0 (nat numComp) a s1 = Some (a1, s2)"
            and r: "f E numComp a1 s2 = Some y"
            by (auto split: option.splits)
          from read_component_names_same [OF c] "1.IH" [OF r]
          show ?thesis by (rule same_values_trans)
        next
          case cn: False
          show ?thesis
          proof (cases "strncmp_eq ?l ''information'' 11")
            case False
            with Pair Some ne cn "1.hyps" have "f E numComp a s1 = Some y"
              by simp
            then show ?thesis by (rule "1.IH")
          next
            case True
            with Pair Some ne cn "1.hyps" have
              h: "(case sscanf_information ?l of
                    None \<Rightarrow> None
                  | Some None \<Rightarrow> f E numComp a s1
                  | Some (Some numKeys) \<Rightarrow>
                      (case ReadInformation E (Information a) numKeys s1 of
                         None \<Rightarrow> None
                       | Some (ret, info', s2) \<Rightarrow>
                           f E numComp (a\<lparr>Information := info'\<rparr>) s2)) = Some y"
              by simp
            show ?thesis
            proof (cases "sscanf_information ?l")
              case None
              with h show ?thesis by simp
            next
              case (Some k)
              show ?thesis
              proof (cases k)
                case None
                with Some h have "f E numComp a s1 = Some y" by simp
                then show ?thesis by (rule "1.IH")
              next
                case (Some numKeys)
                with \<open>sscanf_information ?l = Some k\<close> h obtain ret info' s2 where
                  r: "f E numComp (a\<lparr>Information := info'\<rparr>) s2 = Some y"
                  by (auto split: option.splits)
                from same_values_Information "1.IH" [OF r]
                show ?thesis by (rule same_values_trans)
              qed
            qed
          qed
        qed
      qed
    qed
  qed
qed

lemma ReadArray_tail_same:
  "ReadArray_tail E numComp a s = Some (a', s') \<Longrightarrow> same_values a a'"
  using read_metadata_same [of E numComp a _ "(a', s')"]
  by (auto simp: ReadArray_tail_def same_values_refl
           split: prod.splits option.splits bool.splits if_splits)


lemma length_fixed_cells: "length (fixed_cells w n bytes) = n"
  by (simp add: fixed_cells_def)

lemma length_bit_cells: "length (bit_cells n bytes) = n"
  by (simp add: bit_cells_def)

lemma vtkReadASCIIData_length:
  "vtkReadASCIIData rd n s = (cs, ret, s') \<Longrightarrow> length cs \<le> n"
  by (induction n arbitrary: s cs ret s') (auto split: prod.splits bool.splits)

lemma read_ascii_bits_length:
  "read_ascii_bits n s = (Some cs, s') \<Longrightarrow> length cs = n"
  by (induction n arbitrary: s cs s') (auto split: prod.splits bool.splits option.splits)

lemma read_binary_strings_length:
  "read_binary_strings n s = Some (cs, s') \<Longrightarrow> length cs = n"
  by (induction n arbitrary: s cs s') (auto split: prod.splits option.splits)

lemma read_ascii_strings_length:
  "read_ascii_strings n s = Some (cs, s') \<Longrightarrow> length cs = n"
  by (induction n arbitrary: s cs s') (auto split: prod.splits option.splits)

lemma read_variants_length:
  "read_variants E n s = Some (cs, s') \<Longrightarrow> length cs = n"
  by (induction n arbitrary: s cs s') (auto split: prod.splits option.splits)

lemma read_numeric_length:
  "read_numeric E ft c numTuples numComp s = (a, s') \<Longrightarrow>
     length (cells a) = nat (numTuples * numComp)"
  by (auto simp: read_numeric_def Let_def length_fixed_cells
           split: prod.splits if_splits dest: vtkReadASCIIData_length)

lemma read_idtype_length:
  "read_idtype E ft numTuples numComp s = (a, s') \<Longrightarrow>
     length (cells a) = nat (numTuples * numComp)"
  by (auto simp: read_idtype_def Let_def length_fixed_cells
           split: prod.splits if_splits dest: vtkReadASCIIData_length)

lemma read_bits_length:
  "read_bits ft numTuples numComp s = (Some a, s') \<Longrightarrow>
     length (cells a) = nat (numTuples * numComp)"
  by (auto simp: read_bits_def Let_def length_bit_cells SetNumberOfComponents_def New_def
           split: prod.splits if_splits option.splits dest: read_ascii_bits_length)

lemma read_strings_length:
  "read_strings ft numTuples numComp s = Some (a, s') \<Longrightarrow>
     length (cells a) = nat (numTuples * numComp)"
  by (auto simp: read_strings_def Let_def
           split: prod.splits if_splits option.splits
           dest: read_binary_strings_length read_ascii_strings_length)

lemma ReadArray_values_length:
  "ReadArray_values E ft dataType numTuples numComp s = Some (Some a, s') \<Longrightarrow>
     length (cells a) = nat (numTuples * numComp)"
  by (auto simp: ReadArray_values_def Let_def
           split: prod.splits if_splits option.splits
           dest: read_numeric_length read_idtype_length read_bits_length read_strings_length
                 read_variants_length)

lemma ReadArray_length:
  assumes "ReadArray E r dataType numTuples numComp = Some (Some a, r')"
  shows "length (cells a) = nat (numTuples * numComp)"
proof -
  from assms obtain a0 s1 s2 where
    v: "ReadArray_values E (FileType r) dataType numTuples numComp (IS r) = Some (Some a0, s1)"
    and t: "ReadArray_tail E numComp a0 s1 = Some (a, s2)"
    by (auto simp: ReadArray_def split: option.splits prod.splits)
  from ReadArray_tail_same [OF t] have "cells a = cells a0"
    by (cases a; cases a0) (simp add: same_values_def)
  with ReadArray_values_length [OF v] show ?thesis by simp
qed


lemma IS_getline_line:
  assumes "good s" and "buf s = pre @ newline # r" and "newline \<notin> set pre"
    and "length pre < 255"
  shows "IS_getline 256 s = (pre, s\<lparr>buf := r, gcount := Suc (length pre)\<rparr>)"
  using assms by (simp add: IS_getline_def takeWhile_line Let_def)

lemma IS_read_payload:
  assumes "good s" and "buf s = bytes @ rest" and "n = length bytes"
  shows "IS_read n s = (bytes, s\<lparr>buf := rest, gcount := n\<rparr>)"
  using assms by (simp add: IS_read_def)

lemma binary_payload_read:
  assumes g: "good s" and b: "buf s = pre @ newline # payload @ rest"
    and p: "newline \<notin> set pre" "length pre < 255"
    and n: "n = length payload"
  shows "(case IS_getline 256 s of (line, s1) \<Rightarrow> IS_read n s1)
         = (payload, s\<lparr>buf := rest, gcount := n\<rparr>)"
proof -
  from IS_getline_line [OF g b p]
  have l: "IS_getline 256 s = (pre, s\<lparr>buf := payload @ rest, gcount := Suc (length pre)\<rparr>)" .
  let ?s1 = "s\<lparr>buf := payload @ rest, gcount := Suc (length pre)\<rparr>"
  from g have g1: "good ?s1" by (simp add: good_def)
  have b1: "buf ?s1 = payload @ rest" by simp
  from IS_read_payload [OF g1 b1 n] l show ?thesis by simp
qed

lemma read_numeric_binary_consumes:
  assumes g: "good s" and b: "buf s = pre @ newline # payload @ rest"
    and p: "newline \<notin> set pre" "length pre < 255"
    and nz: "0 < numTuples" "0 < numComp"
    and n: "length payload = elem_size E c * nat numComp * nat numTuples"
  shows "\<exists>a s'. read_numeric E VTK_BINARY c numTuples numComp s = (a, s')
           \<and> buf s' = rest \<and> good s'
           \<and> cells a = fixed_cells (elem_size E c) (nat (numTuples * numComp)) payload"
proof -
  from n have n': "elem_size E c * nat numComp * nat numTuples = length payload" by simp
  note r = binary_payload_read [OF g b p n']
  from g have "good (s\<lparr>buf := rest, gcount := elem_size E c * nat numComp * nat numTuples\<rparr>)"
    by (simp add: good_def)
  with r nz g show ?thesis
    by (simp add: read_numeric_def vtkReadBinaryData_def Let_def good_def split: prod.splits)
qed

lemma read_bits_binary_consumes:
  assumes g: "good s" and b: "buf s = pre @ newline # payload @ rest"
    and p: "newline \<notin> set pre" "length pre < 255"
    and nz: "0 < numTuples" "0 < numComp"
    and n: "length payload = (nat (numTuples * numComp) + 7) div 8"
  shows "\<exists>a s'. read_bits VTK_BINARY numTuples numComp s = (Some a, s')
           \<and> buf s' = rest \<and> good s'
           \<and> cells a = bit_cells (nat (numTuples * numComp)) payload"
proof -
  from n have n': "(nat (numTuples * numComp) + 7) div 8 = length payload" by simp
  note r = binary_payload_read [OF g b p n']
  from g have "good (s\<lparr>buf := rest, gcount := (nat (numTuples * numComp) + 7) div 8\<rparr>)"
    by (simp add: good_def)
  with r nz g show ?thesis
    by (auto simp: read_bits_def Let_def good_def split: prod.splits)
qed

text \<open>
  Claim C5 holds for the number of values (\<open>ReadArray_length\<close>) and, on a stream that
  holds the whole payload behind the line that ends the header, for the bytes consumed
  (\<open>read_bits_binary_consumes\<close>, \<open>read_numeric_binary_consumes\<close>). It fails on a
  truncated binary stream: ReadArray does not look at the return value of
  \<^verbatim>\<open>vtkReadBinaryData\<close>, so for \<^verbatim>\<open>int\<close> and one value on a stream with two bytes
  behind the newline it returns an array, its value never written, having consumed two
  bytes instead of four. The branch for bits tests for the end of the file and returns
  the null pointer there.
\<close>

theorem ReadArray_truncated_binary:
  "map_option (\<lambda>(a, r'). (map_option cells a, buf (IS r')))
     (ReadArray vtk_env ((new_reader (newline # [CHR 0x00, CHR 0x00]))\<lparr>FileType := VTK_BINARY\<rparr>)
        ''int'' 1 1)
   = Some (Some [Indeterminate], [])
   \<and> map_option fst
       (ReadArray vtk_env ((new_reader (newline # [CHR 0x00]))\<lparr>FileType := VTK_BINARY\<rparr>)
          ''bit'' 9 1)
     = Some None"
  by code_simp

subsection \<open>Scalars\<close>

lemma ReadArray_ScalarLut:
  "ReadArray E (r\<lparr>ScalarLut := x\<rparr>) dataType numTuples numComp
   = map_option (\<lambda>(a, r'). (a, r'\<lparr>ScalarLut := x\<rparr>)) (ReadArray E r dataType numTuples numComp)"
  by (auto simp: ReadArray_def split: option.splits prod.splits)

lemma scalar_components_header:
  assumes "(ReadString s2 = (Some key, s4) \<and> LowerCase key 256 = ''lookup_table''
              \<and> numComp = 1)
         \<or> (\<exists>s3 key1. ReadString s2 = (Some key, s3) \<and> LowerCase key 256 \<noteq> ''lookup_table''
              \<and> atoi (LowerCase key 256) = Some numComp \<and> 1 \<le> numComp
              \<and> ReadString s3 = (Some key1, s4) \<and> LowerCase key1 256 = ''lookup_table'')"
  shows "scalar_components s2 = Some (Inr (numComp, s4))"
  using assms by (auto simp: scalar_components_def Let_def)

text \<open>
  Claim C6. Let the name and the type of a SCALARS section be read and the name be
  decoded; let the next token be the keyword \<^verbatim>\<open>LOOKUP_TABLE\<close>, the number of
  components then being 1, or a number of components of at least 1 with the keyword
  behind it; let the table name be read, and let ReadArray, called with that type,
  \<open>numPts\<close> and that number of components on the stream behind the table name, return
  an array that is a data array. Then ReadScalarData returns 1, with the reader as
  ReadArray left it. If the Scalars slot of the container was filled, or a scalars name
  is asked for and differs from the decoded name, the slot stays as it was, and the array
  under the decoded name is appended to the extra arrays when ReadAllScalars is on and
  goes nowhere when it is off. Otherwise that array becomes the Scalars slot, and the
  table name is kept in the reader.
\<close>

theorem ReadScalarData_installs:
  assumes nm: "ReadString (IS r) = (Some buffer, s1)"
    and ty: "ReadString s1 = (Some line, s2)"
    and dec: "DecodeString buffer = Some name"
    and hdr: "(ReadString s2 = (Some key, s4) \<and> LowerCase key 256 = ''lookup_table''
                \<and> numComp = 1)
           \<or> (\<exists>s3 key1. ReadString s2 = (Some key, s3) \<and> LowerCase key 256 \<noteq> ''lookup_table''
                \<and> atoi (LowerCase key 256) = Some numComp \<and> 1 \<le> numComp
                \<and> ReadString s3 = (Some key1, s4) \<and> LowerCase key1 256 = ''lookup_table'')"
    and tb: "ReadString s4 = (Some tableName, s5)"
    and arr: "ReadArray E (r\<lparr>IS := s5\<rparr>) line numPts numComp = Some (Some array, r1)"
    and da: "is_data_array array"
  shows "ReadScalarData E r a numPts
       = Some (1,
           (if Scalars a \<noteq> None \<or> (\<exists>f. ScalarsName r = Some f \<and> f \<noteq> c_str name)
            then r1 else r1\<lparr>ScalarLut := Some tableName\<rparr>),
           (if Scalars a \<noteq> None \<or> (\<exists>f. ScalarsName r = Some f \<and> f \<noteq> c_str name)
            then (if ReadAllScalars r
                  then a\<lparr>Arrays := Arrays a @ [SetName name array]\<rparr>
                  else a)
            else a\<lparr>Scalars := Some (SetName name array)\<rparr>))"
proof -
  note sc = scalar_components_header [OF hdr]
  have sk: "skip_scalar r a (c_str name)
            = (Scalars a \<noteq> None \<or> (\<exists>f. ScalarsName r = Some f \<and> f \<noteq> c_str name))"
    by (auto simp: skip_scalar_def split: option.splits)
  from arr have arr': "ReadArray E (r\<lparr>IS := s5, ScalarLut := Some tableName\<rparr>) line numPts numComp
                       = Some (Some array, r1\<lparr>ScalarLut := Some tableName\<rparr>)"
    by (simp add: ReadArray_ScalarLut)
  show ?thesis
  proof (cases "skip_scalar r a (c_str name)")
    case True
    with nm ty dec sc tb arr da sk show ?thesis
      by (auto simp: ReadScalarData_def Let_def AddArray_def)
  next
    case False
    with nm ty dec sc tb arr' da sk show ?thesis
      by (auto simp: ReadScalarData_def Let_def SetScalars_def)
  qed
qed

theorem ReadScalarData_installs_witness:
  "ReadScalarData vtk_env (new_reader example_scalars) no_attributes 2
   = Some (1,
       (new_reader example_scalars)
         \<lparr>IS := \<lparr>buf = ''VECTORS'', eofbit = False, failbit = False, gcount = 7\<rparr>,
           ScalarLut := Some ''default''\<rparr>,
       no_attributes
         \<lparr>Scalars := Some (SetName ''my name''
                            ((SetNumberOfComponents 2 (New vtkIntArray))
                               \<lparr>cells := [Bits 1, Bits 2, Bits 3, Bits 4]\<rparr>))\<rparr>)
   \<and> ReadScalarData vtk_env
        ((new_reader example_scalars)\<lparr>ScalarsName := Some ''other'', ReadAllScalars := True\<rparr>)
        no_attributes 2
     = Some (1,
         (new_reader example_scalars)
           \<lparr>ScalarsName := Some ''other'', ReadAllScalars := True,
             IS := \<lparr>buf = ''VECTORS'', eofbit = False, failbit = False, gcount = 7\<rparr>\<rparr>,
         no_attributes
           \<lparr>Arrays := [SetName ''my name''
                          ((SetNumberOfComponents 2 (New vtkIntArray))
                             \<lparr>cells := [Bits 1, Bits 2, Bits 3, Bits 4]\<rparr>)]\<rparr>)
   \<and> ReadScalarData vtk_env
        ((new_reader example_scalars)\<lparr>ScalarsName := Some ''other''\<rparr>) no_attributes 2
     = Some (1,
         (new_reader example_scalars)
           \<lparr>ScalarsName := Some ''other'',
             IS := \<lparr>buf = ''VECTORS'', eofbit = False, failbit = False, gcount = 7\<rparr>\<rparr>,
         no_attributes)"
proof -
  let ?s1 = "open_stream ('' int 2'' @ newline # ''LOOKUP_TABLE default'' @ newline
                            # ''1 2 3 4'' @ newline # ''VECTORS'')"
  let ?s2 = "open_stream ('' 2'' @ newline # ''LOOKUP_TABLE default'' @ newline
                            # ''1 2 3 4'' @ newline # ''VECTORS'')"
  let ?s3 = "open_stream (newline # ''LOOKUP_TABLE default'' @ newline
                            # ''1 2 3 4'' @ newline # ''VECTORS'')"
  let ?s4 = "open_stream ('' default'' @ newline # ''1 2 3 4'' @ newline # ''VECTORS'')"
  let ?s5 = "open_stream (newline # ''1 2 3 4'' @ newline # ''VECTORS'')"
  let ?s6 = "\<lparr>buf = ''VECTORS'', eofbit = False, failbit = False, gcount = 7\<rparr>"
  let ?array = "(SetNumberOfComponents 2 (New vtkIntArray))\<lparr>cells := [Bits 1, Bits 2, Bits 3, Bits 4]\<rparr>"
  let ?A = "new_reader example_scalars"
  let ?B = "(new_reader example_scalars)\<lparr>ScalarsName := Some ''other'', ReadAllScalars := True\<rparr>"
  let ?C = "(new_reader example_scalars)\<lparr>ScalarsName := Some ''other''\<rparr>"
  have ty: "ReadString ?s1 = (Some ''int'', ?s2)" by code_simp
  have dec: "DecodeString ''my%20name'' = Some ''my name''" by code_simp
  have hdr: "(ReadString ?s2 = (Some ''2'', ?s4) \<and> LowerCase ''2'' 256 = ''lookup_table''
                \<and> (2::int) = 1)
           \<or> (\<exists>s3 key1. ReadString ?s2 = (Some ''2'', s3) \<and> LowerCase ''2'' 256 \<noteq> ''lookup_table''
                \<and> atoi (LowerCase ''2'' 256) = Some 2 \<and> 1 \<le> (2::int)
                \<and> ReadString s3 = (Some key1, ?s4) \<and> LowerCase key1 256 = ''lookup_table'')"
  proof -
    have "ReadString ?s2 = (Some ''2'', ?s3) \<and> LowerCase ''2'' 256 \<noteq> ''lookup_table''
                \<and> atoi (LowerCase ''2'' 256) = Some 2 \<and> 1 \<le> (2::int)
                \<and> ReadString ?s3 = (Some ''LOOKUP_TABLE'', ?s4)
                \<and> LowerCase ''LOOKUP_TABLE'' 256 = ''lookup_table''"
      by code_simp
    then show ?thesis by blast
  qed
  have tb: "ReadString ?s4 = (Some ''default'', ?s5)" by code_simp
  have cn: "c_str ''my name'' = ''my name''" by code_simp
  have nmA: "ReadString (IS ?A) = (Some ''my%20name'', ?s1)" by code_simp
  have arrA: "ReadArray vtk_env (?A\<lparr>IS := ?s5\<rparr>) ''int'' 2 2 = Some (Some ?array, ?A\<lparr>IS := ?s6\<rparr>)"
    by code_simp
  have daA: "is_data_array ?array" by code_simp
  have cA: "Scalars no_attributes = None" "ScalarsName ?A = None" "Arrays no_attributes = []"
    by (simp_all add: no_attributes_def new_reader_def)
  from ReadScalarData_installs [OF nmA ty dec hdr tb arrA daA, of no_attributes] cA cn
  have A: "ReadScalarData vtk_env ?A no_attributes 2
           = Some (1, ?A\<lparr>IS := ?s6, ScalarLut := Some ''default''\<rparr>,
                   no_attributes\<lparr>Scalars := Some (SetName ''my name'' ?array)\<rparr>)"
    by simp
  have nmB: "ReadString (IS ?B) = (Some ''my%20name'', ?s1)" by code_simp
  have arrB: "ReadArray vtk_env (?B\<lparr>IS := ?s5\<rparr>) ''int'' 2 2 = Some (Some ?array, ?B\<lparr>IS := ?s6\<rparr>)"
    by code_simp
  have cB: "ScalarsName ?B = Some ''other''" "ReadAllScalars ?B" by simp_all
  from ReadScalarData_installs [OF nmB ty dec hdr tb arrB daA, of no_attributes] cA cB cn
  have B: "ReadScalarData vtk_env ?B no_attributes 2
           = Some (1, ?B\<lparr>IS := ?s6\<rparr>, no_attributes\<lparr>Arrays := [SetName ''my name'' ?array]\<rparr>)"
    by simp
  have nmC: "ReadString (IS ?C) = (Some ''my%20name'', ?s1)" by code_simp
  have arrC: "ReadArray vtk_env (?C\<lparr>IS := ?s5\<rparr>) ''int'' 2 2 = Some (Some ?array, ?C\<lparr>IS := ?s6\<rparr>)"
    by code_simp
  have cC: "ScalarsName ?C = Some ''other''" "\<not> ReadAllScalars ?C"
    by (simp_all add: new_reader_def)
  from ReadScalarData_installs [OF nmC ty dec hdr tb arrC daA, of no_attributes] cA cC cn
  have C: "ReadScalarData vtk_env ?C no_attributes 2 = Some (1, ?C\<lparr>IS := ?s6\<rparr>, no_attributes)"
    by simp
  from A B C show ?thesis by simp
qed

lemma ReadScalarData_outcome:
  assumes "FileType r = ft" and "IS r = s"
  shows "map_option (\<lambda>(ret, r', a'). (ret, IS r')) (ReadScalarData E r a numPts)
   = (case ReadString s of
        (None, s1) \<Rightarrow> Some (0, s1)
      | (Some buffer, s1) \<Rightarrow>
          (case ReadString s1 of
             (None, s2) \<Rightarrow> Some (0, s2)
           | (Some line, s2) \<Rightarrow>
               (case DecodeString buffer of
                  None \<Rightarrow> None
                | Some name \<Rightarrow>
                    (case scalar_components s2 of
                       None \<Rightarrow> None
                     | Some (Inl s4) \<Rightarrow> Some (0, s4)
                     | Some (Inr (numComp, s4)) \<Rightarrow>
                         (case ReadString s4 of
                            (None, s5) \<Rightarrow> Some (0, s5)
                          | (Some tableName, s5) \<Rightarrow>
                                (case ReadArray_values E ft line numPts numComp s5 of
                                   None \<Rightarrow> None
                                 | Some (None, s6) \<Rightarrow> Some (0, s6)
                                 | Some (Some array, s6) \<Rightarrow>
                                     (case ReadArray_tail E numComp array s6 of None \<Rightarrow> None
                                      | Some (array', s7) \<Rightarrow>
                                     if \<not> is_data_array array' then Some (0, s7)
                                     else Some (1, s7))))))))"
  using assms
  by (auto simp: ReadScalarData_def ReadArray_def Let_def
           split: option.splits prod.splits sum.splits)

text \<open>
  Claim C10. Two calls of ReadScalarData on readers that differ only in the scalars name
  asked for and in ReadAllScalars, with any two containers, return the same value and
  leave the stream in the same state; where one has no defined result, neither has the
  other.
\<close>

theorem ReadScalarData_position:
  "map_option (\<lambda>(ret, r', a'). (ret, IS r'))
     (ReadScalarData E (r\<lparr>ScalarsName := f1, ReadAllScalars := b1\<rparr>) a1 numPts)
   = map_option (\<lambda>(ret, r', a'). (ret, IS r'))
       (ReadScalarData E (r\<lparr>ScalarsName := f2, ReadAllScalars := b2\<rparr>) a2 numPts)"
  by (simp add: ReadScalarData_outcome [where ft = "FileType r" and s = "IS r"])

theorem ReadScalarData_position_witness:
  "map_option (\<lambda>(ret, r', a'). (ret, IS r'))
     (ReadScalarData vtk_env
        ((new_reader example_scalars)\<lparr>ScalarsName := Some ''other'', ReadAllScalars := True\<rparr>)
        (no_attributes\<lparr>Scalars := Some (New vtkIntArray)\<rparr>) 2)
   = Some (1, \<lparr>buf = ''VECTORS'', eofbit = False, failbit = False, gcount = 7\<rparr>)"
proof -
  have "map_option (\<lambda>(ret, r', a'). (ret, IS r'))
          (ReadScalarData vtk_env
             ((new_reader example_scalars)\<lparr>ScalarsName := None, ReadAllScalars := False\<rparr>)
             no_attributes 2)
        = Some (1, \<lparr>buf = ''VECTORS'', eofbit = False, failbit = False, gcount = 7\<rparr>)"
    by code_simp
  with ReadScalarData_position [where E = vtk_env and r = "new_reader example_scalars"
         and ?f1.0 = "Some ''other''" and ?b1.0 = True
         and ?a1.0 = "no_attributes\<lparr>Scalars := Some (New vtkIntArray)\<rparr>" and numPts = 2
         and ?f2.0 = None and ?b2.0 = False and ?a2.0 = no_attributes]
  show ?thesis by simp
qed

subsection \<open>Color scalars\<close>

lemma those_nth:
  "those xs = Some ys \<Longrightarrow> length ys = length xs \<and> (\<forall>i<length xs. xs ! i = Some (ys ! i))"
proof (induction xs arbitrary: ys)
  case Nil
  then show ?case by simp
next
  case (Cons x xs)
  then obtain y zs where x: "x = Some y" and z: "those xs = Some zs" and y: "ys = y # zs"
    by (auto split: option.splits)
  from Cons.IH [OF z] have l: "length zs = length xs"
    and n: "\<forall>i<length xs. xs ! i = Some (zs ! i)" by simp_all
  show ?case
  proof (intro conjI allI impI)
    show "length ys = length (x # xs)" using l y by simp
  next
    fix i assume "i < length (x # xs)"
    then show "(x # xs) ! i = Some (ys ! i)" using x y n by (cases i) simp_all
  qed
qed

lemma fixed_cells_bytes:
  assumes "length bytes = n"
  shows "fixed_cells 1 n bytes = map (\<lambda>c. Bits (of_char c)) bytes"
proof (rule nth_equalityI)
  show "length (fixed_cells 1 n bytes) = length (map (\<lambda>c. Bits (of_char c)) bytes)"
    using assms by (simp add: fixed_cells_def)
next
  fix i assume "i < length (fixed_cells 1 n bytes)"
  then have i: "i < length bytes" using assms by (simp add: fixed_cells_def)
  then have "take 1 (drop i bytes) = [bytes ! i]"
    by (simp add: take_Suc_conv_app_nth)
  with i assms show "fixed_cells 1 n bytes ! i = map (\<lambda>c. Bits (of_char c)) bytes ! i"
    by (simp add: fixed_cells_def be_val_def)
qed

lemma LowerCase_unsigned_char: "LowerCase ''unsigned_char'' 256 = ''unsigned_char''"
  by code_simp

lemma LowerCase_float: "LowerCase ''float'' 256 = ''float''"
  by code_simp

lemma ReadArray_values_unsigned_char:
  "ReadArray_values E ft ''unsigned_char'' numTuples numComp s
   = (if numTuples < 0 \<or> numComp < 0 \<or> 2 ^ 63 \<le> numTuples * numComp * 8 then None
      else (case read_numeric E ft vtkUnsignedCharArray numTuples numComp s of
              (a, s1) \<Rightarrow> Some (Some a, s1)))"
  by (simp add: ReadArray_values_def LowerCase_unsigned_char strncmp_eq_def)

lemma ReadArray_values_float:
  "ReadArray_values E ft ''float'' numTuples numComp s
   = (if numTuples < 0 \<or> numComp < 0 \<or> 2 ^ 63 \<le> numTuples * numComp * 8 then None
      else (case read_numeric E ft vtkFloatArray numTuples numComp s of
              (a, s1) \<Rightarrow> Some (Some a, s1)))"
  by (simp add: ReadArray_values_def LowerCase_float strncmp_eq_def)

lemma read_numeric_class:
  "read_numeric E ft c numTuples numComp s = (a, s') \<Longrightarrow> array_class a = c"
  by (auto simp: read_numeric_def Let_def SetNumberOfComponents_def New_def split: prod.splits if_splits)

lemma ReadArray_tail_class:
  assumes "ReadArray_tail E numComp a s = Some (a', s')"
  shows "array_class a' = array_class a" and "cells a' = cells a"
proof -
  from ReadArray_tail_same [OF assms] have "same_values a a'" .
  then show "array_class a' = array_class a" and "cells a' = cells a"
    by (cases a; cases a'; simp add: same_values_def)+
qed

lemma ReadArray_unsigned_char:
  assumes "ReadArray E r ''unsigned_char'' numTuples numComp = Some (Some a, r')"
  shows "array_class a = vtkUnsignedCharArray"
    and "\<exists>a0 s1. read_numeric E (FileType r) vtkUnsignedCharArray numTuples numComp (IS r) = (a0, s1)
           \<and> cells a = cells a0"
proof -
  from assms obtain a0 s1 s2 where
    v: "ReadArray_values E (FileType r) ''unsigned_char'' numTuples numComp (IS r) = Some (Some a0, s1)"
    and t: "ReadArray_tail E numComp a0 s1 = Some (a, s2)"
    by (auto simp: ReadArray_def split: option.splits prod.splits)
  from v have n: "read_numeric E (FileType r) vtkUnsignedCharArray numTuples numComp (IS r) = (a0, s1)"
    by (auto simp: ReadArray_values_unsigned_char split: if_splits prod.splits)
  from read_numeric_class [OF n] ReadArray_tail_class [OF t]
  show "array_class a = vtkUnsignedCharArray" by simp
  from n ReadArray_tail_class [OF t]
  show "\<exists>a0 s1. read_numeric E (FileType r) vtkUnsignedCharArray numTuples numComp (IS r) = (a0, s1)
           \<and> cells a = cells a0" by simp
qed

lemma ReadArray_float:
  assumes "ReadArray E r ''float'' numTuples numComp = Some (Some a, r')"
  shows "array_class a = vtkFloatArray"
proof -
  from assms obtain a0 s1 s2 where
    v: "ReadArray_values E (FileType r) ''float'' numTuples numComp (IS r) = Some (Some a0, s1)"
    and t: "ReadArray_tail E numComp a0 s1 = Some (a, s2)"
    by (auto simp: ReadArray_def split: option.splits prod.splits)
  from v have n: "read_numeric E (FileType r) vtkFloatArray numTuples numComp (IS r) = (a0, s1)"
    by (auto simp: ReadArray_values_float split: if_splits prod.splits)
  from read_numeric_class [OF n] ReadArray_tail_class [OF t]
  show "array_class a = vtkFloatArray" by simp
qed

lemma quantize_unit:
  assumes "float_val b = Some v" and "0 \<le> v" and "v \<le> 1"
  shows "quantize (Bits b) = Some (Bits (nat (round (255 * v))))"
proof -
  from assms have "- 1 < 255 * v + 1 / 2" "255 * v + 1 / 2 < 256" by simp_all
  with assms show ?thesis by (simp add: quantize_def Let_def round_def)
qed

lemma color_scalars_cells:
  assumes c: "color_scalars name numPts numComp data = Some scalars"
    and l: "length (cells data) = nat (numPts * numComp)"
  shows "array_class scalars = vtkUnsignedCharArray"
    and "Name scalars = Some (c_str name)"
    and "0 < numComp \<longrightarrow> NumberOfComponents scalars = numComp
           \<and> length (cells scalars) = nat (numPts * numComp)"
    and "\<forall>idx b v. idx < length (cells data) \<and> idx < length (cells scalars)
           \<and> cells data ! idx = Bits b \<and> float_val b = Some v \<and> 0 \<le> v \<and> v \<le> 1
           \<longrightarrow> cells scalars ! idx = Bits (nat (round (255 * v)))"
proof -
  let ?k = "if 0 < numComp then numComp else 1"
  let ?size = "nat (numPts * ?k)"
  from c obtain qs where q: "those (map quantize (cells data)) = Some qs"
    and s: "scalars = SetName name ((SetNumberOfComponents numComp (New vtkUnsignedCharArray))
                \<lparr>cells := take ?size qs @ replicate (?size - length qs) Indeterminate\<rparr>)"
    by (auto simp: color_scalars_def Let_def SetNumberOfComponents_def split: if_splits option.splits)
  from those_nth [OF q] have lq: "length qs = length (cells data)"
    and nq: "\<forall>i<length (cells data). quantize (cells data ! i) = Some (qs ! i)" by simp_all
  from s show "array_class scalars = vtkUnsignedCharArray"
    by (simp add: SetName_def SetNumberOfComponents_def New_def)
  from s show "Name scalars = Some (c_str name)" by (simp add: SetName_def)
  from s have cs: "cells scalars = take ?size qs @ replicate (?size - length qs) Indeterminate"
    by (simp add: SetName_def)
  from s lq l cs show "0 < numComp \<longrightarrow> NumberOfComponents scalars = numComp
           \<and> length (cells scalars) = nat (numPts * numComp)"
    by (simp add: SetName_def SetNumberOfComponents_def)
  show "\<forall>idx b v. idx < length (cells data) \<and> idx < length (cells scalars)
           \<and> cells data ! idx = Bits b \<and> float_val b = Some v \<and> 0 \<le> v \<and> v \<le> 1
           \<longrightarrow> cells scalars ! idx = Bits (nat (round (255 * v)))"
  proof (intro allI impI)
    fix idx b v
    assume h: "idx < length (cells data) \<and> idx < length (cells scalars)
           \<and> cells data ! idx = Bits b \<and> float_val b = Some v \<and> 0 \<le> v \<and> v \<le> 1"
    with nq have "quantize (Bits b) = Some (qs ! idx)" by auto
    with h quantize_unit [of b v] have e: "qs ! idx = Bits (nat (round (255 * v)))" by simp
    have "length (cells scalars) = ?size" unfolding cs by simp
    with h have "idx < ?size" by simp
    with h lq have "cells scalars ! idx = qs ! idx" unfolding cs by (simp add: nth_append)
    with e show "cells scalars ! idx = Bits (nat (round (255 * v)))" by simp
  qed
qed


lemma nat_mult_counts:
  assumes "0 < numPts" and "0 < numComp"
  shows "nat (numPts * numComp) = nat numComp * nat numPts"
  using assms by (simp add: nat_mult_distrib mult.commute)

lemma ReadArray_unsigned_char_payload:
  assumes ra: "ReadArray E r ''unsigned_char'' numPts numComp = Some (Some array, r')"
    and ft: "FileType r = VTK_BINARY"
    and g: "good (IS r)" and b: "buf (IS r) = pre @ newline # payload @ rest"
    and p: "newline \<notin> set pre" "length pre < 255"
    and nz: "0 < numPts" "0 < numComp"
    and n: "length payload = nat (numPts * numComp)"
  shows "cells array = map (\<lambda>c. Bits (of_char c)) payload"
proof -
  from ReadArray_unsigned_char(2) [OF ra] ft obtain a0 s1 where
    rn: "read_numeric E VTK_BINARY vtkUnsignedCharArray numPts numComp (IS r) = (a0, s1)"
    and c: "cells array = cells a0" by auto
  from n nz have n': "length payload
      = elem_size E vtkUnsignedCharArray * nat numComp * nat numPts"
    by (simp add: elem_size_def nat_mult_counts)
  from read_numeric_binary_consumes [OF g b p nz n'] rn
  have "cells a0 = fixed_cells 1 (nat (numPts * numComp)) payload"
    by (simp add: elem_size_def)
  with c fixed_cells_bytes [OF n] show ?thesis by simp
qed

lemma those_defined:
  "\<forall>x\<in>set xs. x \<noteq> None \<Longrightarrow> \<exists>ys. those xs = Some ys"
  by (induction xs) (auto split: option.splits)

lemma color_scalars_defined:
  assumes "numPts \<le> INT_MAX" and "numPts * numComp - 1 \<le> INT_MAX"
    and u: "\<forall>c\<in>set (cells data). \<exists>b v. c = Bits b \<and> float_val b = Some v \<and> 0 \<le> v \<and> v \<le> 1"
  shows "\<exists>scalars. color_scalars name numPts numComp data = Some scalars"
proof -
  from u have "\<forall>x\<in>set (map quantize (cells data)). x \<noteq> None"
    by (auto simp: quantize_unit)
  from those_defined [OF this] obtain qs where "those (map quantize (cells data)) = Some qs" ..
  with assms(1,2) show ?thesis by (simp add: color_scalars_def Let_def)
qed

text \<open>
  Claim C4. Let the name and the number of components \<open>numComp\<close> of a COLOR_SCALARS
  section be read and the name be decoded. In a binary file, let ReadArray return an
  array for the type \<^verbatim>\<open>unsigned_char\<close>, \<open>numPts\<close> and \<open>numComp\<close>. In an ASCII file,
  let it return one for the type \<^verbatim>\<open>float\<close>, with \<open>numComp\<close> positive, the counters
  of the two loops within the range of \<^verbatim>\<open>int\<close>, and every value read a float between
  0 and 1. Then ReadCoScalarData returns 1 with the reader as ReadArray left it, and an
  array \<open>scalars\<close> becomes the Scalars slot, or is appended to the extra arrays, or goes
  nowhere, by the test of the other scalar sections. This array is of class
  \<^verbatim>\<open>vtkUnsignedCharArray\<close>, carries the decoded name and has \<open>numPts * numComp\<close>
  values. In a binary file it is the array that ReadArray returned, and where the stream
  holds that many bytes behind the end of the line, its values are these bytes. In an
  ASCII file it has \<open>numComp\<close> components, and the float \<open>v\<close> at an index gives the
  byte \<open>round (255 * v)\<close> at the same index.
\<close>

theorem ReadCoScalarData_unsigned_char:
  assumes nm: "ReadString (IS r) = (Some buffer, s1)"
    and nc: "Read_int s1 = (True, Some numComp, s2)"
    and dec: "DecodeString buffer = Some name"
    and bin: "FileType r = VTK_BINARY \<Longrightarrow>
                ReadArray E (r\<lparr>IS := s2\<rparr>) ''unsigned_char'' numPts numComp = Some (Some array, r')"
    and asc: "FileType r \<noteq> VTK_BINARY \<Longrightarrow>
                ReadArray E (r\<lparr>IS := s2\<rparr>) ''float'' numPts numComp = Some (Some array, r')
                \<and> 0 < numComp \<and> numPts \<le> INT_MAX \<and> numPts * numComp - 1 \<le> INT_MAX
                \<and> (\<forall>c\<in>set (cells array).
                      \<exists>b v. c = Bits b \<and> float_val b = Some v \<and> 0 \<le> v \<and> v \<le> 1)"
  shows "\<exists>scalars.
      ReadCoScalarData E r a numPts
        = Some (1, r',
            (if Scalars a \<noteq> None \<or> (\<exists>f. ScalarsName r = Some f \<and> f \<noteq> c_str name)
             then (if ReadAllColorScalars r then a\<lparr>Arrays := Arrays a @ [scalars]\<rparr> else a)
             else a\<lparr>Scalars := Some scalars\<rparr>))
    \<and> array_class scalars = vtkUnsignedCharArray \<and> Name scalars = Some (c_str name)
    \<and> length (cells scalars) = nat (numPts * numComp)
    \<and> (FileType r = VTK_BINARY \<longrightarrow>
          scalars = SetName name array
        \<and> (\<forall>pre payload rest.
              good s2 \<and> buf s2 = pre @ newline # payload @ rest \<and> newline \<notin> set pre
              \<and> length pre < 255 \<and> 0 < numPts \<and> 0 < numComp
              \<and> length payload = nat (numPts * numComp)
              \<longrightarrow> cells scalars = map (\<lambda>c. Bits (of_char c)) payload))
    \<and> (FileType r \<noteq> VTK_BINARY \<longrightarrow>
          array_class array = vtkFloatArray \<and> NumberOfComponents scalars = numComp
        \<and> (\<forall>idx < length (cells scalars).
              \<exists>b v. cells array ! idx = Bits b \<and> float_val b = Some v
                \<and> cells scalars ! idx = Bits (nat (round (255 * v)))))"
proof -
  have sk: "skip_scalar r a (c_str name)
            = (Scalars a \<noteq> None \<or> (\<exists>f. ScalarsName r = Some f \<and> f \<noteq> c_str name))"
    by (auto simp: skip_scalar_def split: option.splits)
  show ?thesis
  proof (cases "FileType r = VTK_BINARY")
    case True
    note ra = bin [OF True]
    let ?s = "SetName name array"
    from nm nc dec ra True sk
    have res: "ReadCoScalarData E r a numPts
        = Some (1, r',
            (if Scalars a \<noteq> None \<or> (\<exists>f. ScalarsName r = Some f \<and> f \<noteq> c_str name)
             then (if ReadAllColorScalars r then a\<lparr>Arrays := Arrays a @ [?s]\<rparr> else a)
             else a\<lparr>Scalars := Some ?s\<rparr>))"
      by (auto simp: ReadCoScalarData_def Let_def SetScalars_def AddArray_def)
    from ReadArray_unsigned_char(1) [OF ra] have c: "array_class ?s = vtkUnsignedCharArray"
      by (simp add: SetName_def)
    have n: "Name ?s = Some (c_str name)" by (simp add: SetName_def)
    from ReadArray_length [OF ra] have l: "length (cells ?s) = nat (numPts * numComp)"
      by (simp add: SetName_def)
    have pl: "\<forall>pre payload rest.
              good s2 \<and> buf s2 = pre @ newline # payload @ rest \<and> newline \<notin> set pre
              \<and> length pre < 255 \<and> 0 < numPts \<and> 0 < numComp
              \<and> length payload = nat (numPts * numComp)
              \<longrightarrow> cells ?s = map (\<lambda>c. Bits (of_char c)) payload"
    proof (intro allI impI)
      fix pre payload rest
      assume q: "good s2 \<and> buf s2 = pre @ newline # payload @ rest \<and> newline \<notin> set pre
              \<and> length pre < 255 \<and> 0 < numPts \<and> 0 < numComp
              \<and> length payload = nat (numPts * numComp)"
      from True have ft: "FileType (r\<lparr>IS := s2\<rparr>) = VTK_BINARY" by simp
      from q have g: "good (IS (r\<lparr>IS := s2\<rparr>))"
        and b: "buf (IS (r\<lparr>IS := s2\<rparr>)) = pre @ newline # payload @ rest" by simp_all
      from q have p: "newline \<notin> set pre" "length pre < 255" and nz: "0 < numPts" "0 < numComp"
        and m: "length payload = nat (numPts * numComp)" by simp_all
      from ReadArray_unsigned_char_payload [OF ra ft g b p nz m]
      show "cells ?s = map (\<lambda>c. Bits (of_char c)) payload" by (simp add: SetName_def)
    qed
    from res c n l pl True show ?thesis by blast
  next
    case False
    from asc [OF False] have
      ra: "ReadArray E (r\<lparr>IS := s2\<rparr>) ''float'' numPts numComp = Some (Some array, r')"
      and k: "0 < numComp" and i1: "numPts \<le> INT_MAX" and i2: "numPts * numComp - 1 \<le> INT_MAX"
      and u: "\<forall>c\<in>set (cells array).
                \<exists>b v. c = Bits b \<and> float_val b = Some v \<and> 0 \<le> v \<and> v \<le> 1"
      by simp_all
    from color_scalars_defined [OF i1 i2 u] obtain scalars where
      cs: "color_scalars name numPts numComp array = Some scalars" ..
    note l = ReadArray_length [OF ra]
    note p = color_scalars_cells [OF cs l]
    from nm nc dec ra False sk cs
    have res: "ReadCoScalarData E r a numPts
        = Some (1, r',
            (if Scalars a \<noteq> None \<or> (\<exists>f. ScalarsName r = Some f \<and> f \<noteq> c_str name)
             then (if ReadAllColorScalars r then a\<lparr>Arrays := Arrays a @ [scalars]\<rparr> else a)
             else a\<lparr>Scalars := Some scalars\<rparr>))"
      by (auto simp: ReadCoScalarData_def Let_def SetScalars_def AddArray_def)
    from p(3) k have nk: "NumberOfComponents scalars = numComp"
      and ls: "length (cells scalars) = nat (numPts * numComp)" by simp_all
    have q: "\<forall>idx < length (cells scalars).
              \<exists>b v. cells array ! idx = Bits b \<and> float_val b = Some v
                \<and> cells scalars ! idx = Bits (nat (round (255 * v)))"
    proof (intro allI impI)
      fix idx assume i: "idx < length (cells scalars)"
      with ls l have ia: "idx < length (cells array)" by simp
      then have "cells array ! idx \<in> set (cells array)" by simp
      with u obtain b v where bv: "cells array ! idx = Bits b" "float_val b = Some v"
        "0 \<le> v" "v \<le> 1" by blast
      with p(4) i ia have "cells scalars ! idx = Bits (nat (round (255 * v)))" by blast
      with bv show "\<exists>b v. cells array ! idx = Bits b \<and> float_val b = Some v
                \<and> cells scalars ! idx = Bits (nat (round (255 * v)))" by blast
    qed
    from res p(1) p(2) ls nk q ReadArray_float [OF ra] False show ?thesis by blast
  qed
qed

lemma example_color_scalars_first: "Read_elem vtk_env vtkFloatArray
         \<lparr>buf = newline # ''0.5 1'' @ newline # ''VECTORS'', eofbit = False, failbit = False, gcount = 0\<rparr>
       = (True, Some 0x3F000000,
          \<lparr>buf = '' 1'' @ newline # ''VECTORS'', eofbit = False, failbit = False, gcount = 0\<rparr>)"
  by (simp add: Read_elem_def Read_float_def IS_extract_real_def sentry_skipws_def good_def
        isspace_def vtk_env_def example_scan_float_def Let_def newline_def)

lemma example_color_scalars_second: "Read_elem vtk_env vtkFloatArray
         \<lparr>buf = '' 1'' @ newline # ''VECTORS'', eofbit = False, failbit = False, gcount = 0\<rparr>
       = (True, Some 0x3F800000,
          \<lparr>buf = newline # ''VECTORS'', eofbit = False, failbit = False, gcount = 0\<rparr>)"
  by (simp add: Read_elem_def Read_float_def IS_extract_real_def sentry_skipws_def good_def
        isspace_def vtk_env_def example_scan_float_def Let_def newline_def)

lemma example_color_scalars_tail: "ReadArray_tail vtk_env 2 a
         \<lparr>buf = newline # ''VECTORS'', eofbit = False, failbit = False, gcount = 0\<rparr>
       = Some (a, \<lparr>buf = ''VECTORS'', eofbit = False, failbit = False, gcount = 7\<rparr>)"
  by code_simp


lemma example_color_scalars_values: "ReadArray_values vtk_env VTK_ASCII ''float'' 1 2
         \<lparr>buf = newline # ''0.5 1'' @ newline # ''VECTORS'', eofbit = False, failbit = False, gcount = 0\<rparr>
       = Some (Some ((SetNumberOfComponents 2 (New vtkFloatArray))
                       \<lparr>cells := [Bits 0x3F000000, Bits 0x3F800000]\<rparr>),
               \<lparr>buf = newline # ''VECTORS'', eofbit = False, failbit = False, gcount = 0\<rparr>)"
  by (simp add: ReadArray_values_float read_numeric_def numeral_2_eq_2 example_color_scalars_first [simplified]
        example_color_scalars_second [simplified] cell_of_def)

lemma example_color_scalars_name: "ReadString (IS (new_reader example_color_scalars))
        = (Some ''col'', open_stream ('' 2'' @ newline # ''0.5 1'' @ newline # ''VECTORS''))"
  by code_simp

lemma example_color_scalars_components: "Read_int (open_stream ('' 2'' @ newline # ''0.5 1'' @ newline # ''VECTORS''))
        = (True, Some 2, \<lparr>buf = newline # ''0.5 1'' @ newline # ''VECTORS'', eofbit = False, failbit = False, gcount = 0\<rparr>)"
  by code_simp

lemma example_color_scalars_decoded: "DecodeString ''col'' = Some ''col''"
  by code_simp

lemma float_val_examples: "float_val 0x3F000000 = Some (1 / 2)" "float_val 0x3F800000 = Some 1"
  by (simp_all add: float_val_def pow2_def Let_def)

lemma new_reader_settings: "FileType (new_reader b) = VTK_ASCII" "ScalarsName (new_reader b) = None"
  by (simp_all add: new_reader_def)

lemma example_color_scalars_array: "ReadArray vtk_env
         ((new_reader example_color_scalars)
            \<lparr>IS := \<lparr>buf = newline # ''0.5 1'' @ newline # ''VECTORS'', eofbit = False,
                      failbit = False, gcount = 0\<rparr>\<rparr>) ''float'' 1 2
       = Some (Some ((SetNumberOfComponents 2 (New vtkFloatArray))
                       \<lparr>cells := [Bits 0x3F000000, Bits 0x3F800000]\<rparr>),
               (new_reader example_color_scalars)
                 \<lparr>IS := \<lparr>buf = ''VECTORS'', eofbit = False, failbit = False, gcount = 7\<rparr>\<rparr>)"
  by (simp add: ReadArray_def new_reader_settings example_color_scalars_values [simplified] example_color_scalars_tail [simplified])

theorem ReadCoScalarData_unsigned_char_witness:
  "(\<exists>scalars.
      ReadCoScalarData vtk_env (new_reader example_color_scalars) no_attributes 1
        = Some (1,
            (new_reader example_color_scalars)
              \<lparr>IS := \<lparr>buf = ''VECTORS'', eofbit = False, failbit = False, gcount = 7\<rparr>\<rparr>,
            no_attributes\<lparr>Scalars := Some scalars\<rparr>)
    \<and> array_class scalars = vtkUnsignedCharArray \<and> Name scalars = Some ''col''
    \<and> NumberOfComponents scalars = 2 \<and> length (cells scalars) = 2
    \<and> cells scalars ! 0 = Bits 128 \<and> cells scalars ! 1 = Bits 255)
   \<and> (\<exists>scalars.
      ReadCoScalarData vtk_env
          ((new_reader example_binary_color_scalars)\<lparr>FileType := VTK_BINARY\<rparr>) no_attributes 2
        = Some (1,
            (new_reader example_binary_color_scalars)
              \<lparr>FileType := VTK_BINARY,
                IS := \<lparr>buf = ''VECTORS'', eofbit = False, failbit = False, gcount = 7\<rparr>\<rparr>,
            no_attributes\<lparr>Scalars := Some scalars\<rparr>)
    \<and> array_class scalars = vtkUnsignedCharArray \<and> Name scalars = Some ''col''
    \<and> cells scalars = [Bits 97, Bits 98, Bits 99, Bits 100])"
proof -
  let ?r = "new_reader example_color_scalars"
  let ?s1 = "open_stream ('' 2'' @ newline # ''0.5 1'' @ newline # ''VECTORS'')"
  let ?s2 = "\<lparr>buf = newline # ''0.5 1'' @ newline # ''VECTORS'', eofbit = False,
                failbit = False, gcount = 0\<rparr>"
  let ?s6 = "\<lparr>buf = ''VECTORS'', eofbit = False, failbit = False, gcount = 7\<rparr>"
  let ?data = "(SetNumberOfComponents 2 (New vtkFloatArray))
                 \<lparr>cells := [Bits 0x3F000000, Bits 0x3F800000]\<rparr>"
  have cn: "c_str ''col'' = ''col''" by code_simp
  have na: "Scalars no_attributes = None" by (simp add: no_attributes_def)
  have f: "FileType ?r \<noteq> VTK_BINARY" by (simp add: new_reader_settings)
  have bin: "FileType ?r = VTK_BINARY \<Longrightarrow>
               ReadArray vtk_env (?r\<lparr>IS := ?s2\<rparr>) ''unsigned_char'' 1 2
               = Some (Some ?data, ?r\<lparr>IS := ?s6\<rparr>)"
    using f by simp
  have asc: "FileType ?r \<noteq> VTK_BINARY \<Longrightarrow>
               ReadArray vtk_env (?r\<lparr>IS := ?s2\<rparr>) ''float'' 1 2 = Some (Some ?data, ?r\<lparr>IS := ?s6\<rparr>)
               \<and> (0::int) < 2 \<and> (1::int) \<le> INT_MAX \<and> (1::int) * 2 - 1 \<le> INT_MAX
               \<and> (\<forall>c\<in>set (cells ?data).
                     \<exists>b v. c = Bits b \<and> float_val b = Some v \<and> 0 \<le> v \<and> v \<le> 1)"
  proof -
    have u1: "\<exists>b v. Bits 0x3F000000 = Bits b \<and> float_val b = Some v \<and> 0 \<le> v \<and> v \<le> 1"
      by (rule exI [of _ "0x3F000000"], rule exI [of _ "1 / 2"])
         (simp add: float_val_examples)
    have u2: "\<exists>b v. Bits 0x3F800000 = Bits b \<and> float_val b = Some v \<and> 0 \<le> v \<and> v \<le> 1"
      by (rule exI [of _ "0x3F800000"], rule exI [of _ 1])
         (simp add: float_val_examples)
    from u1 u2 have "\<forall>c\<in>set (cells ?data).
                     \<exists>b v. c = Bits b \<and> float_val b = Some v \<and> 0 \<le> v \<and> v \<le> 1"
      by simp
    with example_color_scalars_array show ?thesis by (simp add: INT_MAX_def)
  qed
  from ReadCoScalarData_unsigned_char [OF example_color_scalars_name
         example_color_scalars_components example_color_scalars_decoded bin asc, of no_attributes]
       f na new_reader_settings(2) [of example_color_scalars] cn
  obtain scalars where
    res: "ReadCoScalarData vtk_env ?r no_attributes 1
            = Some (1, ?r\<lparr>IS := ?s6\<rparr>, no_attributes\<lparr>Scalars := Some scalars\<rparr>)"
    and c: "array_class scalars = vtkUnsignedCharArray" "Name scalars = Some ''col''"
      "NumberOfComponents scalars = 2" "length (cells scalars) = 2"
    and q: "\<forall>idx < length (cells scalars).
              \<exists>b v. cells ?data ! idx = Bits b \<and> float_val b = Some v
                \<and> cells scalars ! idx = Bits (nat (round (255 * v)))"
    by auto
  have h: "nat (round (255 * (1 / 2 :: real))) = 128" "nat (round (255 * (1 :: real))) = 255"
    by (simp_all add: round_def)
  have "(0::nat) < length (cells scalars)" using c(4) by simp
  from q [rule_format, OF this] obtain b0 v0 where
    b0: "cells ?data ! 0 = Bits b0" "float_val b0 = Some v0"
      "cells scalars ! 0 = Bits (nat (round (255 * v0)))"
    by blast
  from b0(1) have "b0 = 0x3F000000" by simp
  with b0(2) float_val_examples(1) have "v0 = 1 / 2" by simp
  with b0(3) h(1) have q0: "cells scalars ! 0 = Bits 128" by simp
  have "(1::nat) < length (cells scalars)" using c(4) by simp
  from q [rule_format, OF this] obtain b1 v1 where
    b1: "cells ?data ! 1 = Bits b1" "float_val b1 = Some v1"
      "cells scalars ! 1 = Bits (nat (round (255 * v1)))"
    by blast
  from b1(1) have "b1 = 0x3F800000" by simp
  with b1(2) float_val_examples(2) have "v1 = 1" by simp
  with b1(3) h(2) have q1: "cells scalars ! 1 = Bits 255" by simp
  from res c q0 q1 have A: "\<exists>scalars.
      ReadCoScalarData vtk_env ?r no_attributes 1
        = Some (1, ?r\<lparr>IS := ?s6\<rparr>, no_attributes\<lparr>Scalars := Some scalars\<rparr>)
    \<and> array_class scalars = vtkUnsignedCharArray \<and> Name scalars = Some ''col''
    \<and> NumberOfComponents scalars = 2 \<and> length (cells scalars) = 2
    \<and> cells scalars ! 0 = Bits 128 \<and> cells scalars ! 1 = Bits 255"
    by blast
  let ?b = "(new_reader example_binary_color_scalars)\<lparr>FileType := VTK_BINARY\<rparr>"
  let ?t1 = "open_stream ('' 2'' @ newline # ''abcd'' @ newline # ''VECTORS'')"
  let ?t2 = "\<lparr>buf = newline # ''abcd'' @ newline # ''VECTORS'', eofbit = False,
                failbit = False, gcount = 0\<rparr>"
  let ?bytes = "(SetNumberOfComponents 2 (New vtkUnsignedCharArray))
                  \<lparr>cells := [Bits 97, Bits 98, Bits 99, Bits 100]\<rparr>"
  have nmb: "ReadString (IS ?b) = (Some ''col'', ?t1)" by code_simp
  have ncb: "Read_int ?t1 = (True, Some 2, ?t2)" by code_simp
  have fb: "FileType ?b = VTK_BINARY" by simp
  have binb: "FileType ?b = VTK_BINARY \<Longrightarrow>
               ReadArray vtk_env (?b\<lparr>IS := ?t2\<rparr>) ''unsigned_char'' 2 2
               = Some (Some ?bytes, ?b\<lparr>IS := ?s6\<rparr>)"
    by code_simp
  have ascb: "FileType ?b \<noteq> VTK_BINARY \<Longrightarrow>
               ReadArray vtk_env (?b\<lparr>IS := ?t2\<rparr>) ''float'' 2 2 = Some (Some ?bytes, ?b\<lparr>IS := ?s6\<rparr>)
               \<and> (0::int) < 2 \<and> (2::int) \<le> INT_MAX \<and> (2::int) * 2 - 1 \<le> INT_MAX
               \<and> (\<forall>c\<in>set (cells ?bytes).
                     \<exists>b v. c = Bits b \<and> float_val b = Some v \<and> 0 \<le> v \<and> v \<le> 1)"
    using fb by simp
  have sb: "ScalarsName ?b = None" by (simp add: new_reader_def)
  have g: "good ?t2" "buf ?t2 = [] @ newline # ''abcd'' @ (newline # ''VECTORS'')"
    "newline \<notin> set []" "length ([]::string) < 255" "length ''abcd'' = nat (2 * 2)"
    by (simp_all add: good_def)
  from ReadCoScalarData_unsigned_char [OF nmb ncb example_color_scalars_decoded binb ascb,
         of no_attributes] fb na sb cn
  obtain scalars where
    res: "ReadCoScalarData vtk_env ?b no_attributes 2
            = Some (1, ?b\<lparr>IS := ?s6\<rparr>, no_attributes\<lparr>Scalars := Some scalars\<rparr>)"
    and c: "array_class scalars = vtkUnsignedCharArray" "Name scalars = Some ''col''"
    and p: "\<forall>pre payload rest.
              good ?t2 \<and> buf ?t2 = pre @ newline # payload @ rest \<and> newline \<notin> set pre
              \<and> length pre < 255 \<and> (0::int) < 2 \<and> (0::int) < 2
              \<and> length payload = nat (2 * 2)
              \<longrightarrow> cells scalars = map (\<lambda>c. Bits (of_char c)) payload"
    by auto
  from p [rule_format, of "[]" "''abcd''" "newline # ''VECTORS''"] g
  have "cells scalars = [Bits 97, Bits 98, Bits 99, Bits 100]" by simp
  with res c have B: "\<exists>scalars.
      ReadCoScalarData vtk_env ?b no_attributes 2
        = Some (1, ?b\<lparr>IS := ?s6\<rparr>, no_attributes\<lparr>Scalars := Some scalars\<rparr>)
    \<and> array_class scalars = vtkUnsignedCharArray \<and> Name scalars = Some ''col''
    \<and> cells scalars = [Bits 97, Bits 98, Bits 99, Bits 100]"
    by blast
  from A B show ?thesis by simp
qed

subsection \<open>Field data\<close>

lemma ReadFieldData_arrays_skipped:
  "ReadFieldData_arrays E fieldType False n numComp numTuples type r f = Some (Some f', r')
   \<Longrightarrow> f' = f"
proof (induction n arbitrary: numComp numTuples type r f)
  case 0
  then show ?case by simp
next
  case (Suc n)
  from Suc.prems show ?case
    by (auto simp: Let_def dest: Suc.IH
             split: prod.splits option.splits if_splits)
qed

lemma ReadFieldData_excluded:
  assumes "ReadString (IS r) = (Some name, s1)" and "FieldDataName r = Some f"
    and "name \<noteq> f" and "\<not> ReadAllFields r"
    and "ReadFieldData E r fieldType = Some (res, r')"
  shows "res = None" and "field_keyword E fieldType r a = Some (False, r', a)"
proof -
  from assms show "res = None"
    by (auto simp: ReadFieldData_def Let_def split: prod.splits option.splits bool.splits if_splits)
  with assms(5) show "field_keyword E fieldType r a = Some (False, r', a)"
    by (simp add: field_keyword_def)
qed

text \<open>
  Claim C7. The arrays of a field whose name the reader does not ask for are not put into
  the container when ReadAllFields is off (\<open>ReadFieldData_arrays_skipped\<close>). But
  ReadFieldData then returns the null pointer, as it does when a read fails, and the
  branch of the keyword loop returns 0 (\<open>ReadFieldData_excluded\<close>). On the example,
  with the field \<^verbatim>\<open>wanted\<close> asked for and the field \<^verbatim>\<open>other\<close> in the file, the
  branch returns 0 with the stream at the next keyword and the container unchanged; with
  ReadAllFields on, or with no name asked for, the loop goes on from the same place with
  the array \<^verbatim>\<open>temps\<close> added.
\<close>

theorem field_keyword_excluded_field:
  "map_option (\<lambda>(go, r', a'). (go, buf (IS r'), a'))
     (field_keyword vtk_env CELL_DATA example_field_reader no_attributes)
   = Some (False, ''SCALARS s int'' @ newline # ''LOOKUP_TABLE default'' @ newline # ''7'' @ [newline],
           no_attributes)
   \<and> map_option (\<lambda>(go, r', a'). (go, buf (IS r'), map Name (Arrays a')))
       (field_keyword vtk_env CELL_DATA (example_field_reader\<lparr>ReadAllFields := True\<rparr>) no_attributes)
     = Some (True, ''SCALARS s int'' @ newline # ''LOOKUP_TABLE default'' @ newline # ''7'' @ [newline],
             [Some ''temps''])
   \<and> map_option (\<lambda>(go, r', a'). (go, buf (IS r'), map Name (Arrays a')))
       (field_keyword vtk_env CELL_DATA (new_reader example_field) no_attributes)
     = Some (True, ''SCALARS s int'' @ newline # ''LOOKUP_TABLE default'' @ newline # ''7'' @ [newline],
             [Some ''temps''])"
  by code_simp

end
